(* ===== verification/Prelude.thy ===== *)
theory Prelude
  imports Main "HOL-Library.Char_ord" "HOL-Library.List_Lexorder"
begin

text \<open>
  Shared vocabulary of the development: the types that stand for Go values (strings are byte
  sequences, \<^verbatim>\<open>int64\<close> values are integers with the wrap-around written out), the collections of
  simplification rules the component theories fill, and the generic lemmas on lists that more than
  one component uses.
\<close>

section \<open>Types\<close>

text \<open>A Go string is a sequence of bytes; an Isabelle character is one byte.\<close>

type_synonym gostring = "char list"
type_synonym bytes = "char list"

section \<open>Collections of rules\<close>

named_theorems validation_defs \<open>definitions of the checks on a request\<close>
named_theorems report_defs \<open>definitions of what the command reports\<close>

section \<open>Signed 64-bit arithmetic\<close>

definition max_int64 :: int where
  "max_int64 = 9223372036854775807"

definition wrap64 :: "int \<Rightarrow> int" where
  "wrap64 x = (x + 9223372036854775808) mod 18446744073709551616 - 9223372036854775808"

definition in_int64 :: "int \<Rightarrow> bool" where
  "in_int64 x \<longleftrightarrow> - 9223372036854775808 \<le> x \<and> x \<le> 9223372036854775807"

lemma wrap64_in_int64: "in_int64 (wrap64 x)"
proof -
  have "0 \<le> (x + 9223372036854775808) mod 18446744073709551616"
    and "(x + 9223372036854775808) mod 18446744073709551616 < 18446744073709551616"
    by simp_all
  then show ?thesis
    unfolding in_int64_def wrap64_def by linarith
qed

lemma wrap64_id: "in_int64 x \<Longrightarrow> wrap64 x = x"
  by (simp add: in_int64_def wrap64_def)

lemma wrap64_add [simp]: "wrap64 (wrap64 a + b) = wrap64 (a + b)"
proof -
  have "wrap64 (wrap64 a + b)
      = (b + (a + 9223372036854775808) mod 18446744073709551616) mod 18446744073709551616
        - 9223372036854775808"
    by (simp add: wrap64_def algebra_simps)
  also have "\<dots> = (b + (a + 9223372036854775808)) mod 18446744073709551616 - 9223372036854775808"
    by (simp only: mod_add_right_eq)
  finally show ?thesis
    by (simp add: wrap64_def algebra_simps)
qed

section \<open>Lists\<close>

lemma takeWhile_neq [simp]: "x \<notin> set xs \<Longrightarrow> takeWhile (\<lambda>c. c \<noteq> x) xs = xs"
  by (induction xs) auto

lemma dropWhile_neq [simp]: "x \<notin> set xs \<Longrightarrow> dropWhile (\<lambda>c. c \<noteq> x) xs = []"
  by (induction xs) auto

lemma takeWhile_neq_append [simp]:
  "x \<notin> set xs \<Longrightarrow> takeWhile (\<lambda>c. c \<noteq> x) (xs @ x # ys) = xs"
  by (induction xs) auto

lemma dropWhile_neq_append [simp]:
  "x \<notin> set xs \<Longrightarrow> dropWhile (\<lambda>c. c \<noteq> x) (xs @ x # ys) = x # ys"
  by (induction xs) auto

lemma append_sep_inject:
  assumes "x \<notin> set a" "x \<notin> set c"
  shows "a @ x # b = c @ x # d \<longleftrightarrow> a = c \<and> b = d"
  using assms
proof (induction a arbitrary: c)
  case Nil
  then show ?case by (cases c) auto
next
  case (Cons y a)
  then show ?case by (cases c) auto
qed

lemma append_sep_inject_last:
  assumes "x \<notin> set b" "x \<notin> set d"
  shows "a @ x # b = c @ x # d \<longleftrightarrow> a = c \<and> b = d"
proof -
  have "a @ x # b = c @ x # d \<longleftrightarrow> rev (a @ x # b) = rev (c @ x # d)"
    by (metis rev_rev_ident)
  also have "\<dots> \<longleftrightarrow> rev b @ x # rev a = rev d @ x # rev c"
    by simp
  also have "\<dots> \<longleftrightarrow> a = c \<and> b = d"
    using assms by (subst append_sep_inject) auto
  finally show ?thesis .
qed

text \<open>A field appended after a separator, kept folded so that fields are compared from the end.\<close>

definition snoc_field :: "'a \<Rightarrow> 'a list \<Rightarrow> 'a list \<Rightarrow> 'a list" where
  "snoc_field x a b = a @ x # b"

lemma snoc_field_inject:
  "x \<notin> set b \<Longrightarrow> x \<notin> set d \<Longrightarrow> snoc_field x a b = snoc_field x c d \<longleftrightarrow> a = c \<and> b = d"
  by (simp add: snoc_field_def append_sep_inject_last)

end
