(* ===== verification/Go_Error.thy ===== *)
theory Go_Error
  imports Prelude
begin

text \<open>
  Go errors as values. An error is a sentinel, an opaque error of the operating system or of a
  library, one of the two gate errors (the policy package's and the public package's), or a
  wrapping made by \<^verbatim>\<open>fmt.Errorf\<close> with one \<^verbatim>\<open>%w\<close> verb. A message is kept unrendered, as its format
  string and its arguments. \<^verbatim>\<open>errors.Is\<close> and \<^verbatim>\<open>errors.As\<close> walk the chain
  of wrapped errors as the standard library does.
\<close>

section \<open>Gate codes (errors.go and internal/policy/model.go)\<close>

text \<open>
  \<^verbatim>\<open>GateCode\<close> is a string type with named values; the policy package and the public package declare
  the same seventeen. \<open>GateEmpty\<close> is the zero value, the empty string.
\<close>

datatype gate_code =
    GateInvalidTarget
  | GateInvalidDigest
  | GateInvalidImageSize
  | GateInvalidMode
  | GateNotRoot
  | GateTargetPartition
  | GateTargetTooSmall
  | GateTargetMounted
  | GateTargetSwap
  | GateSourceOnTarget
  | GateLiveTargetNotRoot
  | GateLiveSourceNotTmpfs
  | GateLiveMemory
  | GateLiveSysRq
  | GateLiveReboot
  | GateConfirmation
  | GateIdentityChanged
  | GateEmpty

fun gate_text :: "gate_code \<Rightarrow> gostring" where
  "gate_text GateInvalidTarget = ''invalid_target''"
| "gate_text GateInvalidDigest = ''invalid_digest''"
| "gate_text GateInvalidImageSize = ''invalid_image_size''"
| "gate_text GateInvalidMode = ''invalid_mode''"
| "gate_text GateNotRoot = ''not_root''"
| "gate_text GateTargetPartition = ''target_partition''"
| "gate_text GateTargetTooSmall = ''target_too_small''"
| "gate_text GateTargetMounted = ''target_mounted''"
| "gate_text GateTargetSwap = ''target_swap''"
| "gate_text GateSourceOnTarget = ''source_on_target''"
| "gate_text GateLiveTargetNotRoot = ''live_target_not_root''"
| "gate_text GateLiveSourceNotTmpfs = ''live_source_not_tmpfs''"
| "gate_text GateLiveMemory = ''live_memory''"
| "gate_text GateLiveSysRq = ''live_sysrq''"
| "gate_text GateLiveReboot = ''live_reboot_required''"
| "gate_text GateConfirmation = ''confirmation_mismatch''"
| "gate_text GateIdentityChanged = ''identity_changed''"
| "gate_text GateEmpty = ''''"

lemma gate_text_inject: "gate_text a = gate_text b \<longleftrightarrow> a = b"
  by (cases a; cases b) simp_all

section \<open>Errors\<close>

text \<open>
  The sentinel errors of the program (diskforge, internal/image, internal/linux, internal/naming)
  and those of the standard library that the program tests for or returns.
\<close>

datatype sentinel =
    ErrInvalidRequest
  | ErrInvalidArgument
  | ErrInvalidDigest
  | ErrInvalidSource
  | ErrDigestMismatch
  | ErrDownloadRejected
  | ErrSizeMismatch
  | ErrSourceChanged
  | ErrUnsupportedFormat
  | ErrInvalidBlockDevice
  | ErrInvalidProcfs
  | ErrUnresolvedDevice
  | ErrRemountIncomplete
  | ErrInvalidArtifactName
  | ContextCanceled
  | ContextDeadlineExceeded
  | IoEOF
  | IoErrUnexpectedEOF
  | IoErrShortWrite
  | IoErrInvalidWrite
  | BufioErrTooLong
  | OsErrClosed
  | OsErrNotExist

datatype goerr =
    Sentinel sentinel
  | Opaque gostring
  | PolicyGate gate_code gostring "farg list"
  | PublicGate gate_code gostring "farg list" "goerr option"
  | Errorf gostring "farg list" goerr
and farg =
    FStr gostring
  | FInt int
  | FQuote gostring
  | FErr goerr

type_synonym 'a res = "goerr + 'a"

text \<open>
  The chain that \<^verbatim>\<open>errors.Is\<close> and \<^verbatim>\<open>errors.As\<close> walk: an error followed by what its \<^verbatim>\<open>Unwrap\<close> method
  returns. The policy package's \<^verbatim>\<open>GateError\<close> has no \<^verbatim>\<open>Unwrap\<close> method; the public one returns its cause.
\<close>

fun err_chain :: "goerr \<Rightarrow> goerr list" where
  "err_chain (Errorf f as e) = Errorf f as e # err_chain e"
| "err_chain (PublicGate c f as (Some e)) = PublicGate c f as (Some e) # err_chain e"
| "err_chain e = [e]"

definition errors_is :: "goerr \<Rightarrow> sentinel \<Rightarrow> bool" where
  "errors_is e s \<longleftrightarrow> Sentinel s \<in> set (err_chain e)"

text \<open>\<^verbatim>\<open>GateError.Is\<close> of errors.go, for a target that is a public gate error with code \<open>c\<close>.\<close>

fun gate_error_Is :: "goerr \<Rightarrow> gate_code \<Rightarrow> bool" where
  "gate_error_Is (PublicGate code f as cause) c = (c \<noteq> GateEmpty \<and> code = c)"
| "gate_error_Is e c = False"

definition errors_is_gate :: "goerr \<Rightarrow> gate_code \<Rightarrow> bool" where
  "errors_is_gate e c \<longleftrightarrow> (\<exists>x \<in> set (err_chain e). gate_error_Is x c)"

fun as_policy_gate :: "goerr list \<Rightarrow> (gate_code \<times> gostring \<times> farg list) option" where
  "as_policy_gate [] = None"
| "as_policy_gate (PolicyGate c f as # es) = Some (c, f, as)"
| "as_policy_gate (e # es) = as_policy_gate es"

fun as_public_gate :: "goerr list \<Rightarrow> (gate_code \<times> gostring \<times> farg list) option" where
  "as_public_gate [] = None"
| "as_public_gate (PublicGate c f as cause # es) = Some (c, f, as)"
| "as_public_gate (e # es) = as_public_gate es"

definition errors_as_policy_gate :: "goerr \<Rightarrow> (gate_code \<times> gostring \<times> farg list) option" where
  "errors_as_policy_gate e = as_policy_gate (err_chain e)"

definition errors_as_public_gate :: "goerr \<Rightarrow> (gate_code \<times> gostring \<times> farg list) option" where
  "errors_as_public_gate e = as_public_gate (err_chain e)"

section \<open>Facts about chains\<close>

lemma errors_is_simps [simp]:
  "errors_is (Sentinel t) s \<longleftrightarrow> t = s"
  "errors_is (Opaque m) s \<longleftrightarrow> False"
  "errors_is (PolicyGate c f as) s \<longleftrightarrow> False"
  "errors_is (PublicGate c f as None) s \<longleftrightarrow> False"
  "errors_is (PublicGate c f as (Some e)) s \<longleftrightarrow> errors_is e s"
  "errors_is (Errorf f as e) s \<longleftrightarrow> errors_is e s"
  by (auto simp: errors_is_def)

lemma errors_as_policy_gate_simps [simp]:
  "errors_as_policy_gate (Sentinel t) = None"
  "errors_as_policy_gate (Opaque m) = None"
  "errors_as_policy_gate (PolicyGate c f as) = Some (c, f, as)"
  "errors_as_policy_gate (PublicGate c f as None) = None"
  "errors_as_policy_gate (PublicGate c f as (Some e)) = errors_as_policy_gate e"
  "errors_as_policy_gate (Errorf f as e) = errors_as_policy_gate e"
  by (simp_all add: errors_as_policy_gate_def)

lemma errors_as_public_gate_simps [simp]:
  "errors_as_public_gate (Sentinel t) = None"
  "errors_as_public_gate (Opaque m) = None"
  "errors_as_public_gate (PolicyGate c f as) = None"
  "errors_as_public_gate (PublicGate c f as cause) = Some (c, f, as)"
  "errors_as_public_gate (Errorf f as e) = errors_as_public_gate e"
  by (cases cause; simp add: errors_as_public_gate_def)+

lemma errors_is_gate_simps [simp]:
  "errors_is_gate (Sentinel t) c \<longleftrightarrow> False"
  "errors_is_gate (Opaque m) c \<longleftrightarrow> False"
  "errors_is_gate (PolicyGate d f as) c \<longleftrightarrow> False"
  "errors_is_gate (PublicGate d f as None) c \<longleftrightarrow> c \<noteq> GateEmpty \<and> d = c"
  "errors_is_gate (PublicGate d f as (Some e)) c \<longleftrightarrow> (c \<noteq> GateEmpty \<and> d = c) \<or> errors_is_gate e c"
  "errors_is_gate (Errorf f as e) c \<longleftrightarrow> errors_is_gate e c"
  by (auto simp: errors_is_gate_def)

section \<open>Loops that stop at the first error\<close>

text \<open>A loop that collects one result per element, and a loop that threads an accumulator.\<close>

fun res_map :: "('a \<Rightarrow> 'b res) \<Rightarrow> 'a list \<Rightarrow> 'b list res" where
  "res_map f [] = Inr []"
| "res_map f (x # xs) =
     (case f x of
        Inl err \<Rightarrow> Inl err
      | Inr y \<Rightarrow> (case res_map f xs of Inl err \<Rightarrow> Inl err | Inr ys \<Rightarrow> Inr (y # ys)))"

fun res_fold :: "('a \<Rightarrow> 's \<Rightarrow> 's res) \<Rightarrow> 'a list \<Rightarrow> 's \<Rightarrow> 's res" where
  "res_fold f [] s = Inr s"
| "res_fold f (x # xs) s = (case f x s of Inl err \<Rightarrow> Inl err | Inr t \<Rightarrow> res_fold f xs t)"

lemma res_map_Inr: "res_map f xs = Inr ys \<longleftrightarrow> list_all2 (\<lambda>x y. f x = Inr y) xs ys"
proof (induction xs arbitrary: ys)
  case Nil
  show ?case by auto
next
  case (Cons x xs)
  have "res_map f (x # xs) = Inr ys \<longleftrightarrow> (\<exists>y zs. f x = Inr y \<and> res_map f xs = Inr zs \<and> ys = y # zs)"
    by (simp split: sum.split) blast
  then show ?case
    unfolding Cons.IH list_all2_Cons1 by blast
qed

lemma res_fold_invariant:
  assumes "res_fold f xs s = Inr t" "P s" "\<And>x s t. x \<in> set xs \<Longrightarrow> f x s = Inr t \<Longrightarrow> P s \<Longrightarrow> P t"
  shows "P t"
  using assms
proof (induction xs arbitrary: s)
  case (Cons x xs)
  then obtain u where "f x s = Inr u" "res_fold f xs u = Inr t"
    by (auto split: sum.splits)
  with Cons.prems(2,3) show ?case
    by (intro Cons.IH [of u]) auto
qed simp

end
