(* ===== verification/Go_Path.thy ===== *)
theory Go_Path
  imports Prelude
begin

text \<open>
  The functions of the Go standard library on slash-separated paths and separated strings that the
  program calls: \<^verbatim>\<open>strings.Split\<close> on a one-byte separator, and \<^verbatim>\<open>filepath.Clean\<close>, \<^verbatim>\<open>Base\<close>, \<^verbatim>\<open>Dir\<close>,
  \<^verbatim>\<open>Join\<close> and \<^verbatim>\<open>IsAbs\<close> on Unix. The main facts: cleaning is idempotent, and a string is a cleaned
  absolute path exactly when it is the root or a slash followed by ordinary components.
\<close>

section \<open>Splitting and joining\<close>

fun split_on :: "char \<Rightarrow> gostring \<Rightarrow> gostring list" where
  "split_on c [] = [[]]"
| "split_on c (x # xs) =
     (if x = c then [] # split_on c xs
      else (case split_on c xs of [] \<Rightarrow> [[x]] | y # ys \<Rightarrow> (x # y) # ys))"

fun join_with :: "char \<Rightarrow> gostring list \<Rightarrow> gostring" where
  "join_with c [] = []"
| "join_with c [x] = x"
| "join_with c (x # y # ys) = x @ c # join_with c (y # ys)"

lemma split_on_nonempty [simp]: "split_on c s \<noteq> []"
  by (induction s) (auto split: list.splits)

lemma join_split [simp]: "join_with c (split_on c s) = s"
proof (induction s)
  case (Cons x xs)
  then show ?case
    by (cases "split_on c xs"; cases "tl (split_on c xs)") auto
qed simp

lemma split_on_no_sep: "c \<notin> set s \<Longrightarrow> split_on c s = [s]"
  by (induction s) auto

lemma split_on_append_sep: "c \<notin> set a \<Longrightarrow> split_on c (a @ c # b) = a # split_on c b"
  by (induction a) auto

lemma split_join:
  "xs \<noteq> [] \<Longrightarrow> (\<And>x. x \<in> set xs \<Longrightarrow> c \<notin> set x) \<Longrightarrow> split_on c (join_with c xs) = xs"
  by (induction c xs rule: join_with.induct) (simp_all add: split_on_no_sep split_on_append_sep)

lemma split_on_parts: "x \<in> set (split_on c s) \<Longrightarrow> c \<notin> set x"
  by (induction s arbitrary: x) (auto split: list.splits if_splits)

section \<open>filepath\<close>

abbreviation slash :: char where
  "slash \<equiv> CHR ''/''"

definition filepath_IsAbs :: "gostring \<Rightarrow> bool" where
  "filepath_IsAbs p \<longleftrightarrow> (case p of [] \<Rightarrow> False | c # cs \<Rightarrow> c = slash)"

text \<open>
  The component stack of \<^verbatim>\<open>Clean\<close>, innermost first: a \<^verbatim>\<open>..\<close> removes the component before it; at
  the root it is dropped, and at the front of a relative path it is kept.
\<close>

definition clean_push :: "bool \<Rightarrow> gostring \<Rightarrow> gostring list \<Rightarrow> gostring list" where
  "clean_push rooted c acc =
     (if c = ''..''
      then (case acc of
              [] \<Rightarrow> (if rooted then [] else [''..''])
            | a # as \<Rightarrow> (if a = ''..'' then ''..'' # acc else as))
      else c # acc)"

fun clean_comps :: "bool \<Rightarrow> gostring list \<Rightarrow> gostring list \<Rightarrow> gostring list" where
  "clean_comps rooted acc [] = rev acc"
| "clean_comps rooted acc (c # cs) = clean_comps rooted (clean_push rooted c acc) cs"

definition path_comps :: "gostring \<Rightarrow> gostring list" where
  "path_comps p = filter (\<lambda>c. c \<noteq> '''' \<and> c \<noteq> ''.'') (split_on slash p)"

definition filepath_Clean :: "gostring \<Rightarrow> gostring" where
  "filepath_Clean p =
     (if p = '''' then ''.''
      else let rooted = filepath_IsAbs p;
               out = clean_comps rooted [] (path_comps p)
           in if rooted then slash # join_with slash out
              else if out = [] then ''.''
              else join_with slash out)"

definition filepath_Base :: "gostring \<Rightarrow> gostring" where
  "filepath_Base p =
     (if p = '''' then ''.''
      else let q = dropWhile (\<lambda>c. c = slash) (rev p)
           in if q = [] then ''/'' else rev (takeWhile (\<lambda>c. c \<noteq> slash) q))"

definition filepath_Dir :: "gostring \<Rightarrow> gostring" where
  "filepath_Dir p = filepath_Clean (rev (dropWhile (\<lambda>c. c \<noteq> slash) (rev p)))"

fun filepath_Join :: "gostring list \<Rightarrow> gostring" where
  "filepath_Join [] = ''''"
| "filepath_Join (e # es) =
     (if e = '''' then filepath_Join es else filepath_Clean (join_with slash (e # es)))"

section \<open>Cleaned absolute paths\<close>

text \<open>An ordinary component: not empty, without a slash, and neither \<^verbatim>\<open>.\<close> nor \<^verbatim>\<open>..\<close>.\<close>

definition ordinary :: "gostring \<Rightarrow> bool" where
  "ordinary c \<longleftrightarrow> c \<noteq> '''' \<and> slash \<notin> set c \<and> c \<noteq> ''.'' \<and> c \<noteq> ''..''"

definition abs_path :: "gostring list \<Rightarrow> gostring" where
  "abs_path cs = slash # join_with slash cs"

lemma abs_path_comps:
  "(\<And>c. c \<in> set cs \<Longrightarrow> ordinary c) \<Longrightarrow> path_comps (abs_path cs) = cs"
  by (cases "cs = []")
     (auto simp: path_comps_def abs_path_def ordinary_def split_join filter_id_conv)

lemma clean_comps_ordinary:
  "(\<And>c. c \<in> set cs \<Longrightarrow> c \<noteq> ''..'') \<Longrightarrow> clean_comps rooted acc cs = rev acc @ cs"
  by (induction cs arbitrary: acc) (simp_all add: clean_push_def)

lemma clean_push_subset: "set (clean_push rooted c acc) \<subseteq> insert c (set acc)"
  by (auto simp: clean_push_def split: list.split)

lemma clean_push_rooted: "''..'' \<notin> set acc \<Longrightarrow> ''..'' \<notin> set (clean_push True c acc)"
  by (cases acc) (auto simp: clean_push_def)

lemma clean_comps_rooted_no_dotdot:
  "''..'' \<notin> set acc \<Longrightarrow> ''..'' \<notin> set (clean_comps True acc cs)"
  by (induction cs arbitrary: acc) (simp_all add: clean_push_rooted del: set_simps)

lemma clean_comps_subset: "set (clean_comps rooted acc cs) \<subseteq> set acc \<union> set cs"
proof (induction cs arbitrary: acc)
  case (Cons c cs)
  show ?case
    using Cons.IH [of "clean_push rooted c acc"] clean_push_subset [of rooted c acc] by auto
qed simp

lemma path_comps_parts:
  "c \<in> set (path_comps p) \<Longrightarrow> c \<noteq> '''' \<and> c \<noteq> ''.'' \<and> slash \<notin> set c"
  by (auto simp: path_comps_def dest: split_on_parts)

lemma Clean_abs:
  assumes "filepath_IsAbs p"
  obtains cs where "filepath_Clean p = abs_path cs" and "\<And>c. c \<in> set cs \<Longrightarrow> ordinary c"
proof
  let ?cs = "clean_comps True [] (path_comps p)"
  show "filepath_Clean p = abs_path ?cs"
    using assms by (auto simp: filepath_Clean_def filepath_IsAbs_def abs_path_def Let_def)
  fix c assume c: "c \<in> set ?cs"
  with clean_comps_rooted_no_dotdot [of "[]" "path_comps p"] have "c \<noteq> ''..''"
    by auto
  with c clean_comps_subset [of True "[]" "path_comps p"] have "c \<in> set (path_comps p)"
    by auto
  with \<open>c \<noteq> ''..''\<close> show "ordinary c"
    by (auto simp: ordinary_def dest: path_comps_parts)
qed

lemma Clean_abs_path:
  assumes "\<And>c. c \<in> set cs \<Longrightarrow> ordinary c"
  shows "filepath_Clean (abs_path cs) = abs_path cs"
proof -
  have "path_comps (abs_path cs) = cs"
    using assms by (rule abs_path_comps)
  moreover have "clean_comps True [] cs = cs"
    using assms by (subst clean_comps_ordinary) (auto simp: ordinary_def)
  ultimately show ?thesis
    by (simp add: filepath_Clean_def filepath_IsAbs_def abs_path_def Let_def)
qed

lemma IsAbs_abs_path [simp]: "filepath_IsAbs (abs_path cs)"
  by (simp add: filepath_IsAbs_def abs_path_def)

lemma canonical_abs_iff:
  "filepath_IsAbs p \<and> filepath_Clean p = p \<longleftrightarrow> (\<exists>cs. p = abs_path cs \<and> (\<forall>c \<in> set cs. ordinary c))"
  by (metis Clean_abs Clean_abs_path IsAbs_abs_path)

lemma Clean_IsAbs: "filepath_IsAbs p \<Longrightarrow> filepath_IsAbs (filepath_Clean p)"
  by (metis Clean_abs IsAbs_abs_path)

lemma Clean_idem_abs: "filepath_IsAbs p \<Longrightarrow> filepath_Clean (filepath_Clean p) = filepath_Clean p"
  by (metis Clean_abs Clean_abs_path)

section \<open>Last component\<close>

lemma rev_join_snoc:
  "slash \<notin> set c \<Longrightarrow> cs \<noteq> [] \<Longrightarrow>
   join_with slash (cs @ [c]) = join_with slash cs @ slash # c"
  by (induction slash cs rule: join_with.induct) auto

lemma abs_path_snoc:
  "slash \<notin> set c \<Longrightarrow>
   abs_path (cs @ [c]) = (if cs = [] then [] else abs_path cs) @ slash # c"
  by (auto simp: abs_path_def rev_join_snoc)

lemma Base_append_slash:
  assumes "c \<noteq> []" "slash \<notin> set c"
  shows "filepath_Base (p @ slash # c) = c"
proof -
  have "dropWhile (\<lambda>x. x = slash) (rev (p @ slash # c)) = rev c @ slash # rev p"
    using assms by (cases "rev c") (auto simp: dropWhile_append2)
  moreover have "takeWhile (\<lambda>x. x \<noteq> slash) (rev c @ slash # rev p) = rev c"
    using assms(2) by (subst takeWhile_append2) auto
  ultimately show ?thesis
    using assms(1) by (simp add: filepath_Base_def Let_def)
qed

lemma Base_no_slash: "c \<noteq> [] \<Longrightarrow> slash \<notin> set c \<Longrightarrow> filepath_Base c = c"
proof -
  assume c: "c \<noteq> []" "slash \<notin> set c"
  then have "dropWhile (\<lambda>x. x = slash) (rev c) = rev c"
    by (cases "rev c") auto
  with c show ?thesis
    by (simp add: filepath_Base_def Let_def)
qed

lemma Base_abs_path:
  assumes "ordinary c"
  shows "filepath_Base (abs_path (cs @ [c])) = c"
  using assms Base_append_slash [of c]
  by (simp add: abs_path_snoc ordinary_def)

lemma Dir_append_slash:
  "slash \<notin> set c \<Longrightarrow> filepath_Dir (p @ slash # c) = filepath_Clean (p @ [slash])"
  by (simp add: filepath_Dir_def)

lemma split_on_snoc_sep: "split_on c (p @ [c]) = split_on c p @ [[]]"
  by (induction p) (auto split: list.splits)

lemma path_comps_snoc_slash: "path_comps (p @ [slash]) = path_comps p"
  by (simp add: path_comps_def split_on_snoc_sep)

lemma Dir_abs_path:
  assumes "\<And>x. x \<in> set cs \<Longrightarrow> ordinary x" "ordinary c"
  shows "filepath_Dir (abs_path (cs @ [c])) = abs_path cs"
proof (cases "cs = []")
  case True
  have "filepath_Dir ([] @ slash # c) = filepath_Clean ([] @ [slash])"
    using assms(2) by (intro Dir_append_slash) (simp add: ordinary_def)
  also have "\<dots> = abs_path []"
    using Clean_abs_path [of "[]"] by (simp add: abs_path_def)
  finally show ?thesis
    using True by (simp add: abs_path_def)
next
  case False
  have "filepath_Dir (abs_path (cs @ [c])) = filepath_Clean (abs_path cs @ [slash])"
    using assms(2) False by (simp add: abs_path_snoc ordinary_def Dir_append_slash)
  also have "\<dots> = filepath_Clean (abs_path cs)"
    using path_comps_snoc_slash [of "abs_path cs"]
    by (simp add: filepath_Clean_def filepath_IsAbs_def abs_path_def Let_def)
  also have "\<dots> = abs_path cs"
    using assms(1) by (rule Clean_abs_path)
  finally show ?thesis .
qed

lemma Base_root: "filepath_Base (abs_path []) = ''/''"
  by (simp add: filepath_Base_def abs_path_def Let_def)

lemma Dir_root: "filepath_Dir (abs_path []) = abs_path []"
  using Clean_abs_path [of "[]"] by (simp add: filepath_Dir_def abs_path_def)

lemma abs_path_inject:
  assumes "\<And>x. x \<in> set as \<Longrightarrow> ordinary x" "\<And>x. x \<in> set bs \<Longrightarrow> ordinary x"
  shows "abs_path as = abs_path bs \<longleftrightarrow> as = bs"
  using assms by (metis abs_path_comps)

declare filepath_Join.simps [simp del]

end
