(* ===== verification/Go_Text.thy ===== *)
theory Go_Text
  imports Go_Path
begin

text \<open>
  The functions of the packages strings, strconv, encoding/hex and bufio that the program calls,
  on byte strings. White space is Unicode white space in UTF-8: the ASCII bytes and the encodings
  of U+0085, U+00A0, U+1680, U+2000 to U+200A, U+2028, U+2029, U+202F, U+205F and U+3000. A leading
  byte of UTF-8 never occurs inside the encoding of another character, so a search for these
  encodings byte by byte finds exactly the white-space characters.
\<close>

section \<open>Prefixes\<close>

fun strings_HasPrefix :: "gostring \<Rightarrow> gostring \<Rightarrow> bool" where
  "strings_HasPrefix s [] = True"
| "strings_HasPrefix [] (p # ps) = False"
| "strings_HasPrefix (c # cs) (p # ps) = (c = p \<and> strings_HasPrefix cs ps)"

lemma HasPrefix_iff: "strings_HasPrefix s p \<longleftrightarrow> (\<exists>r. s = p @ r)"
  by (induction s p rule: strings_HasPrefix.induct) auto

definition strings_TrimPrefix :: "gostring \<Rightarrow> gostring \<Rightarrow> gostring" where
  "strings_TrimPrefix s p = (if strings_HasPrefix s p then drop (length p) s else s)"

text \<open>\<^verbatim>\<open>strings.Cut\<close> on a one-byte separator: the parts around its first occurrence.\<close>

definition strings_Cut :: "gostring \<Rightarrow> char \<Rightarrow> (gostring \<times> gostring) option" where
  "strings_Cut s c =
     (case dropWhile (\<lambda>x. x \<noteq> c) s of
        [] \<Rightarrow> None
      | _ # r \<Rightarrow> Some (takeWhile (\<lambda>x. x \<noteq> c) s, r))"

lemma Cut_Some_iff: "strings_Cut s c = Some (a, b) \<longleftrightarrow> s = a @ c # b \<and> c \<notin> set a"
proof
  assume h: "strings_Cut s c = Some (a, b)"
  then obtain d where d: "dropWhile (\<lambda>x. x \<noteq> c) s = d # b" and a: "a = takeWhile (\<lambda>x. x \<noteq> c) s"
    by (auto simp: strings_Cut_def split: list.splits)
  from d have "d = c"
    by (metis (mono_tags, lifting) dropWhile_eq_Cons_conv)
  with d a show "s = a @ c # b \<and> c \<notin> set a"
    by (metis (mono_tags, lifting) set_takeWhileD takeWhile_dropWhile_id)
next
  assume "s = a @ c # b \<and> c \<notin> set a"
  then show "strings_Cut s c = Some (a, b)"
    by (simp add: strings_Cut_def)
qed

section \<open>White space\<close>

definition ascii_spaces :: "char list" where
  "ascii_spaces = [CHR 0x09, CHR 0x0A, CHR 0x0B, CHR 0x0C, CHR 0x0D, CHR 0x20]"

definition wide_spaces :: "char list list" where
  "wide_spaces =
     [[CHR 0xC2, CHR 0x85], [CHR 0xC2, CHR 0xA0], [CHR 0xE1, CHR 0x9A, CHR 0x80]]
     @ map (\<lambda>c. [CHR 0xE2, CHR 0x80, c])
         [CHR 0x80, CHR 0x81, CHR 0x82, CHR 0x83, CHR 0x84, CHR 0x85, CHR 0x86, CHR 0x87,
          CHR 0x88, CHR 0x89, CHR 0x8A, CHR 0xA8, CHR 0xA9, CHR 0xAF]
     @ [[CHR 0xE2, CHR 0x81, CHR 0x9F], [CHR 0xE3, CHR 0x80, CHR 0x80]]"

text \<open>The number of bytes of the white-space character a string starts with, zero if none.\<close>

definition space_width :: "gostring \<Rightarrow> nat" where
  "space_width s =
     (case s of
        [] \<Rightarrow> 0
      | c # cs \<Rightarrow>
          (if c \<in> set ascii_spaces then 1
           else if c \<in> {CHR 0xC2, CHR 0xE1, CHR 0xE2, CHR 0xE3}
           then (case find (strings_HasPrefix s) wide_spaces of
                   None \<Rightarrow> 0
                 | Some w \<Rightarrow> length w)
           else 0))"

text \<open>
  \<^verbatim>\<open>strings.Fields\<close>: the maximal runs of bytes that are no white space. The second argument is the
  run read so far, last byte first; the third counts the bytes left of a white-space character.
\<close>

fun fields_from :: "gostring \<Rightarrow> gostring \<Rightarrow> nat \<Rightarrow> gostring list" where
  "fields_from [] run k = (if run = [] then [] else [rev run])"
| "fields_from (c # cs) run (Suc k) = fields_from cs run k"
| "fields_from (c # cs) run 0 =
     (let w = space_width (c # cs)
      in if w = 0 then fields_from cs (c # run) 0
         else if run = [] then fields_from cs [] (w - 1)
         else rev run # fields_from cs [] (w - 1))"

definition strings_Fields :: "gostring \<Rightarrow> gostring list" where
  "strings_Fields s = fields_from s [] 0"

fun trim_left :: "gostring \<Rightarrow> nat \<Rightarrow> gostring" where
  "trim_left [] k = []"
| "trim_left (c # cs) (Suc k) = trim_left cs k"
| "trim_left (c # cs) 0 =
     (let w = space_width (c # cs) in if w = 0 then c # cs else trim_left cs (w - 1))"

text \<open>Trailing white space: the same search on the reversed string with reversed encodings.\<close>

definition rev_space_width :: "gostring \<Rightarrow> nat" where
  "rev_space_width r =
     (case r of
        [] \<Rightarrow> 0
      | c # cs \<Rightarrow>
          (if c \<in> set ascii_spaces then 1
           else (case find (\<lambda>w. strings_HasPrefix r (rev w)) wide_spaces of
                   None \<Rightarrow> 0
                 | Some w \<Rightarrow> length w)))"

fun trim_right_rev :: "gostring \<Rightarrow> nat \<Rightarrow> gostring" where
  "trim_right_rev [] k = []"
| "trim_right_rev (c # cs) (Suc k) = trim_right_rev cs k"
| "trim_right_rev (c # cs) 0 =
     (let w = rev_space_width (c # cs) in if w = 0 then c # cs else trim_right_rev cs (w - 1))"

definition strings_TrimSpace :: "gostring \<Rightarrow> gostring" where
  "strings_TrimSpace s = rev (trim_right_rev (rev (trim_left s 0)) 0)"

section \<open>Numbers\<close>

definition digit_value :: "char \<Rightarrow> int option" where
  "digit_value c =
     (if CHR ''0'' \<le> c \<and> c \<le> CHR ''9'' then Some (of_char c - 48) else None)"

fun digits_value :: "int \<Rightarrow> gostring \<Rightarrow> int option" where
  "digits_value acc [] = Some acc"
| "digits_value acc (c # cs) =
     (case digit_value c of None \<Rightarrow> None | Some d \<Rightarrow> digits_value (10 * acc + d) cs)"

text \<open>
  \<^verbatim>\<open>strconv.ParseUint(s, 10, bits)\<close>, with \<open>limit\<close> for \<open>2 ^ bits\<close>; every error is \<open>None\<close>, since the
  program tests only for one.
\<close>

definition strconv_ParseUint10 :: "int \<Rightarrow> gostring \<Rightarrow> int option" where
  "strconv_ParseUint10 limit s =
     (if s = '''' then None
      else (case digits_value 0 s of
              None \<Rightarrow> None
            | Some n \<Rightarrow> (if n < limit then Some n else None)))"

text \<open>\<^verbatim>\<open>strconv.ParseInt(s, 10, 64)\<close>: an optional sign, then digits, within the range of int64.\<close>

definition strconv_ParseInt10 :: "gostring \<Rightarrow> int option" where
  "strconv_ParseInt10 s =
     (case s of
        [] \<Rightarrow> None
      | c # cs \<Rightarrow>
          (let neg = (c = CHR ''-'');
               ds = (if c = CHR ''+'' \<or> c = CHR ''-'' then cs else s)
           in case strconv_ParseUint10 18446744073709551616 ds of
                None \<Rightarrow> None
              | Some n \<Rightarrow>
                  (if \<not> neg \<and> 9223372036854775808 \<le> n then None
                   else if neg \<and> 9223372036854775808 < n then None
                   else Some (if neg then - n else n))))"

text \<open>The decimal rendering of \<^verbatim>\<open>%d\<close>.\<close>

function pos_digits :: "int \<Rightarrow> gostring" where
  "pos_digits n =
     (if n < 10 then [char_of (48 + n)] else pos_digits (n div 10) @ [char_of (48 + n mod 10)])"
  by pat_completeness auto
termination
  by (relation "measure nat") auto

declare pos_digits.simps [simp del]

definition int_digits :: "int \<Rightarrow> gostring" where
  "int_digits i = (if i < 0 then CHR ''-'' # pos_digits (- i) else pos_digits i)"

section \<open>Hexadecimal\<close>

definition hex_value :: "char \<Rightarrow> int option" where
  "hex_value c =
     (if CHR ''0'' \<le> c \<and> c \<le> CHR ''9'' then Some (of_char c - 48)
      else if CHR ''a'' \<le> c \<and> c \<le> CHR ''f'' then Some (of_char c - 87)
      else if CHR ''A'' \<le> c \<and> c \<le> CHR ''F'' then Some (of_char c - 55)
      else None)"

text \<open>\<^verbatim>\<open>hex.DecodeString\<close>: an odd length or a byte that is no digit is an error.\<close>

fun hex_DecodeString :: "gostring \<Rightarrow> bytes option" where
  "hex_DecodeString [] = Some []"
| "hex_DecodeString [c] = None"
| "hex_DecodeString (c # d # s) =
     (case (hex_value c, hex_value d) of
        (Some a, Some b) \<Rightarrow> map_option (Cons (char_of (16 * a + b))) (hex_DecodeString s)
      | _ \<Rightarrow> None)"

definition hex_digit :: "int \<Rightarrow> char" where
  "hex_digit n = (if n < 10 then char_of (48 + n) else char_of (87 + n))"

fun hex_EncodeToString :: "bytes \<Rightarrow> gostring" where
  "hex_EncodeToString [] = []"
| "hex_EncodeToString (b # bs) =
     hex_digit (of_char b div 16) # hex_digit (of_char b mod 16) # hex_EncodeToString bs"

text \<open>\<^verbatim>\<open>strings.ToLower\<close> on ASCII strings, the only ones it is applied to.\<close>

definition ascii_lower :: "char \<Rightarrow> char" where
  "ascii_lower c = (if CHR ''A'' \<le> c \<and> c \<le> CHR ''Z'' then char_of (of_char c + 32 :: int) else c)"

definition strings_ToLower :: "gostring \<Rightarrow> gostring" where
  "strings_ToLower s = map ascii_lower s"

section \<open>Facts about bytes, decided by enumeration\<close>

text \<open>
  The type of bytes is finite, so a fact about one byte is proved by running its two sides on all
  256 of them.
\<close>

definition lower_hex :: "char \<Rightarrow> bool" where
  "lower_hex c \<longleftrightarrow> (CHR ''0'' \<le> c \<and> c \<le> CHR ''9'') \<or> (CHR ''a'' \<le> c \<and> c \<le> CHR ''f'')"

lemma all_char_hex:
  "\<forall>c. (hex_value c \<noteq> None \<and> ascii_lower c = c) = lower_hex c"
  "\<forall>b. hex_value (hex_digit (of_char b div 16)) = Some (of_char b div 16)"
  "\<forall>b. hex_value (hex_digit (of_char b mod 16)) = Some (of_char b mod 16)"
  "\<forall>b. lower_hex (hex_digit (of_char b div 16)) \<and> lower_hex (hex_digit (of_char b mod 16))"
  by code_simp+

lemma lower_hex_iff: "lower_hex c \<longleftrightarrow> (hex_value c \<noteq> None \<and> ascii_lower c = c)"
  using all_char_hex(1) by simp

section \<open>Facts about hexadecimal strings\<close>

lemma hex_Decode_length: "hex_DecodeString s = Some bs \<Longrightarrow> length s = 2 * length bs"
  by (induction s arbitrary: bs rule: hex_DecodeString.induct) (auto split: option.splits)

lemma hex_Decode_defined:
  "hex_DecodeString s \<noteq> None \<longleftrightarrow> even (length s) \<and> (\<forall>c \<in> set s. hex_value c \<noteq> None)"
  by (induction s rule: hex_DecodeString.induct) (auto split: option.splits)

lemma hex_Decode_Encode: "hex_DecodeString (hex_EncodeToString bs) = Some bs"
proof (induction bs)
  case (Cons b bs)
  have "16 * (of_char b div 16) + of_char b mod 16 = (of_char b :: int)"
    by simp
  with Cons show ?case
    by (simp add: all_char_hex(2,3) [rule_format])
qed simp

lemma hex_Encode_inject: "hex_EncodeToString a = hex_EncodeToString b \<longleftrightarrow> a = b"
  by (metis hex_Decode_Encode option.inject)

lemma length_hex_Encode [simp]: "length (hex_EncodeToString bs) = 2 * length bs"
  by (induction bs) simp_all

lemma hex_Encode_lower: "c \<in> set (hex_EncodeToString bs) \<Longrightarrow> lower_hex c"
  by (induction bs) (auto simp: all_char_hex(4) [rule_format])

text \<open>
  The condition on digests that the policy, image and diskforge packages each spell out: a digest is
  accepted exactly when it has 64 characters, all lower-case hexadecimal digits.
\<close>

lemma digest_condition_iff:
  "(\<exists>bs. hex_DecodeString s = Some bs \<and> length bs = 32) \<and> length s = 64 \<and> s = strings_ToLower s
   \<longleftrightarrow> length s = 64 \<and> (\<forall>c \<in> set s. lower_hex c)"
proof -
  have "s = strings_ToLower s \<longleftrightarrow> (\<forall>c \<in> set s. ascii_lower c = c)"
    unfolding strings_ToLower_def by (induction s) auto
  moreover have "length s = 64 \<Longrightarrow>
      (\<exists>bs. hex_DecodeString s = Some bs \<and> length bs = 32) \<longleftrightarrow> hex_DecodeString s \<noteq> None"
    using hex_Decode_length by fastforce
  moreover have "length s = 64 \<Longrightarrow>
      hex_DecodeString s \<noteq> None \<longleftrightarrow> (\<forall>c \<in> set s. hex_value c \<noteq> None)"
    by (subst hex_Decode_defined) simp
  ultimately show ?thesis
    unfolding lower_hex_iff by blast
qed

lemma hex_Encode_digest:
  "length bs = 32 \<Longrightarrow>
   length (hex_EncodeToString bs) = 64 \<and> (\<forall>c \<in> set (hex_EncodeToString bs). lower_hex c)"
  using hex_Encode_lower by auto

section \<open>Facts about decimal strings\<close>

definition decimal_digit :: "char \<Rightarrow> bool" where
  "decimal_digit c \<longleftrightarrow> CHR ''0'' \<le> c \<and> c \<le> CHR ''9''"

lemma digit_char:
  assumes "0 \<le> d" "d < (10 :: int)"
  shows "decimal_digit (char_of (48 + d))" and "digit_value (char_of (48 + d)) = Some d"
proof -
  have "\<forall>d \<in> set [0, 1, 2, 3, 4, 5, 6, 7, 8, 9 :: int].
      decimal_digit (char_of (48 + d)) \<and> digit_value (char_of (48 + d)) = Some d"
    by code_simp
  moreover have "d \<in> set [0, 1, 2, 3, 4, 5, 6, 7, 8, 9]"
    using assms by simp presburger
  ultimately show "decimal_digit (char_of (48 + d))" and "digit_value (char_of (48 + d)) = Some d"
    by blast+
qed

lemma digits_value_append:
  "digits_value acc (s @ t) = (case digits_value acc s of None \<Rightarrow> None | Some n \<Rightarrow> digits_value n t)"
  by (induction s arbitrary: acc) (auto split: option.splits)

lemma pos_digits_value: "0 \<le> n \<Longrightarrow> digits_value 0 (pos_digits n) = Some n"
proof (induction n rule: pos_digits.induct)
  case (1 n)
  show ?case
  proof (cases "n < 10")
    case True
    with "1.prems" show ?thesis
      by (simp add: pos_digits.simps [of n] digit_char(2))
  next
    case False
    with "1" have "digits_value 0 (pos_digits (n div 10)) = Some (n div 10)"
      by simp
    moreover have "digit_value (char_of (48 + n mod 10)) = Some (n mod 10)"
      by (rule digit_char(2)) simp_all
    ultimately show ?thesis
      using False by (simp add: pos_digits.simps [of n] digits_value_append)
  qed
qed

lemma pos_digits_decimal: "0 \<le> n \<Longrightarrow> c \<in> set (pos_digits n) \<Longrightarrow> decimal_digit c"
proof (induction n rule: pos_digits.induct)
  case (1 n)
  show ?case
  proof (cases "n < 10")
    case True
    with "1.prems" show ?thesis
      by (simp add: pos_digits.simps [of n] digit_char(1))
  next
    case False
    have "decimal_digit (char_of (48 + n mod 10))"
      by (rule digit_char(1)) simp_all
    with False "1" show ?thesis
      by (auto simp: pos_digits.simps [of n])
  qed
qed

lemma int_digits_inject: "0 \<le> a \<Longrightarrow> 0 \<le> b \<Longrightarrow> int_digits a = int_digits b \<longleftrightarrow> a = b"
  by (metis int_digits_def linorder_not_less option.inject pos_digits_value)

lemma not_decimal_newline: "\<not> decimal_digit (CHR 0x0A)"
  by (simp add: decimal_digit_def)

lemma newline_not_in_int_digits: "0 \<le> n \<Longrightarrow> CHR 0x0A \<notin> set (int_digits n)"
  using pos_digits_decimal not_decimal_newline by (auto simp: int_digits_def)

text \<open>Printing and parsing a non-negative int64 value are inverse to each other.\<close>

lemma pos_digits_nonempty: "pos_digits n \<noteq> []"
  by (subst pos_digits.simps) simp

lemma ParseInt_int_digits:
  assumes "0 \<le> n" "n \<le> max_int64"
  shows "strconv_ParseInt10 (int_digits n) = Some n"
proof -
  obtain c cs where ds: "pos_digits n = c # cs"
    using pos_digits_nonempty [of n] by (cases "pos_digits n") auto
  then have "decimal_digit c"
    using pos_digits_decimal [OF assms(1)] by auto
  then have "c \<noteq> CHR ''+''" "c \<noteq> CHR ''-''"
    by (auto simp: decimal_digit_def)
  with ds assms pos_digits_value [OF assms(1)] show ?thesis
    by (simp add: strconv_ParseInt10_def strconv_ParseUint10_def int_digits_def max_int64_def)
qed

lemma digits_value_nonneg: "0 \<le> acc \<Longrightarrow> digits_value acc s = Some n \<Longrightarrow> 0 \<le> n"
proof (induction s arbitrary: acc)
  case (Cons c cs)
  from Cons.prems(2) obtain d where d: "digit_value c = Some d" and
    r: "digits_value (10 * acc + d) cs = Some n"
    by (auto split: option.splits)
  have "\<forall>c. case digit_value c of None \<Rightarrow> True | Some d \<Rightarrow> 0 \<le> d"
    by code_simp
  with d have "0 \<le> d"
    by (metis option.simps(5))
  with Cons.prems(1) have "0 \<le> 10 * acc + d"
    by simp
  then show ?case
    using r by (rule Cons.IH)
qed simp

lemma ParseUint_bounds: "strconv_ParseUint10 limit s = Some n \<Longrightarrow> 0 \<le> n \<and> n < limit"
  unfolding strconv_ParseUint10_def
  by (drule sym) (auto split: option.splits if_splits intro: digits_value_nonneg [of 0 s])

lemma ParseInt_in_int64: "strconv_ParseInt10 s = Some n \<Longrightarrow> in_int64 n"
  by (auto simp: strconv_ParseInt10_def in_int64_def Let_def
      split: list.splits option.splits if_splits dest!: ParseUint_bounds)

end
