(* ===== verification/Naming.thy ===== *)
theory Naming
  imports Go_Error Go_Text
begin

text \<open>
  internal/naming/naming.go: the portable identifiers of release artifacts, and the label check that
  the confirmation token applies to a device name. The lemmas give each validator's grammar and show
  that an artifact name determines the tag, platform and extension it was built from.
\<close>

section \<open>Validators\<close>

definition isLowerAlphanumeric :: "char \<Rightarrow> bool" where
  "isLowerAlphanumeric c \<longleftrightarrow>
     (CHR ''a'' \<le> c \<and> c \<le> CHR ''z'') \<or> (CHR ''0'' \<le> c \<and> c \<le> CHR ''9'')"

definition validNumericIdentifier :: "gostring \<Rightarrow> bool" where
  "validNumericIdentifier value =
     (if value = '''' \<or> (length value > 1 \<and> value ! 0 = CHR ''0'') then False
      else list_all (\<lambda>c. \<not> (c < CHR ''0'' \<or> c > CHR ''9'')) value)"

definition ValidSemverTag :: "gostring \<Rightarrow> bool" where
  "ValidSemverTag value =
     (if length value < length ''v0.0.0'' \<or> value ! 0 \<noteq> CHR ''v'' then False
      else let components = split_on (CHR ''.'') (drop 1 value)
           in if length components \<noteq> 3 then False
              else list_all validNumericIdentifier components)"

definition ValidLabel :: "gostring \<Rightarrow> bool" where
  "ValidLabel value =
     (if value = '''' \<or> length value > 63 then False
      else if \<not> isLowerAlphanumeric (value ! 0)
           \<or> \<not> isLowerAlphanumeric (value ! (length value - 1)) then False
      else list_all (\<lambda>i. isLowerAlphanumeric (value ! i) \<or> value ! i = CHR ''-'')
             [1..<length value - 1])"

text \<open>The loop of \<^verbatim>\<open>validExtension\<close>, with \<^verbatim>\<open>previousWasSeparator\<close> as its first argument.\<close>

fun extension_loop :: "bool \<Rightarrow> gostring \<Rightarrow> bool" where
  "extension_loop previousWasSeparator [] = (\<not> previousWasSeparator)"
| "extension_loop previousWasSeparator (c # cs) =
     (if isLowerAlphanumeric c then extension_loop False cs
      else if (c \<noteq> CHR ''.'' \<and> c \<noteq> CHR ''-'') \<or> previousWasSeparator then False
      else extension_loop True cs)"

definition validExtension :: "gostring \<Rightarrow> bool" where
  "validExtension value =
     (if value = '''' \<or> length value > 63 then False else extension_loop True value)"

definition ArtifactName :: "gostring \<Rightarrow> gostring \<Rightarrow> gostring \<Rightarrow> gostring \<Rightarrow> gostring res" where
  "ArtifactName version goos goarch extension =
     (if \<not> ValidSemverTag version
      then Inl (Errorf ''%w: stable release tag %q'' [FQuote version] (Sentinel ErrInvalidArtifactName))
      else if \<not> ValidLabel goos
      then Inl (Errorf ''%w: operating system label %q'' [FQuote goos] (Sentinel ErrInvalidArtifactName))
      else if \<not> ValidLabel goarch
      then Inl (Errorf ''%w: architecture label %q'' [FQuote goarch] (Sentinel ErrInvalidArtifactName))
      else if \<not> validExtension extension
      then Inl (Errorf ''%w: artifact extension %q'' [FQuote extension] (Sentinel ErrInvalidArtifactName))
      else let name = ''diskforge_'' @ strings_TrimPrefix version ''v'' @ ''_'' @ goos @ ''_''
                        @ goarch @ ''.'' @ extension
           in if length name > 255
              then Inl (Errorf ''%w: exceeds %d bytes'' [FInt 255] (Sentinel ErrInvalidArtifactName))
              else Inr name)"

section \<open>Grammars\<close>

lemma label_middle:
  assumes "2 \<le> length v"
  shows "list_all (\<lambda>i. P (v ! i)) [1..<length v - 1] \<longleftrightarrow> (\<forall>c \<in> set (butlast (tl v)). P c)"
proof -
  have eq: "butlast (tl v) = map (\<lambda>i. v ! i) [1..<length v - 1]"
    by (rule nth_equalityI) (auto simp: nth_butlast nth_tl)
  show ?thesis
    unfolding eq by (auto simp: list_all_iff)
qed

lemma butlast_tl_split:
  "2 \<le> length v \<Longrightarrow> v = hd v # butlast (tl v) @ [last v]"
  by (cases v; cases "tl v" rule: rev_cases) auto

text \<open>
  The grammar of a label: one to 63 lower-case letters, digits and hyphens, the first and the last
  of them no hyphen.
\<close>

lemma ValidLabel_iff:
  "ValidLabel v \<longleftrightarrow>
     v \<noteq> '''' \<and> length v \<le> 63 \<and> hd v \<noteq> CHR ''-'' \<and> last v \<noteq> CHR ''-''
     \<and> (\<forall>c \<in> set v. isLowerAlphanumeric c \<or> c = CHR ''-'')"
proof (cases "2 \<le> length v")
  case True
  then have split: "v = hd v # butlast (tl v) @ [last v]"
    by (rule butlast_tl_split)
  have set: "set v = insert (hd v) (insert (last v) (set (butlast (tl v))))"
    by (subst split) auto
  have hyphen: "\<not> isLowerAlphanumeric (CHR ''-'')"
    by (simp add: isLowerAlphanumeric_def)
  have ends: "v ! 0 = hd v" "v ! (length v - 1) = last v" "v \<noteq> ''''"
    using True by (cases v; simp add: last_conv_nth)+
  have "ValidLabel v \<longleftrightarrow> length v \<le> 63 \<and> isLowerAlphanumeric (hd v) \<and> isLowerAlphanumeric (last v)
      \<and> (\<forall>c \<in> set (butlast (tl v)). isLowerAlphanumeric c \<or> c = CHR ''-'')"
    unfolding ValidLabel_def ends(1,2)
      label_middle [OF True, where P = "\<lambda>c. isLowerAlphanumeric c \<or> c = CHR ''-''"]
    using ends(3) by auto
  moreover have "isLowerAlphanumeric c \<longleftrightarrow> c \<noteq> CHR ''-'' \<and> (isLowerAlphanumeric c \<or> c = CHR ''-'')"
    for c
    using hyphen by (cases "c = CHR ''-''") simp_all
  ultimately show ?thesis
    using ends(3) by (simp add: set) blast
next
  case False
  then consider "v = ''''" | c where "v = [c]"
    by (cases v; cases "tl v") auto
  then show ?thesis
    by cases (auto simp: ValidLabel_def isLowerAlphanumeric_def)
qed

lemma ValidLabel_chars: "ValidLabel v \<Longrightarrow> c \<in> set v \<Longrightarrow> isLowerAlphanumeric c \<or> c = CHR ''-''"
  by (simp add: ValidLabel_iff)

lemma ValidLabel_ordinary: "ValidLabel v \<Longrightarrow> ordinary v"
proof -
  assume v: "ValidLabel v"
  then have "CHR ''/'' \<notin> set v" "CHR ''.'' \<notin> set v"
    by (auto dest: ValidLabel_chars simp: isLowerAlphanumeric_def)
  with v show ?thesis
    by (auto simp: ordinary_def ValidLabel_iff)
qed

lemma validNumericIdentifier_iff:
  "validNumericIdentifier v \<longleftrightarrow>
     v = ''0'' \<or> (v \<noteq> '''' \<and> hd v \<noteq> CHR ''0'' \<and> (\<forall>c \<in> set v. decimal_digit c))"
proof (cases v)
  case (Cons c cs)
  then show ?thesis
    by (cases cs) (auto simp: validNumericIdentifier_def list_all_iff decimal_digit_def not_less)
qed (simp add: validNumericIdentifier_def)

text \<open>
  The grammar of a stable tag, as docs/contracts/naming.md gives it: the letter v and three numeric
  identifiers without leading zeros, separated by full stops.
\<close>

lemma validNumericIdentifier_chars: "validNumericIdentifier v \<Longrightarrow> c \<in> set v \<Longrightarrow> decimal_digit c"
  by (auto simp: validNumericIdentifier_iff decimal_digit_def)

lemma ValidSemverTag_iff:
  "ValidSemverTag v \<longleftrightarrow>
     (\<exists>a b c. v = ''v'' @ a @ ''.'' @ b @ ''.'' @ c \<and> validNumericIdentifier a
        \<and> validNumericIdentifier b \<and> validNumericIdentifier c)"
proof
  assume h: "ValidSemverTag v"
  then have v: "v = CHR ''v'' # drop 1 v"
    by (cases v) (auto simp: ValidSemverTag_def split: if_splits)
  from h have "length (split_on (CHR ''.'') (drop 1 v)) = 3"
    and all: "list_all validNumericIdentifier (split_on (CHR ''.'') (drop 1 v))"
    by (auto simp: ValidSemverTag_def Let_def split: if_splits)
  then obtain a b c where abc: "split_on (CHR ''.'') (drop 1 v) = [a, b, c]"
    by (auto simp: length_Suc_conv numeral_3_eq_3)
  then have "drop 1 v = a @ ''.'' @ b @ ''.'' @ c"
    using join_split [of "CHR ''.''" "drop 1 v"] by simp
  with v have "v = ''v'' @ a @ ''.'' @ b @ ''.'' @ c"
    by simp
  moreover have "validNumericIdentifier a \<and> validNumericIdentifier b \<and> validNumericIdentifier c"
    using all abc by simp
  ultimately show "\<exists>a b c. v = ''v'' @ a @ ''.'' @ b @ ''.'' @ c \<and> validNumericIdentifier a
      \<and> validNumericIdentifier b \<and> validNumericIdentifier c"
    by blast
next
  assume "\<exists>a b c. v = ''v'' @ a @ ''.'' @ b @ ''.'' @ c \<and> validNumericIdentifier a
      \<and> validNumericIdentifier b \<and> validNumericIdentifier c"
  then obtain a b c where v: "v = ''v'' @ a @ ''.'' @ b @ ''.'' @ c"
    and ids: "validNumericIdentifier a" "validNumericIdentifier b" "validNumericIdentifier c"
    by blast
  have nodot: "CHR ''.'' \<notin> set a" "CHR ''.'' \<notin> set b" "CHR ''.'' \<notin> set c"
    using ids by (auto dest: validNumericIdentifier_chars simp: decimal_digit_def)
  then have "split_on (CHR ''.'') (drop 1 v) = [a, b, c]"
    using v by (simp add: split_on_append_sep split_on_no_sep)
  moreover have "a \<noteq> []" "b \<noteq> []" "c \<noteq> []"
    using ids by (auto simp: validNumericIdentifier_def)
  then have "6 \<le> length v"
    using v by (cases a; cases b; cases c) auto
  ultimately show "ValidSemverTag v"
    using v ids by (simp add: ValidSemverTag_def)
qed

text \<open>
  The grammar of an extension: reading a hyphen as a full stop, it is a sequence of non-empty
  alphanumeric words separated by full stops.
\<close>

definition sep_dot :: "gostring \<Rightarrow> gostring" where
  "sep_dot v = map (\<lambda>c. if c = CHR ''-'' then CHR ''.'' else c) v"

lemma extension_loop_iff:
  "extension_loop p v \<longleftrightarrow>
     (\<forall>w \<in> set (tl (split_on (CHR ''.'') (sep_dot v))). w \<noteq> [])
     \<and> (p \<longrightarrow> hd (split_on (CHR ''.'') (sep_dot v)) \<noteq> [])
     \<and> (\<forall>c \<in> set v. isLowerAlphanumeric c \<or> c = CHR ''.'' \<or> c = CHR ''-'')"
proof (induction v arbitrary: p)
  case Nil
  then show ?case by (simp add: sep_dot_def)
next
  case (Cons c v)
  obtain w ws where ws: "split_on (CHR ''.'') (sep_dot v) = w # ws"
    by (cases "split_on (CHR ''.'') (sep_dot v)") auto
  have not_sep: "\<not> isLowerAlphanumeric (CHR ''.'')" "\<not> isLowerAlphanumeric (CHR ''-'')"
    by (simp_all add: isLowerAlphanumeric_def)
  show ?case
  proof (cases "c = CHR ''.'' \<or> c = CHR ''-''")
    case True
    then have "split_on (CHR ''.'') (sep_dot (c # v)) = [] # w # ws"
      using ws by (auto simp: sep_dot_def)
    with True not_sep Cons.IH [of True] ws show ?thesis
      by auto
  next
    case False
    then have "split_on (CHR ''.'') (sep_dot (c # v)) = (c # w) # ws"
      using ws by (auto simp: sep_dot_def)
    with False Cons.IH [of False] ws show ?thesis
      by auto
  qed
qed

lemma validExtension_iff:
  "validExtension v \<longleftrightarrow>
     length v \<le> 63 \<and> (\<forall>w \<in> set (split_on (CHR ''.'') (sep_dot v)). w \<noteq> [])
     \<and> (\<forall>c \<in> set v. isLowerAlphanumeric c \<or> c = CHR ''.'' \<or> c = CHR ''-'')"
proof -
  have "split_on (CHR ''.'') (sep_dot v) \<noteq> []"
    by simp
  then show ?thesis
    by (cases v; cases "split_on (CHR ''.'') (sep_dot v)")
       (auto simp: validExtension_def extension_loop_iff sep_dot_def)
qed

section \<open>Artifact names\<close>

lemma ArtifactName_Inr:
  assumes "ArtifactName version goos goarch ext = Inr name"
  obtains v where "version = CHR ''v'' # v" "CHR ''_'' \<notin> set v"
    "ValidLabel goos" "ValidLabel goarch" "validExtension ext"
    "name = ''diskforge_'' @ v @ CHR ''_'' # goos @ CHR ''_'' # goarch @ CHR ''.'' # ext"
    "length name \<le> 255"
proof -
  from assms have tag: "ValidSemverTag version"
    and rest: "ValidLabel goos" "ValidLabel goarch" "validExtension ext"
    and name: "name = ''diskforge_'' @ strings_TrimPrefix version ''v'' @ ''_'' @ goos @ ''_''
                        @ goarch @ ''.'' @ ext" "length name \<le> 255"
    by (auto simp: ArtifactName_def Let_def split: if_splits)
  from tag obtain a b c where v: "version = ''v'' @ a @ ''.'' @ b @ ''.'' @ c"
    and ids: "validNumericIdentifier a" "validNumericIdentifier b" "validNumericIdentifier c"
    by (auto simp: ValidSemverTag_iff)
  have "CHR ''_'' \<notin> set (a @ ''.'' @ b @ ''.'' @ c)"
    using ids by (auto dest: validNumericIdentifier_chars simp: decimal_digit_def)
  moreover have "strings_TrimPrefix version ''v'' = a @ ''.'' @ b @ ''.'' @ c"
    by (simp add: v strings_TrimPrefix_def)
  ultimately show thesis
    using v rest name that [of "a @ ''.'' @ b @ ''.'' @ c"] by simp
qed

lemma ValidLabel_no_separator: "ValidLabel v \<Longrightarrow> CHR ''_'' \<notin> set v \<and> CHR ''.'' \<notin> set v"
  by (auto dest: ValidLabel_chars simp: isLowerAlphanumeric_def)

text \<open>
  C38. A release archive name determines what it was built from: if \<^verbatim>\<open>ArtifactName\<close> accepts two
  requests and returns the same name for both, the tags, operating systems, architectures and
  extensions are the same.
\<close>

theorem ArtifactName_injective:
  assumes "ArtifactName v1 os1 arch1 ext1 = Inr name"
    and "ArtifactName v2 os2 arch2 ext2 = Inr name"
  shows "v1 = v2 \<and> os1 = os2 \<and> arch1 = arch2 \<and> ext1 = ext2"
proof -
  obtain a where a: "v1 = CHR ''v'' # a" "CHR ''_'' \<notin> set a" "ValidLabel os1" "ValidLabel arch1"
    "name = ''diskforge_'' @ a @ CHR ''_'' # os1 @ CHR ''_'' # arch1 @ CHR ''.'' # ext1"
    using assms(1) by (rule ArtifactName_Inr)
  obtain b where b: "v2 = CHR ''v'' # b" "CHR ''_'' \<notin> set b" "ValidLabel os2" "ValidLabel arch2"
    "name = ''diskforge_'' @ b @ CHR ''_'' # os2 @ CHR ''_'' # arch2 @ CHR ''.'' # ext2"
    using assms(2) by (rule ArtifactName_Inr)
  from a(5) b(5) have
    "a @ CHR ''_'' # os1 @ CHR ''_'' # arch1 @ CHR ''.'' # ext1
     = b @ CHR ''_'' # os2 @ CHR ''_'' # arch2 @ CHR ''.'' # ext2"
    by simp
  with a b show ?thesis
    by (simp add: append_sep_inject ValidLabel_no_separator)
qed

theorem ArtifactName_injective_witness:
  "\<exists>name. ArtifactName ''v0.1.0'' ''linux'' ''amd64'' ''tar.gz'' = Inr name
     \<and> ArtifactName ''v0.1.0'' ''linux'' ''arm64'' ''tar.gz'' \<noteq> Inr name"
proof (intro exI conjI notI)
  show amd: "ArtifactName ''v0.1.0'' ''linux'' ''amd64'' ''tar.gz'' = Inr ''diskforge_0.1.0_linux_amd64.tar.gz''"
    by code_simp
  assume "ArtifactName ''v0.1.0'' ''linux'' ''arm64'' ''tar.gz'' = Inr ''diskforge_0.1.0_linux_amd64.tar.gz''"
  from ArtifactName_injective [OF amd this] show False
    by simp
qed

end
