(* ===== verification/Policy.thy ===== *)
theory Policy
  imports Naming Sha256 "HOL-Library.AList"
begin

text \<open>
  internal/policy: the transport records of model.go, the confirmation token of confirmation.go and
  the gates of inspect.go. A Go map from strings to booleans is an association list whose keys are
  distinct (it is only built by \<open>AList.update\<close>, see \<open>mapFromSlice\<close> and the observer); the set of
  device names is a list used for membership only. The lemmas characterise acceptance by the gates,
  each refusal, and what a token does and does not depend on.
\<close>

section \<open>model.go\<close>

type_synonym mode = gostring

definition ModeRescue :: mode where
  "ModeRescue = ''rescue''"

definition ModeLive :: mode where
  "ModeLive = ''live''"

lemma modes_distinct [simp]: "ModeRescue \<noteq> ModeLive" "ModeLive \<noteq> ModeRescue"
  by (simp_all add: ModeRescue_def ModeLive_def)

record target_identity =
  t_CanonicalPath :: gostring
  t_Serial :: gostring
  t_WWN :: gostring
  t_SizeBytes :: int
  t_KName :: gostring
  t_IsPartition :: bool
  t_Descendants :: "gostring list"

record image_identity =
  i_Path :: gostring
  i_SHA256 :: gostring
  i_Format :: gostring
  i_CompressedBytes :: int
  i_UncompressedBytes :: int

type_synonym device_map = "(gostring \<times> bool) list"

record host_observation =
  h_EUID :: int
  h_RootDisk :: gostring
  h_MountedDevices :: device_map
  h_SwapDevices :: device_map
  h_SourceFilesystem :: gostring
  h_SourceBackingDevices :: "gostring list"
  h_MemoryAvailableBytes :: int
  h_SysRqTriggerAvailable :: bool

record inspection =
  n_Mode :: mode
  n_Target :: target_identity
  n_Image :: image_identity
  n_ConfirmationToken :: gostring

section \<open>confirmation.go\<close>

definition validIdentityText :: "gostring \<Rightarrow> bool" where
  "validIdentityText value =
     (if length value > 256 then False
      else list_all (\<lambda>c. \<not> (c < CHR 0x20 \<or> c > CHR 0x7E)) value)"

abbreviation newline :: char where
  "newline \<equiv> CHR 0x0A"

text \<open>The record hashed into a token: \<^verbatim>\<open>"v1\n%s\n%s\n%s\n%d\n%d\n%s\n"\<close>.\<close>

definition confirmation_record :: "target_identity \<Rightarrow> image_identity \<Rightarrow> gostring" where
  "confirmation_record target img =
     ''v1'' @ newline # t_CanonicalPath target @ newline # t_Serial target
       @ newline # t_WWN target @ newline # int_digits (t_SizeBytes target)
       @ newline # int_digits (i_UncompressedBytes img)
       @ newline # i_SHA256 img @ [newline]"

definition ConfirmationToken :: "target_identity \<Rightarrow> image_identity \<Rightarrow> gostring res" where
  "ConfirmationToken target img =
     (if \<not> filepath_IsAbs (t_CanonicalPath target)
         \<or> filepath_Clean (t_CanonicalPath target) \<noteq> t_CanonicalPath target
         \<or> \<not> strings_HasPrefix (t_CanonicalPath target) ''/dev/''
         \<or> t_SizeBytes target \<le> 0
         \<or> \<not> ValidLabel (filepath_Base (t_CanonicalPath target))
         \<or> \<not> validIdentityText (t_Serial target)
         \<or> \<not> validIdentityText (t_WWN target)
      then Inl (PolicyGate GateInvalidTarget
                  ''target must be a canonical absolute /dev path with positive capacity'' [])
      else if i_UncompressedBytes img \<le> 0
      then Inl (PolicyGate GateInvalidImageSize ''uncompressed image size must be positive'' [])
      else if (case hex_DecodeString (i_SHA256 img) of
                 None \<Rightarrow> True
               | Some decoded \<Rightarrow>
                   length decoded \<noteq> 32 \<or> length (i_SHA256 img) \<noteq> 64
                   \<or> i_SHA256 img \<noteq> strings_ToLower (i_SHA256 img))
      then Inl (PolicyGate GateInvalidDigest
                  ''SHA-256 digest must contain exactly 64 lowercase hexadecimal characters'' [])
      else let binding = sha256 (confirmation_record target img)
           in Inr (''confirm-v1-'' @ filepath_Base (t_CanonicalPath target) @ ''-''
                   @ take 12 (i_SHA256 img) @ ''-'' @ hex_EncodeToString (take 8 binding)))"

section \<open>inspect.go\<close>

definition MinimumLiveAvailableBytes :: int where
  "MinimumLiveAvailableBytes = 512 * 1024 * 1024"

definition tmpfsFilesystem :: gostring where
  "tmpfsFilesystem = ''tmpfs''"

definition refuse :: "gate_code \<Rightarrow> gostring \<Rightarrow> farg list \<Rightarrow> goerr" where
  "refuse code format arguments = PolicyGate code format arguments"

definition deviceNames :: "target_identity \<Rightarrow> gostring list" where
  "deviceNames target =
     fold (\<lambda>value names. if value \<noteq> '''' then List.insert (filepath_Base value) names else names)
       (t_Descendants target @ [t_KName target, t_CanonicalPath target]) []"

text \<open>\<open>Some d\<close> is the Go result \<^verbatim>\<open>(d, true)\<close>, \<open>None\<close> is \<^verbatim>\<open>("", false)\<close>.\<close>

definition intersects :: "device_map \<Rightarrow> gostring list \<Rightarrow> gostring option" where
  "intersects devices candidates =
     (let activeDevices = sort (map fst (filter snd devices))
      in find (\<lambda>device. filepath_Base device \<in> set candidates) activeDevices)"

definition mapFromSlice :: "gostring list \<Rightarrow> device_map" where
  "mapFromSlice values = fold (\<lambda>value result. AList.update value True result) values []"

definition inspectMode ::
  "mode \<Rightarrow> target_identity \<Rightarrow> host_observation \<Rightarrow> gostring list \<Rightarrow> unit res" where
  "inspectMode mode target host targetDevices =
     (if mode = ModeRescue
      then (case intersects (h_MountedDevices host) targetDevices of
              Some mounted \<Rightarrow>
                Inl (refuse GateTargetMounted ''target descendant %s is mounted'' [FStr mounted])
            | None \<Rightarrow>
                (case intersects (h_SwapDevices host) targetDevices of
                   Some swap \<Rightarrow>
                     Inl (refuse GateTargetSwap ''target descendant %s is active swap'' [FStr swap])
                 | None \<Rightarrow> Inr ()))
      else if filepath_Clean (h_RootDisk host) \<noteq> t_CanonicalPath target
      then Inl (refuse GateLiveTargetNotRoot ''live target must be the root disk'' [])
      else if h_SourceFilesystem host \<noteq> tmpfsFilesystem
      then Inl (refuse GateLiveSourceNotTmpfs ''live source must reside on tmpfs'' [])
      else if h_MemoryAvailableBytes host < MinimumLiveAvailableBytes
      then Inl (refuse GateLiveMemory ''live mode requires at least %d available bytes''
                  [FInt MinimumLiveAvailableBytes])
      else if \<not> h_SysRqTriggerAvailable host
      then Inl (refuse GateLiveSysRq ''live mode requires a writable SysRq trigger'' [])
      else Inr ())"

definition Inspect ::
  "mode \<Rightarrow> target_identity \<Rightarrow> image_identity \<Rightarrow> host_observation \<Rightarrow> inspection res" where
  "Inspect mode target img host =
     (if mode \<noteq> ModeRescue \<and> mode \<noteq> ModeLive
      then Inl (refuse GateInvalidMode ''unsupported write mode %q'' [FQuote mode])
      else if h_EUID host \<noteq> 0
      then Inl (refuse GateNotRoot ''whole-disk inspection requires root'' [])
      else if t_IsPartition target
      then Inl (refuse GateTargetPartition ''target is a partition'' [])
      else if t_SizeBytes target < i_UncompressedBytes img
      then Inl (refuse GateTargetTooSmall ''target has %d bytes but image expands to %d bytes''
                  [FInt (t_SizeBytes target), FInt (i_UncompressedBytes img)])
      else case ConfirmationToken target img of
             Inl err \<Rightarrow> Inl err
           | Inr token \<Rightarrow>
               (let targetDevices = deviceNames target
                in case intersects (mapFromSlice (h_SourceBackingDevices host)) targetDevices of
                     Some sourceDevice \<Rightarrow>
                       Inl (refuse GateSourceOnTarget ''source is backed by target descendant %s''
                              [FStr sourceDevice])
                   | None \<Rightarrow>
                       (case inspectMode mode target host targetDevices of
                          Inl err \<Rightarrow> Inl err
                        | Inr _ \<Rightarrow>
                            Inr \<lparr>n_Mode = mode, n_Target = target, n_Image = img,
                                 n_ConfirmationToken = token\<rparr>)))"

section \<open>What a token accepts\<close>

definition digest_ok :: "gostring \<Rightarrow> bool" where
  "digest_ok s \<longleftrightarrow> length s = 64 \<and> (\<forall>c \<in> set s. lower_hex c)"

lemma digest_case_iff:
  "(case hex_DecodeString s of
      None \<Rightarrow> True
    | Some decoded \<Rightarrow> length decoded \<noteq> 32 \<or> length s \<noteq> 64 \<or> s \<noteq> strings_ToLower s)
   \<longleftrightarrow> \<not> digest_ok s"
  unfolding digest_ok_def digest_condition_iff [symmetric] by (auto split: option.split)

definition token_target_ok :: "target_identity \<Rightarrow> bool" where
  "token_target_ok t \<longleftrightarrow>
     (\<exists>cs. t_CanonicalPath t = abs_path (''dev'' # cs) \<and> cs \<noteq> [] \<and> (\<forall>c \<in> set cs. ordinary c)
        \<and> ValidLabel (last cs))
     \<and> 0 < t_SizeBytes t \<and> validIdentityText (t_Serial t) \<and> validIdentityText (t_WWN t)"

lemma HasPrefix_dev_abs_path:
  assumes "\<forall>c \<in> set cs. ordinary c"
  shows "strings_HasPrefix (abs_path cs) ''/dev/'' \<longleftrightarrow> (\<exists>c ds. cs = ''dev'' # c # ds)"
proof
  assume "strings_HasPrefix (abs_path cs) ''/dev/''"
  then obtain r where r: "abs_path cs = ''/dev/'' @ r"
    by (auto simp: HasPrefix_iff)
  then have eq: "join_with slash cs = ''dev'' @ slash # r"
    by (simp add: abs_path_def)
  then have "cs \<noteq> []"
    by auto
  with assms have "cs = split_on slash (join_with slash cs)"
    by (subst split_join) (auto simp: ordinary_def)
  also have "\<dots> = ''dev'' # split_on slash r"
    unfolding eq by (subst split_on_append_sep) simp_all
  finally show "\<exists>c ds. cs = ''dev'' # c # ds"
    by (metis list.exhaust split_on_nonempty)
next
  assume "\<exists>c ds. cs = ''dev'' # c # ds"
  then show "strings_HasPrefix (abs_path cs) ''/dev/''"
    by (auto simp: abs_path_def HasPrefix_iff)
qed

lemma Base_canonical:
  assumes "cs \<noteq> []" "\<forall>c \<in> set cs. ordinary c"
  shows "filepath_Base (abs_path cs) = last cs"
  using assms Base_abs_path [of "last cs" "butlast cs"] by simp

lemma ordinary_dev [simp]: "ordinary ''dev''"
  by (simp add: ordinary_def)

lemma token_target_condition:
  "(filepath_IsAbs (t_CanonicalPath t) \<and> filepath_Clean (t_CanonicalPath t) = t_CanonicalPath t
    \<and> strings_HasPrefix (t_CanonicalPath t) ''/dev/'' \<and> 0 < t_SizeBytes t
    \<and> ValidLabel (filepath_Base (t_CanonicalPath t))
    \<and> validIdentityText (t_Serial t) \<and> validIdentityText (t_WWN t)) \<longleftrightarrow> token_target_ok t"
  (is "?l \<longleftrightarrow> ?r")
proof
  assume l: ?l
  then obtain cs where cs: "t_CanonicalPath t = abs_path cs" "\<forall>c \<in> set cs. ordinary c"
    using canonical_abs_iff [of "t_CanonicalPath t"] by blast
  with l obtain c ds where "cs = ''dev'' # c # ds"
    using HasPrefix_dev_abs_path by auto
  moreover from this cs have "filepath_Base (t_CanonicalPath t) = last (c # ds)"
    using Base_canonical [of cs] by simp
  ultimately show ?r
    using l cs unfolding token_target_ok_def by (intro conjI exI [of _ "c # ds"]) auto
next
  assume r: ?r
  then obtain cs where cs: "t_CanonicalPath t = abs_path (''dev'' # cs)" "cs \<noteq> []"
      "\<forall>c \<in> set (''dev'' # cs). ordinary c" "ValidLabel (last cs)"
    unfolding token_target_ok_def by auto
  then have "filepath_IsAbs (t_CanonicalPath t)" "filepath_Clean (t_CanonicalPath t) = t_CanonicalPath t"
    using canonical_abs_iff [of "t_CanonicalPath t"] by blast+
  moreover have "strings_HasPrefix (t_CanonicalPath t) ''/dev/''"
    using cs HasPrefix_dev_abs_path [of "''dev'' # cs"] by (cases cs) auto
  moreover have "filepath_Base (t_CanonicalPath t) = last cs"
    using cs Base_canonical [of "''dev'' # cs"] by simp
  ultimately show ?l
    using r cs unfolding token_target_ok_def by simp
qed

definition token_text :: "target_identity \<Rightarrow> image_identity \<Rightarrow> gostring" where
  "token_text t i =
     ''confirm-v1-'' @ filepath_Base (t_CanonicalPath t) @ ''-'' @ take 12 (i_SHA256 i) @ ''-''
       @ hex_EncodeToString (take 8 (sha256 (confirmation_record t i)))"

lemma ConfirmationToken_eq:
  "ConfirmationToken t i =
     (if \<not> token_target_ok t
      then Inl (PolicyGate GateInvalidTarget
                  ''target must be a canonical absolute /dev path with positive capacity'' [])
      else if i_UncompressedBytes i \<le> 0
      then Inl (PolicyGate GateInvalidImageSize ''uncompressed image size must be positive'' [])
      else if \<not> digest_ok (i_SHA256 i)
      then Inl (PolicyGate GateInvalidDigest
                  ''SHA-256 digest must contain exactly 64 lowercase hexadecimal characters'' [])
      else Inr (token_text t i))"
proof -
  have "(\<not> filepath_IsAbs (t_CanonicalPath t)
         \<or> filepath_Clean (t_CanonicalPath t) \<noteq> t_CanonicalPath t
         \<or> \<not> strings_HasPrefix (t_CanonicalPath t) ''/dev/''
         \<or> t_SizeBytes t \<le> 0
         \<or> \<not> ValidLabel (filepath_Base (t_CanonicalPath t))
         \<or> \<not> validIdentityText (t_Serial t)
         \<or> \<not> validIdentityText (t_WWN t)) \<longleftrightarrow> \<not> token_target_ok t"
    unfolding token_target_condition [symmetric] by (simp add: not_less)
  then show ?thesis
    unfolding ConfirmationToken_def digest_case_iff by (simp add: token_text_def Let_def)
qed

lemma ConfirmationToken_Inr:
  "ConfirmationToken t i = Inr tok \<longleftrightarrow>
     token_target_ok t \<and> 0 < i_UncompressedBytes i \<and> digest_ok (i_SHA256 i) \<and> tok = token_text t i"
  by (auto simp: ConfirmationToken_eq)

section \<open>What a token binds\<close>

lemma identity_text_no_newline: "validIdentityText s \<Longrightarrow> newline \<notin> set s"
  by (auto simp: validIdentityText_def list_all_iff split: if_splits)

lemma digest_ok_no_newline: "digest_ok s \<Longrightarrow> newline \<notin> set s"
  by (auto simp: digest_ok_def lower_hex_def)

text \<open>
  The record is read back from its end, so a newline inside a path component cannot make two
  identities share a record.
\<close>

lemma confirmation_record_inject:
  assumes "token_target_ok t1" "0 < i_UncompressedBytes i1" "digest_ok (i_SHA256 i1)"
    and "token_target_ok t2" "0 < i_UncompressedBytes i2" "digest_ok (i_SHA256 i2)"
    and "confirmation_record t1 i1 = confirmation_record t2 i2"
  shows "t_CanonicalPath t1 = t_CanonicalPath t2 \<and> t_Serial t1 = t_Serial t2 \<and> t_WWN t1 = t_WWN t2
    \<and> t_SizeBytes t1 = t_SizeBytes t2 \<and> i_UncompressedBytes i1 = i_UncompressedBytes i2
    \<and> i_SHA256 i1 = i_SHA256 i2"
proof -
  let ?f = "snoc_field newline"
  have folded: "confirmation_record t i =
    ?f (?f (?f (?f (?f (?f (?f ''v1'' (t_CanonicalPath t)) (t_Serial t)) (t_WWN t))
      (int_digits (t_SizeBytes t))) (int_digits (i_UncompressedBytes i))) (i_SHA256 i)) []" for t i
    by (simp add: confirmation_record_def snoc_field_def)
  have fields: "newline \<notin> set (t_Serial t)" "newline \<notin> set (t_WWN t)"
    "newline \<notin> set (int_digits (t_SizeBytes t))" "0 < t_SizeBytes t"
    if "token_target_ok t" for t
    using that by (auto simp: token_target_ok_def identity_text_no_newline newline_not_in_int_digits)
  show ?thesis
    using assms(7) fields [OF assms(1)] fields [OF assms(4)] assms
    unfolding folded
    by (simp add: snoc_field_inject digest_ok_no_newline newline_not_in_int_digits int_digits_inject)
       (simp add: snoc_field_def)
qed

lemma token_text_parts:
  assumes "digest_ok (i_SHA256 i1)" "digest_ok (i_SHA256 i2)" "token_text t1 i1 = token_text t2 i2"
  shows "filepath_Base (t_CanonicalPath t1) = filepath_Base (t_CanonicalPath t2)"
    and "take 12 (i_SHA256 i1) = take 12 (i_SHA256 i2)"
    and "take 8 (sha256 (confirmation_record t1 i1)) = take 8 (sha256 (confirmation_record t2 i2))"
  using assms by (auto simp: token_text_def digest_ok_def hex_Encode_inject append_eq_append_conv)

text \<open>
  C11. A confirmation token binds consent to the target and the image. If \<^verbatim>\<open>ConfirmationToken\<close> returns
  the same token for two pairs of a target and an image, then the device names and the first twelve
  digits of the image digests agree, and either the canonical paths, serials, WWNs, capacities,
  expanded sizes and complete digests all agree, or the two (different) records are a collision of
  the first eight bytes of SHA-256.
\<close>

theorem token_binds_identity:
  assumes "ConfirmationToken t1 i1 = Inr tok" and "ConfirmationToken t2 i2 = Inr tok"
  shows "filepath_Base (t_CanonicalPath t1) = filepath_Base (t_CanonicalPath t2)
    \<and> take 12 (i_SHA256 i1) = take 12 (i_SHA256 i2)
    \<and> ((t_CanonicalPath t1 = t_CanonicalPath t2 \<and> t_Serial t1 = t_Serial t2 \<and> t_WWN t1 = t_WWN t2
         \<and> t_SizeBytes t1 = t_SizeBytes t2 \<and> i_UncompressedBytes i1 = i_UncompressedBytes i2
         \<and> i_SHA256 i1 = i_SHA256 i2)
       \<or> (confirmation_record t1 i1 \<noteq> confirmation_record t2 i2
          \<and> take 8 (sha256 (confirmation_record t1 i1)) = take 8 (sha256 (confirmation_record t2 i2))))"
proof -
  have ok: "token_target_ok t1" "0 < i_UncompressedBytes i1" "digest_ok (i_SHA256 i1)"
    "token_target_ok t2" "0 < i_UncompressedBytes i2" "digest_ok (i_SHA256 i2)"
    "token_text t1 i1 = token_text t2 i2"
    using assms by (simp_all add: ConfirmationToken_Inr)
  note parts = token_text_parts [OF ok(3,6,7)]
  show ?thesis
    using confirmation_record_inject [OF ok(1-6)] parts by blast
qed

text \<open>A concrete target and image on which the witnesses of this theory run.\<close>

definition example_target :: target_identity where
  "example_target =
     \<lparr>t_CanonicalPath = ''/dev/vdb'', t_Serial = ''S1'', t_WWN = ''W1'', t_SizeBytes = 1073741824,
      t_KName = ''vdb'', t_IsPartition = False, t_Descendants = [''vdb'', ''vdb1'']\<rparr>"

definition example_image :: image_identity where
  "example_image =
     \<lparr>i_Path = ''/run/image.raw'',
      i_SHA256 = ''0123456789abcdef0123456789abcdef0123456789abcdef0123456789abcdef'',
      i_Format = '''', i_CompressedBytes = 4096, i_UncompressedBytes = 4096\<rparr>"

definition example_host :: host_observation where
  "example_host =
     \<lparr>h_EUID = 0, h_RootDisk = ''/dev/vda'', h_MountedDevices = [(''vda1'', True), (''vda'', True)],
      h_SwapDevices = [(''vda2'', True), (''vda'', True)], h_SourceFilesystem = ''tmpfs'',
      h_SourceBackingDevices = [], h_MemoryAvailableBytes = 1073741824,
      h_SysRqTriggerAvailable = True\<rparr>"

lemma example_token:
  "ConfirmationToken example_target example_image = Inr (token_text example_target example_image)"
proof -
  have "\<exists>cs. t_CanonicalPath example_target = abs_path (''dev'' # cs) \<and> cs \<noteq> []
      \<and> (\<forall>c \<in> set cs. ordinary c) \<and> ValidLabel (last cs)"
    by (rule exI [of _ "[''vdb'']"]) code_simp
  moreover have "0 < t_SizeBytes example_target" "validIdentityText (t_Serial example_target)"
      "validIdentityText (t_WWN example_target)" "0 < i_UncompressedBytes example_image"
      "digest_ok (i_SHA256 example_image)"
    by code_simp+
  ultimately show ?thesis
    unfolding ConfirmationToken_Inr token_target_ok_def by blast
qed

theorem token_binds_identity_witness:
  "ConfirmationToken example_target example_image = Inr (token_text example_target example_image)
   \<and> ConfirmationToken (example_target\<lparr>t_KName := ''''\<rparr>) example_image
     = Inr (token_text example_target example_image)
   \<and> t_Serial example_target = t_Serial (example_target\<lparr>t_KName := ''''\<rparr>)"
proof -
  have other: "ConfirmationToken (example_target\<lparr>t_KName := ''''\<rparr>) example_image
      = Inr (token_text example_target example_image)"
    using example_token
    by (simp add: ConfirmationToken_Inr token_target_ok_def token_text_def confirmation_record_def)
  show ?thesis
    using token_binds_identity [OF example_token other] example_token other
    by (auto simp: confirmation_record_def)
qed

text \<open>
  The token depends on nothing else: the kernel name, the partition flag and the descendants of
  the target, and the path, format and compressed size of the image can be replaced without changing
  the result of \<^verbatim>\<open>ConfirmationToken\<close>, and the policy mode is no argument of it.
\<close>

lemma token_ignores_other_fields:
  "ConfirmationToken
     (t\<lparr>t_KName := k, t_IsPartition := p, t_Descendants := ds\<rparr>)
     (i\<lparr>i_Path := q, i_Format := f, i_CompressedBytes := c\<rparr>)
   = ConfirmationToken t i"
  by (simp add: ConfirmationToken_eq token_target_ok_def token_text_def confirmation_record_def)

section \<open>Device sets\<close>

lemma set_deviceNames:
  "set (deviceNames t) =
     filepath_Base ` {v \<in> set (t_Descendants t) \<union> {t_KName t, t_CanonicalPath t}. v \<noteq> ''''}"
proof -
  let ?f = "\<lambda>value names. if value \<noteq> '''' then List.insert (filepath_Base value) names else names"
  have "set (fold ?f vs acc) = set acc \<union> filepath_Base ` {v \<in> set vs. v \<noteq> ''''}" for vs acc
    by (induction vs arbitrary: acc) auto
  then show ?thesis
    unfolding deviceNames_def by auto
qed

lemma find_sorted:
  "sorted xs \<Longrightarrow>
   find P xs = (if \<exists>x \<in> set xs. P x then Some (Min {x \<in> set xs. P x}) else None)"
proof (induction xs)
  case (Cons x xs)
  show ?case
  proof (cases "P x")
    case True
    with Cons.prems have "Min {y \<in> set (x # xs). P y} = x"
      by (intro Min_eqI) auto
    with True show ?thesis by simp
  next
    case False
    then have "{y \<in> set (x # xs). P y} = {y \<in> set xs. P y}"
      by auto
    with False Cons show ?thesis by simp
  qed
qed simp

definition active :: "device_map \<Rightarrow> gostring set" where
  "active devices = {d. (d, True) \<in> set devices}"

text \<open>
  The answer depends only on which devices are active, never on the order in which the map is read:
  it is the least active device that names a candidate.
\<close>

lemma intersects_eq:
  "intersects devices candidates =
     (let hits = {d \<in> active devices. filepath_Base d \<in> set candidates}
      in if hits = {} then None else Some (Min hits))"
proof -
  have "set (sort (map fst (filter snd devices))) = active devices"
    by (force simp: active_def image_iff)
  then show ?thesis
    by (auto simp: intersects_def find_sorted Let_def)
qed

lemma intersects_None_iff:
  "intersects devices candidates = None \<longleftrightarrow> (\<forall>d \<in> active devices. filepath_Base d \<notin> set candidates)"
  by (auto simp: intersects_eq Let_def)

lemma finite_active [simp]: "finite (active devices)"
  by (rule finite_subset [of _ "fst ` set devices"]) (force simp: active_def)+

lemma intersects_SomeD:
  assumes "intersects devices candidates = Some d"
  shows "d \<in> active devices" "filepath_Base d \<in> set candidates"
proof -
  let ?hits = "{d \<in> active devices. filepath_Base d \<in> set candidates}"
  from assms have "?hits \<noteq> {}" "d = Min ?hits"
    by (auto simp: intersects_eq Let_def split: if_splits)
  moreover have "finite ?hits"
    by simp
  ultimately have "d \<in> ?hits"
    using Min_in by blast
  then show "d \<in> active devices" "filepath_Base d \<in> set candidates"
    by auto
qed

lemma intersects_Some_owned:
  "intersects devices candidates = Some d \<Longrightarrow>
   d \<in> active devices \<and> filepath_Base d \<in> set candidates"
  using intersects_SomeD by blast

lemma active_update: "active (AList.update k True m) = insert k (active m)"
proof (induction m)
  case (Cons p m)
  then show ?case
    by (cases p) (auto simp: active_def)
qed (simp add: active_def)

lemma active_mapFromSlice [simp]: "active (mapFromSlice vs) = set vs"
proof -
  have "active (fold (\<lambda>v m. AList.update v True m) vs acc) = active acc \<union> set vs" for acc
    by (induction vs arbitrary: acc) (auto simp: active_update)
  then show ?thesis
    by (simp add: mapFromSlice_def active_def)
qed

section \<open>The gates\<close>

text \<open>A device the target owns: the target itself or one of its descendants, by base name.\<close>

definition owned_by :: "target_identity \<Rightarrow> gostring \<Rightarrow> bool" where
  "owned_by t d \<longleftrightarrow> filepath_Base d \<in> set (deviceNames t)"

definition rescue_ok :: "target_identity \<Rightarrow> host_observation \<Rightarrow> bool" where
  "rescue_ok t h \<longleftrightarrow>
     (\<forall>d \<in> active (h_MountedDevices h) \<union> active (h_SwapDevices h). \<not> owned_by t d)"

definition live_ok :: "target_identity \<Rightarrow> host_observation \<Rightarrow> bool" where
  "live_ok t h \<longleftrightarrow>
     filepath_Clean (h_RootDisk h) = t_CanonicalPath t \<and> h_SourceFilesystem h = ''tmpfs''
     \<and> 536870912 \<le> h_MemoryAvailableBytes h \<and> h_SysRqTriggerAvailable h"

lemma inspectMode_Inr:
  "inspectMode mode t h (deviceNames t) = Inr u \<longleftrightarrow>
     (if mode = ModeRescue then rescue_ok t h else live_ok t h)"
proof (cases "mode = ModeRescue")
  case True
  then have "inspectMode mode t h (deviceNames t) = Inr u \<longleftrightarrow>
      intersects (h_MountedDevices h) (deviceNames t) = None
      \<and> intersects (h_SwapDevices h) (deviceNames t) = None"
    by (auto simp: inspectMode_def split: option.splits)
  with True show ?thesis
    by (simp add: rescue_ok_def owned_by_def intersects_None_iff ball_Un)
next
  case False
  then show ?thesis
    by (simp add: inspectMode_def live_ok_def tmpfsFilesystem_def MinimumLiveAvailableBytes_def not_less)
qed

lemma Inspect_Inr_iff:
  "Inspect mode t i h = Inr n \<longleftrightarrow>
     (mode = ModeRescue \<or> mode = ModeLive) \<and> h_EUID h = 0 \<and> \<not> t_IsPartition t
     \<and> i_UncompressedBytes i \<le> t_SizeBytes t
     \<and> ConfirmationToken t i = Inr (n_ConfirmationToken n)
     \<and> (\<forall>d \<in> set (h_SourceBackingDevices h). \<not> owned_by t d)
     \<and> (mode = ModeRescue \<longrightarrow> rescue_ok t h) \<and> (mode = ModeLive \<longrightarrow> live_ok t h)
     \<and> n = \<lparr>n_Mode = mode, n_Target = t, n_Image = i, n_ConfirmationToken = n_ConfirmationToken n\<rparr>"
proof (cases "(mode = ModeRescue \<or> mode = ModeLive) \<and> h_EUID h = 0 \<and> \<not> t_IsPartition t
    \<and> i_UncompressedBytes i \<le> t_SizeBytes t")
  case False
  then show ?thesis
    by (auto simp: Inspect_def)
next
  case True
  let ?backing = "intersects (mapFromSlice (h_SourceBackingDevices h)) (deviceNames t)"
  have "Inspect mode t i h = Inr n \<longleftrightarrow>
    (\<exists>tok. ConfirmationToken t i = Inr tok \<and> ?backing = None
      \<and> inspectMode mode t h (deviceNames t) = Inr ()
      \<and> n = \<lparr>n_Mode = mode, n_Target = t, n_Image = i, n_ConfirmationToken = tok\<rparr>)"
    using True
    by (auto simp: Inspect_def Let_def not_less split: sum.splits option.splits)
  also have "?backing = None \<longleftrightarrow> (\<forall>d \<in> set (h_SourceBackingDevices h). \<not> owned_by t d)"
    by (simp add: intersects_None_iff owned_by_def)
  finally show ?thesis
    using True by (auto simp: inspectMode_Inr)
qed

lemma Inspect_accepted:
  assumes "Inspect mode t i h = Inr n"
  shows "n_Mode n = mode" "n_Target n = t" "n_Image n = i" "n_ConfirmationToken n = token_text t i"
    and "token_target_ok t" "digest_ok (i_SHA256 i)" "0 < i_UncompressedBytes i"
    and "i_UncompressedBytes i \<le> t_SizeBytes t" "\<not> t_IsPartition t" "h_EUID h = 0"
    and "\<forall>d \<in> set (h_SourceBackingDevices h). \<not> owned_by t d"
    and "mode = ModeRescue \<Longrightarrow> rescue_ok t h" "mode = ModeLive \<Longrightarrow> live_ok t h"
    and "mode = ModeRescue \<or> mode = ModeLive"
proof -
  note acc = assms [unfolded Inspect_Inr_iff]
  have n: "n = \<lparr>n_Mode = mode, n_Target = t, n_Image = i, n_ConfirmationToken = n_ConfirmationToken n\<rparr>"
    using acc by blast
  show "n_Mode n = mode" "n_Target n = t" "n_Image n = i"
    by (subst n, simp)+
  show "n_ConfirmationToken n = token_text t i" "token_target_ok t" "digest_ok (i_SHA256 i)"
      "0 < i_UncompressedBytes i"
    using acc ConfirmationToken_Inr by blast+
  show "i_UncompressedBytes i \<le> t_SizeBytes t" "\<not> t_IsPartition t" "h_EUID h = 0"
    "\<forall>d \<in> set (h_SourceBackingDevices h). \<not> owned_by t d"
    "mode = ModeRescue \<Longrightarrow> rescue_ok t h" "mode = ModeLive \<Longrightarrow> live_ok t h"
    "mode = ModeRescue \<or> mode = ModeLive"
    using acc by blast+
qed

lemma example_inspect:
  "Inspect ModeRescue example_target example_image example_host
   = Inr \<lparr>n_Mode = ModeRescue, n_Target = example_target, n_Image = example_image,
          n_ConfirmationToken = token_text example_target example_image\<rparr>"
proof -
  have names: "set (deviceNames example_target) = {''vdb'', ''vdb1''}"
    by code_simp
  have "filepath_Base ''vda1'' = ''vda1''" "filepath_Base ''vda2'' = ''vda2''"
      "filepath_Base ''vda'' = ''vda''"
    by code_simp+
  then have "rescue_ok example_target example_host"
    by (auto simp: rescue_ok_def owned_by_def names example_host_def active_def)
  then show ?thesis
    unfolding Inspect_Inr_iff
    by (simp add: example_token)
       (simp add: example_host_def example_target_def example_image_def)
qed

text \<open>
  C10. What \<^verbatim>\<open>policy.Inspect\<close> accepts, exactly: a known mode, root privileges, a whole disk at least as
  large as the expanded image, a valid identity, a source that is not backed by the target, and the
  gates of the mode. The decision returned carries the inputs and the token of the target and image.
\<close>

theorem Inspect_accepts_iff:
  "Inspect mode t i h = Inr n \<longleftrightarrow>
     (mode = ModeRescue \<or> mode = ModeLive) \<and> h_EUID h = 0 \<and> \<not> t_IsPartition t
     \<and> i_UncompressedBytes i \<le> t_SizeBytes t \<and> 0 < i_UncompressedBytes i
     \<and> token_target_ok t \<and> digest_ok (i_SHA256 i)
     \<and> (\<forall>d \<in> set (h_SourceBackingDevices h). \<not> owned_by t d)
     \<and> (mode = ModeRescue \<longrightarrow> rescue_ok t h) \<and> (mode = ModeLive \<longrightarrow> live_ok t h)
     \<and> n = \<lparr>n_Mode = mode, n_Target = t, n_Image = i, n_ConfirmationToken = token_text t i\<rparr>"
  by (cases n) (auto simp: Inspect_Inr_iff ConfirmationToken_Inr)

theorem Inspect_accepts_iff_witness:
  "token_target_ok example_target \<and> rescue_ok example_target example_host"
  using Inspect_accepts_iff [THEN iffD1, OF example_inspect] by simp

text \<open>The condition that each gate of \<^verbatim>\<open>Inspect\<close> reports.\<close>

fun gate_reason ::
  "gate_code \<Rightarrow> mode \<Rightarrow> target_identity \<Rightarrow> image_identity \<Rightarrow> host_observation \<Rightarrow> bool" where
  "gate_reason GateInvalidMode m t i h = (m \<noteq> ModeRescue \<and> m \<noteq> ModeLive)"
| "gate_reason GateNotRoot m t i h = (h_EUID h \<noteq> 0)"
| "gate_reason GateTargetPartition m t i h = t_IsPartition t"
| "gate_reason GateTargetTooSmall m t i h = (t_SizeBytes t < i_UncompressedBytes i)"
| "gate_reason GateInvalidTarget m t i h = (\<not> token_target_ok t)"
| "gate_reason GateInvalidImageSize m t i h = (i_UncompressedBytes i \<le> 0)"
| "gate_reason GateInvalidDigest m t i h = (\<not> digest_ok (i_SHA256 i))"
| "gate_reason GateSourceOnTarget m t i h =
     (\<exists>d \<in> set (h_SourceBackingDevices h). owned_by t d)"
| "gate_reason GateTargetMounted m t i h =
     (m = ModeRescue \<and> (\<exists>d \<in> active (h_MountedDevices h). owned_by t d))"
| "gate_reason GateTargetSwap m t i h =
     (m = ModeRescue \<and> (\<exists>d \<in> active (h_SwapDevices h). owned_by t d))"
| "gate_reason GateLiveTargetNotRoot m t i h =
     (m = ModeLive \<and> filepath_Clean (h_RootDisk h) \<noteq> t_CanonicalPath t)"
| "gate_reason GateLiveSourceNotTmpfs m t i h =
     (m = ModeLive \<and> h_SourceFilesystem h \<noteq> ''tmpfs'')"
| "gate_reason GateLiveMemory m t i h = (m = ModeLive \<and> h_MemoryAvailableBytes h < 536870912)"
| "gate_reason GateLiveSysRq m t i h = (m = ModeLive \<and> \<not> h_SysRqTriggerAvailable h)"
| "gate_reason c m t i h = False"

lemma inspectMode_reason:
  assumes "inspectMode m t h (deviceNames t) = Inl e" "m = ModeRescue \<or> m = ModeLive"
  shows "\<exists>c f as. e = PolicyGate c f as \<and> gate_reason c m t i h"
  using assms
  by (auto simp: inspectMode_def refuse_def owned_by_def tmpfsFilesystem_def
      MinimumLiveAvailableBytes_def split: option.splits if_splits dest!: intersects_Some_owned)

lemma ConfirmationToken_reason:
  "ConfirmationToken t i = Inl e \<Longrightarrow> \<exists>c f as. e = PolicyGate c f as \<and> gate_reason c m t i h"
  by (auto simp: ConfirmationToken_eq split: if_splits)

text \<open>
  C34. Every refusal of \<^verbatim>\<open>policy.Inspect\<close> is a gate error whose code names a condition that really
  holds of the inputs; \<^verbatim>\<open>Inspect\<close> never fails in any other way.
\<close>

theorem Inspect_refusal_reason:
  assumes "Inspect m t i h = Inl e"
  shows "\<exists>c f as. e = PolicyGate c f as \<and> gate_reason c m t i h"
proof (cases "(m = ModeRescue \<or> m = ModeLive) \<and> h_EUID h = 0 \<and> \<not> t_IsPartition t
    \<and> i_UncompressedBytes i \<le> t_SizeBytes t")
  case False
  with assms show ?thesis
    by (auto simp: Inspect_def refuse_def split: if_splits)
next
  case True
  let ?backing = "intersects (mapFromSlice (h_SourceBackingDevices h)) (deviceNames t)"
  have "ConfirmationToken t i = Inl e
    \<or> (\<exists>d. ?backing = Some d
         \<and> e = PolicyGate GateSourceOnTarget ''source is backed by target descendant %s'' [FStr d])
    \<or> inspectMode m t h (deviceNames t) = Inl e"
    using True assms
    by (auto simp: Inspect_def refuse_def Let_def not_less split: sum.splits option.splits)
  then show ?thesis
  proof (elim disjE exE conjE)
    fix d
    assume "?backing = Some d"
      and e: "e = PolicyGate GateSourceOnTarget ''source is backed by target descendant %s'' [FStr d]"
    then have "d \<in> set (h_SourceBackingDevices h)" "owned_by t d"
      using intersects_SomeD [of "mapFromSlice (h_SourceBackingDevices h)"]
      by (auto simp: owned_by_def)
    with e show ?thesis by auto
  qed (use True in \<open>blast intro: ConfirmationToken_reason inspectMode_reason\<close>)+
qed

theorem Inspect_refusal_reason_witness:
  "\<exists>c f as. Inspect ModeRescue example_target example_image (example_host\<lparr>h_EUID := 1000\<rparr>)
      = Inl (PolicyGate c f as)
    \<and> gate_reason c ModeRescue example_target example_image (example_host\<lparr>h_EUID := 1000\<rparr>)"
proof -
  have "Inspect ModeRescue example_target example_image (example_host\<lparr>h_EUID := 1000\<rparr>)
      = Inl (refuse GateNotRoot ''whole-disk inspection requires root'' [])"
    by (simp add: Inspect_def)
  from this Inspect_refusal_reason [OF this] show ?thesis
    by auto
qed

text \<open>
  Rescue mode keeps its promise: when \<^verbatim>\<open>Inspect\<close> accepts, no mounted device, no active swap
  device and no device that backs the source has the base name of the target, of its kernel name or
  of one of its descendants.
\<close>

theorem rescue_target_unused:
  assumes "Inspect ModeRescue t i h = Inr n"
    and "d \<in> active (h_MountedDevices h) \<union> active (h_SwapDevices h) \<union> set (h_SourceBackingDevices h)"
    and "x \<in> set (t_Descendants t) \<union> {t_KName t, t_CanonicalPath t}" and "x \<noteq> ''''"
  shows "filepath_Base d \<noteq> filepath_Base x"
proof
  assume eq: "filepath_Base d = filepath_Base x"
  have "filepath_Base x \<in> set (deviceNames t)"
    using assms(3,4) by (auto simp: set_deviceNames)
  with eq have "owned_by t d"
    by (simp add: owned_by_def)
  with assms(1,2) show False
    by (auto simp: Inspect_Inr_iff rescue_ok_def)
qed

theorem rescue_target_unused_witness:
  "filepath_Base ''vda1'' \<noteq> filepath_Base ''vdb1''"
  by (rule rescue_target_unused [OF example_inspect])
     (simp_all add: example_host_def example_target_def active_def)

lemma intersects_cong: "active a = active b \<Longrightarrow> intersects a cs = intersects b cs"
  by (simp add: intersects_eq)

text \<open>
  C35. The decision of \<^verbatim>\<open>Inspect\<close> is deterministic although Go iterates over maps in random order: two
  observations with the same active mounts, the same active swaps and the same set of source devices,
  in any order, get the same decision or the same refusal with the same message.
\<close>

theorem Inspect_order_independent:
  assumes "active (h_MountedDevices h) = active mounted" and "active (h_SwapDevices h) = active swaps"
    and "set (h_SourceBackingDevices h) = set backing"
  shows "Inspect m t i (h\<lparr>h_MountedDevices := mounted, h_SwapDevices := swaps,
           h_SourceBackingDevices := backing\<rparr>) = Inspect m t i h"
proof -
  let ?h = "h\<lparr>h_MountedDevices := mounted, h_SwapDevices := swaps, h_SourceBackingDevices := backing\<rparr>"
  have "intersects (mapFromSlice backing) c = intersects (mapFromSlice (h_SourceBackingDevices h)) c" for c
    using assms(3) by (intro intersects_cong) simp
  moreover have "inspectMode m' t ?h c = inspectMode m' t h c" for m' c
    using intersects_cong [OF assms(1)] intersects_cong [OF assms(2)]
    by (simp add: inspectMode_def cong: option.case_cong)
  ultimately show ?thesis
    by (simp add: Inspect_def Let_def cong: option.case_cong sum.case_cong)
qed

theorem Inspect_order_independent_witness:
  "Inspect ModeRescue example_target example_image
     (example_host\<lparr>h_MountedDevices := [(''vda'', True), (''vdc'', False), (''vda1'', True)],
        h_SwapDevices := h_SwapDevices example_host, h_SourceBackingDevices := []\<rparr>)
   = Inspect ModeRescue example_target example_image example_host"
  by (rule Inspect_order_independent) (auto simp: example_host_def active_def)

end
