(* ===== verification/Sysfs.thy ===== *)
theory Sysfs
  imports Policy "HOL-Library.Word"
begin

text \<open>
  The sysfs half of internal/linux/observer.go: resolving block devices, walking the devices a disk is
  related to, and reading a target's identity. What the kernel answers during one observer method is
  a snapshot; successive methods may be given different ones. The walk recurses through directories,
  so it carries fuel: the number of directory entries of the snapshot bounds its depth, and the fuel
  is never used up.
\<close>

unbundle bit_operations_syntax

section \<open>Snapshots of the file system\<close>

record fileinfo =
  fi_size :: int
  fi_perm :: "9 word"

text \<open>
  An open file yields its bytes and possibly an error that ends them early. A directory that is not
  listed does not exist; the entries of a listed one come in any order.
\<close>

record snapshot =
  s_open :: "gostring \<Rightarrow> (bytes \<times> goerr option) res"
  s_dirs :: "(gostring \<times> gostring list res) list"
  s_stat :: "gostring \<Rightarrow> fileinfo res"

definition os_ReadFile :: "snapshot \<Rightarrow> gostring \<Rightarrow> bytes res" where
  "os_ReadFile h path =
     (case s_open h path of
        Inl err \<Rightarrow> Inl err
      | Inr (content, None) \<Rightarrow> Inr content
      | Inr (content, Some err) \<Rightarrow> Inl err)"

definition os_ReadDir :: "snapshot \<Rightarrow> gostring \<Rightarrow> gostring list res" where
  "os_ReadDir h path =
     (case map_of (s_dirs h) path of
        None \<Rightarrow> Inl (Errorf ''open %s: %w'' [FStr path] (Sentinel OsErrNotExist))
      | Some (Inl err) \<Rightarrow> Inl err
      | Some (Inr entries) \<Rightarrow> Inr (sort entries))"

definition stat_ok :: "snapshot \<Rightarrow> gostring \<Rightarrow> bool" where
  "stat_ok h path \<longleftrightarrow> \<not> isl (s_stat h path)"

section \<open>Resolving block devices\<close>

record observer =
  o_ProcRoot :: gostring
  o_SysRoot :: gostring

definition deviceRoot :: gostring where
  "deviceRoot = ''/dev''"

definition sectorBytes :: int where
  "sectorBytes = 512"

definition blockRoot :: "observer \<Rightarrow> gostring" where
  "blockRoot observer = filepath_Join [o_SysRoot observer, ''class'', ''block'']"

definition readTrimmed :: "snapshot \<Rightarrow> gostring \<Rightarrow> gostring res" where
  "readTrimmed h path =
     (case os_ReadFile h path of
        Inl err \<Rightarrow> Inl (Errorf ''read kernel state %q: %w'' [FQuote path] err)
      | Inr content \<Rightarrow> Inr (strings_TrimSpace content))"

definition topLevelNames :: "observer \<Rightarrow> snapshot \<Rightarrow> gostring list res" where
  "topLevelNames observer h =
     (case os_ReadDir h (blockRoot observer) of
        Inl err \<Rightarrow> Inl (Errorf ''read sysfs block directory: %w'' [] err)
      | Inr entries \<Rightarrow> Inr (sort entries))"

definition blockPath :: "observer \<Rightarrow> snapshot \<Rightarrow> gostring \<Rightarrow> gostring res" where
  "blockPath observer h name =
     (let direct = filepath_Join [blockRoot observer, name]
      in if stat_ok h direct then Inr direct
         else case topLevelNames observer h of
                Inl err \<Rightarrow> Inl err
              | Inr parents \<Rightarrow>
                  (case find (\<lambda>parent. stat_ok h (filepath_Join [blockRoot observer, parent, name])) parents of
                     Some parent \<Rightarrow> Inr (filepath_Join [blockRoot observer, parent, name])
                   | None \<Rightarrow>
                       Inl (Errorf ''%w: %q is absent from sysfs'' [FQuote name]
                              (Sentinel ErrUnresolvedDevice))))"

definition partitionParent :: "observer \<Rightarrow> snapshot \<Rightarrow> gostring \<Rightarrow> gostring option res" where
  "partitionParent observer h name =
     (case topLevelNames observer h of
        Inl err \<Rightarrow> Inl err
      | Inr parents \<Rightarrow>
          Inr (find (\<lambda>parent. stat_ok h (filepath_Join [blockRoot observer, parent, name, ''partition'']))
                 parents))"

definition sortedEntries :: "snapshot \<Rightarrow> gostring \<Rightarrow> gostring list res" where
  "sortedEntries h path =
     (case os_ReadDir h path of
        Inl err \<Rightarrow>
          (if errors_is err OsErrNotExist then Inr []
           else Inl (Errorf ''read block relations %q: %w'' [FQuote path] err))
      | Inr directory \<Rightarrow> Inr (sort directory))"

definition partitionChildren :: "snapshot \<Rightarrow> gostring \<Rightarrow> gostring list res" where
  "partitionChildren h path =
     (case os_ReadDir h path of
        Inl err \<Rightarrow> Inl (Errorf ''read block children %q: %w'' [FQuote path] err)
      | Inr children \<Rightarrow>
          Inr (filter (\<lambda>child. stat_ok h (filepath_Join [path, child, ''partition''])) children))"

section \<open>The walk\<close>

text \<open>
  The walk's outcome: \<open>None\<close> when the fuel is used up, otherwise the error and the names seen so far
  (the map \<^verbatim>\<open>seen\<close> of the source, as the list of its keys, latest first).
\<close>

type_synonym walk = "(goerr option \<times> gostring list) option"

definition walk_then :: "walk \<Rightarrow> (gostring list \<Rightarrow> walk) \<Rightarrow> walk" where
  "walk_then m f =
     (case m of
        None \<Rightarrow> None
      | Some (Some err, seen) \<Rightarrow> Some (Some err, seen)
      | Some (None, seen) \<Rightarrow> f seen)"

definition walk_read :: "'a res \<Rightarrow> gostring list \<Rightarrow> ('a \<Rightarrow> walk) \<Rightarrow> walk" where
  "walk_read r seen f = (case r of Inl err \<Rightarrow> Some (Some err, seen) | Inr x \<Rightarrow> f x)"

fun walk_each :: "(gostring \<Rightarrow> gostring list \<Rightarrow> walk) \<Rightarrow> gostring list \<Rightarrow> gostring list \<Rightarrow> walk" where
  "walk_each f [] seen = Some (None, seen)"
| "walk_each f (x # xs) seen = walk_then (f x seen) (walk_each f xs)"

fun walkRelated :: "nat \<Rightarrow> observer \<Rightarrow> snapshot \<Rightarrow> gostring \<Rightarrow> bool \<Rightarrow> gostring list \<Rightarrow> walk" where
  "walkRelated 0 observer h name includePartitions seen = None"
| "walkRelated (Suc fuel) observer h name includePartitions seen =
     (if name \<in> set seen then Some (None, seen)
      else
        walk_read (blockPath observer h name) (name # seen) (\<lambda>path.
        walk_read (partitionParent observer h name) (name # seen) (\<lambda>parent.
        walk_then
          (case parent of
             None \<Rightarrow> Some (None, name # seen)
           | Some p \<Rightarrow> walkRelated fuel observer h p False (name # seen)) (\<lambda>seen2.
        walk_read (sortedEntries h (filepath_Join [path, ''slaves''])) seen2 (\<lambda>slaves.
        walk_then (walk_each (\<lambda>slave. walkRelated fuel observer h slave False) slaves seen2) (\<lambda>seen3.
        if \<not> includePartitions then Some (None, seen3)
        else
          walk_read (partitionChildren h path) seen3 (\<lambda>partitions.
          walk_each (\<lambda>partition. walkRelated fuel observer h partition False) partitions seen3)))))))"

definition dir_entries :: "snapshot \<Rightarrow> gostring list" where
  "dir_entries h = concat (map (\<lambda>(path, r). case r of Inl _ \<Rightarrow> [] | Inr es \<Rightarrow> es) (s_dirs h))"

definition walk_fuel :: "snapshot \<Rightarrow> nat" where
  "walk_fuel h = length (dir_entries h) + 2"

definition related :: "observer \<Rightarrow> snapshot \<Rightarrow> gostring \<Rightarrow> gostring list res" where
  "related observer h start =
     (case walkRelated (walk_fuel h) observer h start True [] of
        None \<Rightarrow> Inl (Opaque ''walk fuel used up'')
      | Some (Some err, seen) \<Rightarrow> Inl err
      | Some (None, seen) \<Rightarrow> Inr (sort seen))"

section \<open>Targets\<close>

definition readOptional :: "snapshot \<Rightarrow> gostring \<Rightarrow> gostring list \<Rightarrow> gostring" where
  "readOptional h root paths =
     foldr (\<lambda>relative other.
              case readTrimmed h (filepath_Join [root, relative]) of
                Inl _ \<Rightarrow> other
              | Inr value \<Rightarrow> (if value \<noteq> '''' then value else other)) paths ''''"

definition Target :: "observer \<Rightarrow> snapshot \<Rightarrow> gostring \<Rightarrow> target_identity res" where
  "Target observer h path =
     (let cleaned = filepath_Clean path;
          name = filepath_Base cleaned
      in if cleaned \<noteq> filepath_Join [deviceRoot, name] \<or> name = ''.'' \<or> name = [slash]
         then Inl (Errorf ''%w: expected canonical /dev/<name> path'' [] (Sentinel ErrInvalidBlockDevice))
         else case blockPath observer h name of
                Inl err \<Rightarrow> Inl err
              | Inr sysPath \<Rightarrow>
                  (case readTrimmed h (filepath_Join [sysPath, ''size'']) of
                     Inl err \<Rightarrow> Inl err
                   | Inr sectorsText \<Rightarrow>
                       (let invalid = Inl (Errorf ''%w: sector count for %s'' [FStr name]
                                             (Sentinel ErrInvalidBlockDevice))
                        in case strconv_ParseInt10 sectorsText of
                             None \<Rightarrow> invalid
                           | Some sectors \<Rightarrow>
                               (if sectors < 0 \<or> sectors > max_int64 div sectorBytes then invalid
                                else case related observer h name of
                                       Inl err \<Rightarrow> Inl err
                                     | Inr descendants \<Rightarrow>
                                         Inr \<lparr>t_CanonicalPath = cleaned,
                                              t_Serial = readOptional h sysPath [''device/serial'', ''serial''],
                                              t_WWN = readOptional h sysPath [''device/wwid'', ''wwid''],
                                              t_SizeBytes = wrap64 (sectors * sectorBytes),
                                              t_KName = name,
                                              t_IsPartition = stat_ok h (filepath_Join [sysPath, ''partition'']),
                                              t_Descendants = descendants\<rparr>))))"


section \<open>What the walk reaches\<close>

text \<open>
  The devices a device rests on directly: the disk it is a partition of and its device-mapper or raid
  slaves; and the partitions of a disk.
\<close>

definition ups :: "observer \<Rightarrow> snapshot \<Rightarrow> gostring \<Rightarrow> gostring set" where
  "ups observer h x =
     (case partitionParent observer h x of Inr (Some p) \<Rightarrow> {p} | _ \<Rightarrow> {})
     \<union> (case blockPath observer h x of
          Inl _ \<Rightarrow> {}
        | Inr path \<Rightarrow>
            (case sortedEntries h (filepath_Join [path, ''slaves'']) of Inl _ \<Rightarrow> {} | Inr sl \<Rightarrow> set sl))"

definition parts :: "observer \<Rightarrow> snapshot \<Rightarrow> gostring \<Rightarrow> gostring set" where
  "parts observer h x =
     (case blockPath observer h x of
        Inl _ \<Rightarrow> {}
      | Inr path \<Rightarrow> (case partitionChildren h path of Inl _ \<Rightarrow> {} | Inr ps \<Rightarrow> set ps))"

definition up_rel :: "observer \<Rightarrow> snapshot \<Rightarrow> (gostring \<times> gostring) set" where
  "up_rel observer h = {(x, y). y \<in> ups observer h x}"

text \<open>The names \<open>b\<close> extend \<open>a\<close> by what is reached from \<open>N\<close>, and every new name comes with its \<open>ups\<close>.\<close>

definition extends :: "observer \<Rightarrow> snapshot \<Rightarrow> gostring set \<Rightarrow> gostring list \<Rightarrow> gostring list \<Rightarrow> bool" where
  "extends observer h N a b \<longleftrightarrow>
     distinct b \<and> set a \<subseteq> set b \<and> N \<subseteq> set b
     \<and> (\<forall>x \<in> set b - set a. ups observer h x \<subseteq> set b)
     \<and> set b \<subseteq> set a \<union> (up_rel observer h)\<^sup>* `` N"

lemma extends_refl: "distinct a \<Longrightarrow> extends observer h {} a a"
  by (simp add: extends_def)

lemma extends_seen: "distinct a \<Longrightarrow> x \<in> set a \<Longrightarrow> extends observer h {x} a a"
  by (auto simp: extends_def)

lemma extends_trans:
  assumes "extends observer h N a b" "extends observer h M b c"
  shows "extends observer h (N \<union> M) a c"
proof -
  have "ups observer h x \<subseteq> set c" if "x \<in> set c - set a" for x
    using assms that unfolding extends_def by blast
  moreover have "set c \<subseteq> set a \<union> (up_rel observer h)\<^sup>* `` (N \<union> M)"
    using assms unfolding extends_def Image_Un by blast
  ultimately show ?thesis
    using assms unfolding extends_def by auto
qed

lemma walk_then_ok:
  "walk_then m f = Some (None, s) \<longleftrightarrow> (\<exists>t. m = Some (None, t) \<and> f t = Some (None, s))"
  by (auto simp: walk_then_def split: option.splits)

lemma walk_read_ok: "walk_read r t f = Some (None, s) \<longleftrightarrow> (\<exists>x. r = Inr x \<and> f x = Some (None, s))"
  by (auto simp: walk_read_def split: sum.splits)

lemma walk_each_extends:
  assumes "walk_each f xs a = Some (None, b)" "distinct a"
    and "\<And>x s t. f x s = Some (None, t) \<Longrightarrow> distinct s \<Longrightarrow> extends observer h {x} s t"
  shows "extends observer h (set xs) a b"
  using assms(1,2)
proof (induction xs arbitrary: a)
  case Nil
  then show ?case
    by (simp add: extends_refl)
next
  case (Cons x xs)
  then obtain t where t: "f x a = Some (None, t)" "walk_each f xs t = Some (None, b)"
    by (auto simp: walk_then_ok)
  have e: "extends observer h {x} a t"
    using assms(3) t(1) Cons.prems(2) by blast
  then have "extends observer h (set xs) t b"
    using Cons.IH t(2) by (auto simp: extends_def)
  with extends_trans [OF e this] show ?case
    by simp
qed

text \<open>A new device whose \<open>ups\<close> (and, at the start of a walk, partitions) have been walked.\<close>

lemma extends_step:
  assumes "extends observer h (ups observer h name \<union> M) (name # a) b"
  shows "extends observer h ({name} \<union> M) a b"
proof -
  have reach: "(up_rel observer h)\<^sup>* `` ups observer h name \<subseteq> (up_rel observer h)\<^sup>* `` {name}"
    by (auto simp: up_rel_def intro: converse_rtrancl_into_rtrancl)
  have self: "name \<in> (up_rel observer h)\<^sup>* `` {name}"
    by simp
  have "ups observer h x \<subseteq> set b" if "x \<in> set b - set a" for x
    using assms that unfolding extends_def by (cases "x = name") auto
  moreover have "set b \<subseteq> set a \<union> (up_rel observer h)\<^sup>* `` ({name} \<union> M)"
    using assms reach self unfolding extends_def Image_Un set_simps by blast
  ultimately show ?thesis
    using assms unfolding extends_def by auto
qed

text \<open>One unfolding of the walk, with the recursive calls as the argument \<open>go\<close>.\<close>

definition walk_device ::
  "(gostring \<Rightarrow> gostring list \<Rightarrow> walk) \<Rightarrow> observer \<Rightarrow> snapshot \<Rightarrow> gostring \<Rightarrow> bool \<Rightarrow> gostring list \<Rightarrow> walk" where
  "walk_device go observer h name inc s =
     walk_read (blockPath observer h name) s (\<lambda>path.
     walk_read (partitionParent observer h name) s (\<lambda>parent.
     walk_then (case parent of None \<Rightarrow> Some (None, s) | Some p \<Rightarrow> go p s) (\<lambda>s2.
     walk_read (sortedEntries h (filepath_Join [path, ''slaves''])) s2 (\<lambda>slaves.
     walk_then (walk_each go slaves s2) (\<lambda>s3.
     if \<not> inc then Some (None, s3)
     else walk_read (partitionChildren h path) s3 (\<lambda>partitions. walk_each go partitions s3))))))"

lemma walkRelated_device:
  "walkRelated (Suc fuel) observer h name inc a =
     (if name \<in> set a then Some (None, a)
      else walk_device (\<lambda>x. walkRelated fuel observer h x False) observer h name inc (name # a))"
  by (simp add: walk_device_def)

lemma walk_device_extends:
  assumes "walk_device go observer h name inc s = Some (None, b)" "distinct s"
    and go: "\<And>x s t. go x s = Some (None, t) \<Longrightarrow> distinct s \<Longrightarrow> extends observer h {x} s t"
  shows "extends observer h (ups observer h name \<union> (if inc then parts observer h name else {})) s b"
proof -
  obtain path parent s2 slaves s3 where
    path: "blockPath observer h name = Inr path"
    and parent: "partitionParent observer h name = Inr parent"
    and s2: "(case parent of None \<Rightarrow> Some (None, s) | Some p \<Rightarrow> go p s) = Some (None, s2)"
    and slaves: "sortedEntries h (filepath_Join [path, ''slaves'']) = Inr slaves"
    and s3: "walk_each go slaves s2 = Some (None, s3)"
    and rest: "(if \<not> inc then Some (None, s3)
      else walk_read (partitionChildren h path) s3 (\<lambda>ps. walk_each go ps s3)) = Some (None, b)"
    using assms(1) by (auto simp: walk_device_def walk_then_ok walk_read_ok simp del: walk_each.simps)
  have e2: "extends observer h (case parent of None \<Rightarrow> {} | Some p \<Rightarrow> {p}) s s2"
    using s2 assms(2) go by (cases parent) (simp_all add: extends_refl)
  have e3: "extends observer h (set slaves) s2 s3"
    using e2 by (intro walk_each_extends [OF s3] go) (simp_all add: extends_def)
  have ups: "ups observer h name = (case parent of None \<Rightarrow> {} | Some p \<Rightarrow> {p}) \<union> set slaves"
    by (simp add: ups_def path parent slaves split: option.split)
  note e = extends_trans [OF e2 e3, folded ups]
  show ?thesis
  proof (cases inc)
    case True
    with rest obtain ps where ps: "partitionChildren h path = Inr ps" "walk_each go ps s3 = Some (None, b)"
      by (auto simp: walk_read_ok)
    have "extends observer h (set ps) s3 b"
      using e3 by (intro walk_each_extends [OF ps(2)] go) (simp_all add: extends_def)
    from extends_trans [OF e this] True show ?thesis
      by (simp add: parts_def path ps(1))
  qed (use rest e in simp)
qed

lemma walkRelated_extends:
  assumes "walkRelated fuel observer h name inc a = Some (None, b)" "distinct a"
  shows "extends observer h ({name} \<union> (if inc \<and> name \<notin> set a then parts observer h name else {})) a b"
  using assms
proof (induction fuel arbitrary: name inc a b)
  case (Suc fuel)
  show ?case
  proof (cases "name \<in> set a")
    case True
    with Suc.prems show ?thesis
      by (simp add: extends_seen)
  next
    case False
    have "extends observer h (ups observer h name \<union> (if inc then parts observer h name else {})) (name # a) b"
    proof (rule walk_device_extends)
      show "walk_device (\<lambda>x. walkRelated fuel observer h x False) observer h name inc (name # a) = Some (None, b)"
        using Suc.prems(1) False unfolding walkRelated_device by simp
      show "distinct (name # a)"
        using False Suc.prems(2) by simp
      show "extends observer h {x} s t" if "walkRelated fuel observer h x False s = Some (None, t)" "distinct s" for x s t
        using Suc.IH [OF that] by simp
    qed
    from extends_step [OF this] False show ?thesis
      by simp
  qed
qed simp

section \<open>The walk ends\<close>

lemma ReadDir_entries: "os_ReadDir h path = Inr es \<Longrightarrow> set es \<subseteq> set (dir_entries h)"
  by (force simp: os_ReadDir_def dir_entries_def split: option.splits sum.splits dest: map_of_SomeD)

lemma topLevelNames_entries: "topLevelNames observer h = Inr ns \<Longrightarrow> set ns \<subseteq> set (dir_entries h)"
  using ReadDir_entries by (fastforce simp: topLevelNames_def split: sum.splits)

lemma partitionParent_entries: "partitionParent observer h x = Inr (Some p) \<Longrightarrow> p \<in> set (dir_entries h)"
  using topLevelNames_entries by (fastforce simp: partitionParent_def find_Some_iff split: sum.splits)

lemma sortedEntries_entries: "sortedEntries h path = Inr es \<Longrightarrow> set es \<subseteq> set (dir_entries h)"
  using ReadDir_entries by (fastforce simp: sortedEntries_def split: sum.splits if_splits)

lemma partitionChildren_entries: "partitionChildren h path = Inr es \<Longrightarrow> set es \<subseteq> set (dir_entries h)"
  using ReadDir_entries by (fastforce simp: partitionChildren_def split: sum.splits)

lemma walk_then_ends:
  "m \<noteq> None \<Longrightarrow> (\<And>s. m = Some (None, s) \<Longrightarrow> f s \<noteq> None) \<Longrightarrow> walk_then m f \<noteq> None"
  by (auto simp: walk_then_def split: option.splits)

lemma walk_read_ends: "(\<And>x. r = Inr x \<Longrightarrow> f x \<noteq> None) \<Longrightarrow> walk_read r s f \<noteq> None"
  by (auto simp: walk_read_def split: sum.splits)

lemma walk_each_ends:
  assumes "\<And>x s. x \<in> set xs \<Longrightarrow> set a \<subseteq> set s \<Longrightarrow> distinct s \<Longrightarrow> f x s \<noteq> None"
    and "\<And>x s t. f x s = Some (None, t) \<Longrightarrow> distinct s \<Longrightarrow> extends observer h {x} s t"
    and "set a \<subseteq> set s" "distinct s"
  shows "walk_each f xs s \<noteq> None"
  using assms(1,3,4)
proof (induction xs arbitrary: s)
  case (Cons x xs)
  have "walk_each f xs t \<noteq> None" if "f x s = Some (None, t)" for t
  proof (rule Cons.IH)
    show "set a \<subseteq> set t" "distinct t"
      using assms(2) [OF that Cons.prems(3)] Cons.prems(2) by (auto simp: extends_def)
  qed (use Cons.prems(1) in auto)
  then show ?case
    unfolding walk_each.simps using Cons.prems by (intro walk_then_ends) simp_all
qed simp

lemma walk_device_ends:
  assumes go: "\<And>x t. x \<in> set (dir_entries h) \<Longrightarrow> set s \<subseteq> set t \<Longrightarrow> distinct t \<Longrightarrow> go x t \<noteq> None"
    and ext: "\<And>x s t. go x s = Some (None, t) \<Longrightarrow> distinct s \<Longrightarrow> extends observer h {x} s t"
    and "distinct s"
  shows "walk_device go observer h name inc s \<noteq> None"
proof -
  have each: "walk_each go xs t \<noteq> None"
    if "set xs \<subseteq> set (dir_entries h)" "set s \<subseteq> set t \<and> distinct t" for xs t
    using that by (intro walk_each_ends [where a = s and observer = observer and h = h] go ext) auto
  have parent: "(case p of None \<Rightarrow> Some (None, s) | Some p \<Rightarrow> go p s) \<noteq> None"
    if "partitionParent observer h name = Inr p" for p
    using that partitionParent_entries go [of _ s] assms(3) by (cases p) auto
  have after_parent: "set s \<subseteq> set t \<and> distinct t"
    if "(case p of None \<Rightarrow> Some (None, s) | Some p \<Rightarrow> go p s) = Some (None, t)" for p t
    using that assms(3) ext [of _ s t] by (cases p) (auto simp: extends_def)
  have after_each: "set s \<subseteq> set u \<and> distinct u"
    if "walk_each go xs t = Some (None, u)" "set s \<subseteq> set t \<and> distinct t" for xs t u
    using walk_each_extends [OF that(1) _ ext] that(2) by (auto simp: extends_def)
  have parts: "(if \<not> inc then Some (None, t)
      else walk_read (partitionChildren h path) t (\<lambda>ps. walk_each go ps t)) \<noteq> None"
    if "set s \<subseteq> set t \<and> distinct t" for path t
    using each [OF partitionChildren_entries that] walk_read_ends [of "partitionChildren h path"] by simp
  show ?thesis
    unfolding walk_device_def
    by (intro walk_read_ends walk_then_ends parent parts each)
       (erule sortedEntries_entries after_parent after_each | assumption)+
qed

lemma walkRelated_ends:
  assumes "name \<in> U" "finite U" "set (dir_entries h) \<subseteq> U" "card (U - set a) < fuel" "distinct a"
  shows "walkRelated fuel observer h name inc a \<noteq> None"
  using assms(1,4,5)
proof (induction fuel arbitrary: name inc a)
  case (Suc fuel)
  show ?case
  proof (cases "name \<in> set a")
    case False
    have "card (U - set (name # a)) < card (U - set a)"
      using Suc.prems(1) False assms(2) by (intro psubset_card_mono) auto
    with Suc.prems(2) have small: "card (U - set (name # a)) < fuel"
      by simp
    have go: "walkRelated fuel observer h x False s \<noteq> None"
      if "x \<in> set (dir_entries h)" "set (name # a) \<subseteq> set s" "distinct s" for x s
    proof -
      have "card (U - set s) \<le> card (U - set (name # a))"
        using that(2) assms(2) by (intro card_mono) auto
      with small that assms(3) show ?thesis
        by (intro Suc.IH) auto
    qed
    have ext: "extends observer h {x} s t" if "walkRelated fuel observer h x False s = Some (None, t)" "distinct s" for x s t
      using walkRelated_extends [OF that] by simp
    have "walk_device (\<lambda>x. walkRelated fuel observer h x False) observer h name inc (name # a) \<noteq> None"
      using False Suc.prems(3) by (intro walk_device_ends go ext) simp_all
    with False show ?thesis
      unfolding walkRelated_device by simp
  qed simp
qed simp


text \<open>More fuel does not change an outcome.\<close>

definition walk_le :: "walk \<Rightarrow> walk \<Rightarrow> bool" where
  "walk_le m m' \<longleftrightarrow> m = None \<or> m' = m"

lemma walk_le_refl: "walk_le m m"
  by (simp add: walk_le_def)

lemma walk_le_if: "walk_le a a' \<Longrightarrow> walk_le b b' \<Longrightarrow> walk_le (if c then a else b) (if c then a' else b')"
  by simp

lemma walk_le_option:
  "walk_le a a' \<Longrightarrow> (\<And>p. walk_le (b p) (b' p)) \<Longrightarrow>
   walk_le (case x of None \<Rightarrow> a | Some p \<Rightarrow> b p) (case x of None \<Rightarrow> a' | Some p \<Rightarrow> b' p)"
  by (cases x) simp_all

lemma walk_le_then:
  assumes "walk_le m m'" and "\<And>s. walk_le (f s) (g s)"
  shows "walk_le (walk_then m f) (walk_then m' g)"
  using assms(1) assms(2) [of "snd (the m)"]
  by (auto simp: walk_le_def walk_then_def split: option.splits)

lemma walk_le_read: "(\<And>x. walk_le (f x) (g x)) \<Longrightarrow> walk_le (walk_read r s f) (walk_read r s g)"
  by (cases r) (simp_all add: walk_read_def walk_le_refl)

lemma walk_le_each: "(\<And>x s. walk_le (f x s) (g x s)) \<Longrightarrow> walk_le (walk_each f xs s) (walk_each g xs s)"
  by (induction xs arbitrary: s) (simp_all add: walk_le_refl walk_le_then)

lemmas walk_le_intros = walk_le_refl walk_le_if walk_le_option walk_le_then walk_le_read walk_le_each

lemma walkRelated_mono:
  "walk_le (walkRelated fuel observer h name inc a) (walkRelated (Suc fuel) observer h name inc a)"
proof (induction fuel arbitrary: name inc a)
  case (Suc fuel)
  show ?case
    unfolding walkRelated.simps(2) [of "Suc fuel" observer h name inc a]
      walkRelated.simps(2) [of fuel observer h name inc a]
    by (intro walk_le_if walk_le_refl walk_le_read walk_le_then walk_le_option walk_le_each Suc.IH)
qed (simp add: walk_le_def)

lemma walk_fuel_enough: "walkRelated (walk_fuel h) observer h start inc [] \<noteq> None"
proof (rule walkRelated_ends)
  let ?U = "insert start (set (dir_entries h))"
  have "card (set (dir_entries h)) \<le> length (dir_entries h)"
    by (rule card_length)
  then show "card (?U - set []) < walk_fuel h"
    by (simp add: walk_fuel_def card_insert_if)
qed auto

text \<open>
  C15. The walk over related devices ends: for every snapshot, however its directories refer to each
  other, in cycles too, the fuel given to \<^verbatim>\<open>walkRelated\<close> is not used up, and giving it more does not
  change the outcome.
\<close>

theorem walkRelated_terminates:
  "\<exists>outcome. \<forall>extra. walkRelated (walk_fuel h + extra) observer h start inc [] = Some outcome"
proof -
  obtain r where r: "walkRelated (walk_fuel h) observer h start inc [] = Some r"
    using walk_fuel_enough by blast
  have "walkRelated (walk_fuel h + extra) observer h start inc [] = Some r" for extra
  proof (induction extra)
    case (Suc extra)
    then show ?case
      using walkRelated_mono [of "walk_fuel h + extra" observer h start inc "[]"]
      by (simp add: walk_le_def del: walkRelated.simps)
  qed (simp add: r)
  then show ?thesis
    by blast
qed

lemma related_set:
  assumes "related observer h start = Inr names"
  shows "set names = (up_rel observer h)\<^sup>* `` ({start} \<union> parts observer h start)"
    and "sorted names" and "distinct names"
proof -
  obtain seen where w: "walkRelated (walk_fuel h) observer h start True [] = Some (None, seen)"
    and names: "names = sort seen"
    using assms by (auto simp: related_def split: option.splits)
  let ?N = "{start} \<union> parts observer h start"
  have e: "extends observer h ?N [] seen"
    using walkRelated_extends [OF w] by simp
  have closed: "y \<in> set seen" if "(x, y) \<in> (up_rel observer h)\<^sup>*" "x \<in> set seen" for x y
    using that by (induction rule: rtrancl_induct) (use e in \<open>auto simp: extends_def up_rel_def\<close>)
  have "set seen = (up_rel observer h)\<^sup>* `` ?N"
  proof
    show "set seen \<subseteq> (up_rel observer h)\<^sup>* `` ?N"
      using e by (simp add: extends_def)
    show "(up_rel observer h)\<^sup>* `` ?N \<subseteq> set seen"
      using closed e unfolding extends_def by blast
  qed
  with e show "set names = (up_rel observer h)\<^sup>* `` ?N" "sorted names" "distinct names"
    by (simp_all add: names extends_def)
qed

lemma related_members:
  assumes "related observer h start = Inr names"
  shows "start \<in> set names" and "(up_rel observer h)\<^sup>* `` set names \<subseteq> set names"
proof -
  show "start \<in> set names"
    unfolding related_set(1) [OF assms] by blast
  show "(up_rel observer h)\<^sup>* `` set names \<subseteq> set names"
    unfolding related_set(1) [OF assms] by (auto simp: Image_def intro: rtrancl_trans)
qed

text \<open>
  C14. What \<^verbatim>\<open>related\<close> returns, exactly: the device itself, its partitions, and everything these rest on
  through any number of partition and slave links; sorted, without duplicates, and \<^verbatim>\<open>related\<close> fails
  only with an error of the operating system or an unresolved device, never for lack of fuel.
\<close>

theorem related_closure:
  "case related observer h start of
     Inr names \<Rightarrow>
       set names = (up_rel observer h)\<^sup>* `` ({start} \<union> parts observer h start)
       \<and> sorted names \<and> distinct names
   | Inl err \<Rightarrow> \<exists>seen. walkRelated (walk_fuel h) observer h start True [] = Some (Some err, seen)"
proof (cases "related observer h start")
  case (Inl err)
  then show ?thesis
    using walk_fuel_enough [of h observer start True]
    by (auto simp: related_def split: option.splits)
next
  case (Inr names)
  with related_set [OF Inr] show ?thesis
    by simp
qed

section \<open>Targets and their identity\<close>

lemma Join_dev:
  assumes "ordinary name"
  shows "filepath_Join [deviceRoot, name] = abs_path [''dev'', name]"
proof -
  have "filepath_Clean (abs_path [''dev'', name]) = abs_path [''dev'', name]"
    using assms by (intro Clean_abs_path) auto
  then show ?thesis
    by (simp add: filepath_Join.simps deviceRoot_def abs_path_def)
qed

lemma dev_path_canonical:
  assumes "p = filepath_Join [deviceRoot, filepath_Base p]" and "filepath_Base p \<noteq> [slash]"
  shows "ordinary (filepath_Base p)" and "p = abs_path [''dev'', filepath_Base p]"
proof -
  have p: "p = filepath_Clean (''/dev/'' @ filepath_Base p)"
    using assms(1) by (simp add: filepath_Join.simps deviceRoot_def)
  have "filepath_IsAbs (''/dev/'' @ filepath_Base p)"
    by (simp add: filepath_IsAbs_def)
  with p obtain cs where cs: "p = abs_path cs" "\<And>c. c \<in> set cs \<Longrightarrow> ordinary c"
    by (metis Clean_abs)
  have "cs \<noteq> []"
    using assms(2) cs(1) by (auto simp: abs_path_def filepath_Base_def)
  then have base: "filepath_Base p = last cs"
    using Base_canonical [of cs] cs by simp
  then show "ordinary (filepath_Base p)"
    using cs(2) \<open>cs \<noteq> []\<close> by simp
  then show "p = abs_path [''dev'', filepath_Base p]"
    using assms(1) Join_dev by metis
qed

lemma sector_product: "0 \<le> n \<Longrightarrow> n \<le> max_int64 div sectorBytes \<Longrightarrow> wrap64 (n * sectorBytes) = n * sectorBytes"
  by (rule wrap64_id) (simp add: in_int64_def max_int64_def sectorBytes_def)

text \<open>
  C31. The identity that \<^verbatim>\<open>Target\<close> reads is that of the named device: its path is the canonical
  \<^verbatim>\<open>/dev/<name>\<close> form of the path given, its kernel name is the last component, its capacity is exactly
  512 bytes for each sector the kernel reports, without overflow, and its descendants include the
  device and are closed under the links to the devices they rest on.
\<close>

theorem Target_identity:
  assumes "Target observer h path = Inr t"
  shows "t_CanonicalPath t = ''/dev/'' @ t_KName t \<and> t_CanonicalPath t = filepath_Clean path
    \<and> ordinary (t_KName t)
    \<and> (\<exists>sys st sectors. blockPath observer h (t_KName t) = Inr sys
         \<and> readTrimmed h (filepath_Join [sys, ''size'']) = Inr st \<and> strconv_ParseInt10 st = Some sectors
         \<and> 0 \<le> sectors \<and> t_SizeBytes t = 512 * sectors \<and> t_SizeBytes t \<le> max_int64
         \<and> t_IsPartition t = stat_ok h (filepath_Join [sys, ''partition'']))
    \<and> t_KName t \<in> set (t_Descendants t) \<and> (up_rel observer h)\<^sup>* `` set (t_Descendants t) \<subseteq> set (t_Descendants t)"
proof -
  let ?c = "filepath_Clean path"
  let ?n = "filepath_Base ?c"
  have ok: "?c = filepath_Join [deviceRoot, ?n]" "?n \<noteq> [slash]"
    using assms by (auto simp: Target_def Let_def split: if_splits)
  obtain sys where sys: "blockPath observer h ?n = Inr sys"
    using assms by (auto simp: Target_def Let_def split: if_splits sum.splits)
  obtain st where st: "readTrimmed h (filepath_Join [sys, ''size'']) = Inr st"
    using assms sys by (auto simp: Target_def Let_def split: if_splits sum.splits)
  obtain n where n: "strconv_ParseInt10 st = Some n" "0 \<le> n" "n \<le> max_int64 div sectorBytes"
    using assms sys st by (auto simp: Target_def Let_def split: if_splits option.splits)
  obtain ds where ds: "related observer h ?n = Inr ds"
    using assms sys st n by (auto simp: Target_def Let_def split: if_splits sum.splits)
  have t: "t_CanonicalPath t = ?c" "t_KName t = ?n" "t_SizeBytes t = 512 * n" "t_Descendants t = ds"
      "t_IsPartition t = stat_ok h (filepath_Join [sys, ''partition''])"
    using assms sys st n ds sector_product [OF n(2,3)]
    by (auto simp: Target_def Let_def sectorBytes_def split: if_splits)
  have size: "512 * n \<le> max_int64"
    using n(3) by (simp add: max_int64_def sectorBytes_def)
  from related_members [OF ds] show ?thesis
    using dev_path_canonical [OF ok] sys st n(1,2) t size by (auto simp: abs_path_def)
qed


section \<open>A concrete host\<close>

text \<open>
  Two disks: \<^verbatim>\<open>vda\<close> with the partition \<^verbatim>\<open>vda1\<close>, on which the mapped device \<^verbatim>\<open>dm-0\<close> holds the root file
  system, and \<^verbatim>\<open>vdb\<close> with the partition \<^verbatim>\<open>vdb1\<close>, which nothing uses. The image lies on a tmpfs.
\<close>

definition text_lines :: "gostring list \<Rightarrow> gostring" where
  "text_lines ls = concat (map (\<lambda>l. l @ [newline]) ls)"

definition example_files :: "(gostring \<times> gostring) list" where
  "example_files =
     [(''/sys/class/block/vda/dev'', text_lines [''252:0'']),
      (''/sys/class/block/vda/size'', text_lines [''4194304'']),
      (''/sys/class/block/vda1/dev'', text_lines [''252:1'']),
      (''/sys/class/block/vda1/partition'', text_lines [''1'']),
      (''/sys/class/block/vda/vda1/partition'', text_lines [''1'']),
      (''/sys/class/block/vdb/dev'', text_lines [''252:16'']),
      (''/sys/class/block/vdb/size'', text_lines [''2097152'']),
      (''/sys/class/block/vdb/serial'', text_lines [''S1'']),
      (''/sys/class/block/vdb/wwid'', text_lines [''W1'']),
      (''/sys/class/block/vdb1/dev'', text_lines [''252:17'']),
      (''/sys/class/block/vdb1/partition'', text_lines [''1'']),
      (''/sys/class/block/vdb/vdb1/partition'', text_lines [''1'']),
      (''/sys/class/block/dm-0/dev'', text_lines [''253:0'']),
      (''/proc/self/mountinfo'', text_lines
         [''28 1 253:0 / / rw,relatime shared:1 - ext4 /dev/mapper/root rw'',
          ''29 28 0:25 / /run rw,nosuid - tmpfs tmpfs rw,size=1024k'']),
      (''/proc/swaps'', text_lines [''Filename Type Size Used Priority'']),
      (''/proc/meminfo'', text_lines [''MemTotal: 4000000 kB'', ''MemAvailable: 1048576 kB'']),
      (''/proc/sys/kernel/sysrq'', text_lines [''176''])]"

definition example_dirs :: "(gostring \<times> gostring list res) list" where
  "example_dirs =
     [(''/sys/class/block'', Inr [''vda'', ''vda1'', ''vdb'', ''vdb1'', ''dm-0'']),
      (''/sys/class/block/vda'', Inr [''dev'', ''size'', ''vda1'']),
      (''/sys/class/block/vda1'', Inr [''dev'', ''partition'']),
      (''/sys/class/block/vdb'', Inr [''vdb1'', ''dev'', ''size'', ''serial'', ''wwid'']),
      (''/sys/class/block/vdb1'', Inr [''dev'', ''partition'']),
      (''/sys/class/block/dm-0'', Inr [''dev'', ''slaves'']),
      (''/sys/class/block/dm-0/slaves'', Inr [''vda1''])]"

definition example_snapshot :: snapshot where
  "example_snapshot =
     \<lparr>s_open = (\<lambda>p. case map_of example_files p of
        None \<Rightarrow> Inl (Sentinel OsErrNotExist) | Some c \<Rightarrow> Inr (c, None)),
      s_dirs = example_dirs,
      s_stat = (\<lambda>p.
        if p = ''/run/image.raw'' then Inr \<lparr>fi_size = 4096, fi_perm = 0x124\<rparr>
        else if p = ''/proc/sysrq-trigger'' then Inr \<lparr>fi_size = 0, fi_perm = 0x80\<rparr>
        else if p \<in> set (map fst example_files) \<union> set (map fst example_dirs)
        then Inr \<lparr>fi_size = 4096, fi_perm = 0x124\<rparr>
        else Inl (Sentinel OsErrNotExist))\<rparr>"

definition example_observer :: observer where
  "example_observer = \<lparr>o_ProcRoot = ''/proc'', o_SysRoot = ''/sys''\<rparr>"

lemma example_Target: "Target example_observer example_snapshot ''/dev/vdb'' = Inr example_target"
  by code_simp

lemma example_related:
  "related example_observer example_snapshot ''dm-0'' = Inr [''dm-0'', ''vda'', ''vda1'']"
  by code_simp

theorem Target_identity_witness:
  "t_SizeBytes example_target \<le> max_int64
   \<and> t_KName example_target \<in> set (t_Descendants example_target)"
  using Target_identity [OF example_Target] by blast

end
