(* ===== verification/Procfs.thy ===== *)
theory Procfs
  imports Sysfs
begin

text \<open>
  The procfs half of internal/linux/observer.go: mount records, swap records, the disk under the root
  file system, the file system that holds the source, and the live-mode observations. A file is read
  line by line as \<^verbatim>\<open>bufio.Scanner\<close> does, with its limit on the length of a line.
\<close>

section \<open>Scanning lines\<close>

definition drop_cr :: "gostring \<Rightarrow> gostring" where
  "drop_cr l = (if l \<noteq> [] \<and> last l = CHR 0x0D then butlast l else l)"

definition raw_lines :: "bytes \<Rightarrow> gostring list" where
  "raw_lines content =
     (let ps = split_on newline content in if last ps = [] then butlast ps else ps)"

text \<open>
  The tokens a scanner delivers and the error it then reports. The buffer holds 65536 bytes, so a line
  of 65536 bytes or more ends the scan.
\<close>

definition scan_lines :: "bytes \<times> goerr option \<Rightarrow> gostring list \<times> goerr option" where
  "scan_lines file =
     (case file of
        (content, err) \<Rightarrow>
          (let raw = raw_lines content; fits = (\<lambda>l. int (length l) < 65536)
           in (map drop_cr (takeWhile fits raw),
               if list_all fits raw then err else Some (Sentinel BufioErrTooLong))))"

section \<open>Mount records\<close>

record mountRecord =
  m_device :: gostring
  m_mountpoint :: gostring
  m_filesystem :: gostring
  m_readOnly :: bool

abbreviation backslash :: char where
  "backslash \<equiv> CHR 0x5C"

text \<open>The replacer tries its four patterns at each position and goes on after what it replaced.\<close>

function unescapeMount :: "gostring \<Rightarrow> gostring" where
  "unescapeMount value =
     (case value of
        [] \<Rightarrow> []
      | c # cs \<Rightarrow>
          (if strings_HasPrefix value (backslash # ''040'') then CHR '' '' # unescapeMount (drop 3 cs)
           else if strings_HasPrefix value (backslash # ''011'') then CHR 0x09 # unescapeMount (drop 3 cs)
           else if strings_HasPrefix value (backslash # ''012'') then CHR 0x0A # unescapeMount (drop 3 cs)
           else if strings_HasPrefix value (backslash # ''134'') then backslash # unescapeMount (drop 3 cs)
           else c # unescapeMount cs))"
  by pat_completeness auto
termination
  by (relation "measure length") auto

declare unescapeMount.simps [simp del]

definition slices_Index :: "'a list \<Rightarrow> 'a \<Rightarrow> nat option" where
  "slices_Index xs x =
     (if x \<in> set xs then Some (length (takeWhile (\<lambda>y. y \<noteq> x) xs)) else None)"

definition containsOption :: "gostring \<Rightarrow> gostring \<Rightarrow> bool" where
  "containsOption options expected \<longleftrightarrow> expected \<in> set (split_on (CHR '','') options)"

definition parseMountRecord :: "gostring \<Rightarrow> mountRecord res" where
  "parseMountRecord line =
     (let fields = strings_Fields line;
          invalid = Inl (Errorf ''%w: mountinfo line %q'' [FQuote line] (Sentinel ErrInvalidProcfs))
      in case slices_Index fields ''-'' of
           None \<Rightarrow> invalid
         | Some separator \<Rightarrow>
             (if length fields < 6 \<or> separator + 3 \<ge> length fields then invalid
              else Inr \<lparr>m_device = fields ! 2,
                        m_mountpoint = unescapeMount (fields ! 4),
                        m_filesystem = fields ! (separator + 1),
                        m_readOnly = containsOption (fields ! 5) ''ro''
                                     \<or> containsOption (fields ! (separator + 3)) ''ro''\<rparr>))"

definition mounts :: "observer \<Rightarrow> snapshot \<Rightarrow> mountRecord list res" where
  "mounts observer h =
     (case s_open h (filepath_Join [o_ProcRoot observer, ''self'', ''mountinfo'']) of
        Inl err \<Rightarrow> Inl (Errorf ''open mountinfo: %w'' [] err)
      | Inr file \<Rightarrow>
          (case scan_lines file of
             (lines, scanErr) \<Rightarrow>
               (case res_map parseMountRecord lines of
                  Inl err \<Rightarrow> Inl err
                | Inr records \<Rightarrow>
                    (case scanErr of
                       Some err \<Rightarrow> Inl (Errorf ''scan mountinfo: %w'' [] err)
                     | None \<Rightarrow> Inr records))))"

section \<open>From device numbers to names\<close>

text \<open>The loop of \<^verbatim>\<open>nameByDeviceNumber\<close> over the top-level names.\<close>

fun device_loop :: "observer \<Rightarrow> snapshot \<Rightarrow> gostring \<Rightarrow> gostring list \<Rightarrow> gostring option res" where
  "device_loop observer h device [] = Inr None"
| "device_loop observer h device (parent # parents) =
     (let parentPath = filepath_Join [blockRoot observer, parent]
      in case os_ReadDir h parentPath of
           Inl err \<Rightarrow> Inl (Errorf ''read block device %q: %w'' [FQuote parentPath] err)
         | Inr children \<Rightarrow>
             (case find (\<lambda>path. readTrimmed h (filepath_Join [path, ''dev'']) = Inr device)
                     (parentPath # map (\<lambda>child. filepath_Join [parentPath, child]) children) of
                Some path \<Rightarrow> Inr (Some (filepath_Base path))
              | None \<Rightarrow> device_loop observer h device parents))"

definition nameByDeviceNumber :: "observer \<Rightarrow> snapshot \<Rightarrow> gostring \<Rightarrow> gostring option res" where
  "nameByDeviceNumber observer h device =
     (case topLevelNames observer h of
        Inl err \<Rightarrow> Inl err
      | Inr parents \<Rightarrow> device_loop observer h device parents)"

text \<open>The loop of \<^verbatim>\<open>BlockMountsReadOnly\<close>, with the flag \<^verbatim>\<open>found\<close>.\<close>

fun read_only_loop :: "observer \<Rightarrow> snapshot \<Rightarrow> bool \<Rightarrow> mountRecord list \<Rightarrow> bool res" where
  "read_only_loop observer h found [] = Inr found"
| "read_only_loop observer h found (mount # rest) =
     (case nameByDeviceNumber observer h (m_device mount) of
        Inl err \<Rightarrow> Inl err
      | Inr None \<Rightarrow> read_only_loop observer h found rest
      | Inr (Some _) \<Rightarrow>
          (if \<not> m_readOnly mount then Inr False else read_only_loop observer h True rest))"

definition BlockMountsReadOnly :: "observer \<Rightarrow> snapshot \<Rightarrow> bool res" where
  "BlockMountsReadOnly observer h =
     (case mounts observer h of
        Inl err \<Rightarrow> Inl err
      | Inr ms \<Rightarrow> read_only_loop observer h False ms)"

definition expand :: "observer \<Rightarrow> snapshot \<Rightarrow> gostring \<Rightarrow> device_map \<Rightarrow> device_map res" where
  "expand observer h name result =
     (case related observer h name of
        Inl err \<Rightarrow> Inl err
      | Inr devices \<Rightarrow> Inr (fold (\<lambda>device m. AList.update device True m) devices result))"

definition MountedDevices :: "observer \<Rightarrow> snapshot \<Rightarrow> device_map res" where
  "MountedDevices observer h =
     (case mounts observer h of
        Inl err \<Rightarrow> Inl err
      | Inr records \<Rightarrow>
          res_fold (\<lambda>record result.
              case nameByDeviceNumber observer h (m_device record) of
                Inl err \<Rightarrow> Inl err
              | Inr None \<Rightarrow> Inr result
              | Inr (Some name) \<Rightarrow> expand observer h name result) records [])"

section \<open>The source and the root disk\<close>

definition pathWithin :: "gostring \<Rightarrow> gostring \<Rightarrow> bool" where
  "pathWithin path mountpoint \<longleftrightarrow>
     (if mountpoint = [slash] then filepath_IsAbs path
      else path = mountpoint \<or> strings_HasPrefix path (mountpoint @ [slash]))"

text \<open>The record that the loop of \<^verbatim>\<open>Source\<close> leaves selected.\<close>

definition select_mount :: "gostring \<Rightarrow> mountRecord list \<Rightarrow> mountRecord option" where
  "select_mount cleaned records =
     fold (\<lambda>record selected.
             if pathWithin cleaned (m_mountpoint record)
                \<and> (case selected of
                     None \<Rightarrow> True
                   | Some s \<Rightarrow> length (m_mountpoint record) > length (m_mountpoint s))
             then Some record else selected) records None"

definition Source :: "observer \<Rightarrow> snapshot \<Rightarrow> gostring \<Rightarrow> (gostring \<times> gostring list) res" where
  "Source observer h path =
     (let cleaned = filepath_Clean path
      in if \<not> filepath_IsAbs cleaned
         then Inl (Errorf ''%w: source path must be absolute'' [] (Sentinel ErrInvalidBlockDevice))
         else case mounts observer h of
                Inl err \<Rightarrow> Inl err
              | Inr records \<Rightarrow>
                  (case select_mount cleaned records of
                     None \<Rightarrow> Inl (Errorf ''%w: no mount contains source %q'' [FQuote cleaned]
                                     (Sentinel ErrUnresolvedDevice))
                   | Some selected \<Rightarrow>
                       (case nameByDeviceNumber observer h (m_device selected) of
                          Inl err \<Rightarrow> Inl err
                        | Inr None \<Rightarrow> Inr (m_filesystem selected, [])
                        | Inr (Some name) \<Rightarrow>
                            (case related observer h name of
                               Inl err \<Rightarrow> Inl err
                             | Inr backing \<Rightarrow> Inr (m_filesystem selected, backing)))))"

definition physicalRootDisk :: "observer \<Rightarrow> snapshot \<Rightarrow> gostring \<Rightarrow> gostring res" where
  "physicalRootDisk observer h device =
     (case nameByDeviceNumber observer h device of
        Inl err \<Rightarrow> Inl (Errorf ''resolve root device %s: %w'' [FStr device] err)
      | Inr None \<Rightarrow> Inl (Errorf ''%w: root device %s'' [FStr device] (Sentinel ErrUnresolvedDevice))
      | Inr (Some name) \<Rightarrow>
          (case related observer h name of
             Inl err \<Rightarrow> Inl err
           | Inr devices \<Rightarrow>
               (case res_fold (\<lambda>candidate candidates.
                   case blockPath observer h candidate of
                     Inl err \<Rightarrow> Inl err
                   | Inr path \<Rightarrow>
                       (case sortedEntries h (filepath_Join [path, ''slaves'']) of
                          Inl err \<Rightarrow> Inl err
                        | Inr slaves \<Rightarrow>
                            Inr (if \<not> stat_ok h (filepath_Join [path, ''partition''])
                                    \<and> length slaves = 0 \<and> \<not> strings_HasPrefix candidate ''dm-''
                                 then candidates @ [candidate] else candidates))) devices [] of
                  Inl err \<Rightarrow> Inl err
                | Inr candidates \<Rightarrow>
                    (if length candidates \<noteq> 1
                     then Inl (Errorf ''%w: root resolves to %d physical disks''
                                 [FInt (int (length candidates))] (Sentinel ErrUnresolvedDevice))
                     else Inr (filepath_Join [deviceRoot, candidates ! 0])))))"

definition RootDisk :: "observer \<Rightarrow> snapshot \<Rightarrow> gostring res" where
  "RootDisk observer h =
     (case mounts observer h of
        Inl err \<Rightarrow> Inl err
      | Inr records \<Rightarrow>
          (case find (\<lambda>record. m_mountpoint record = [slash]) records of
             Some record \<Rightarrow> physicalRootDisk observer h (m_device record)
           | None \<Rightarrow> Inl (Errorf ''%w: root mount is absent from mountinfo'' []
                            (Sentinel ErrInvalidProcfs))))"

section \<open>Swap records\<close>

record swapRecord =
  w_source :: gostring
  w_kind :: gostring

definition parse_swap :: "gostring \<Rightarrow> swapRecord res" where
  "parse_swap line =
     (let fields = strings_Fields line
      in if length fields < 2
         then Inl (Errorf ''%w: swaps line %q'' [FQuote line] (Sentinel ErrInvalidProcfs))
         else Inr \<lparr>w_source = unescapeMount (fields ! 0), w_kind = fields ! 1\<rparr>)"

definition readSwapRecords :: "gostring \<Rightarrow> snapshot \<Rightarrow> swapRecord list res" where
  "readSwapRecords procRoot h =
     (case s_open h (filepath_Join [procRoot, ''swaps'']) of
        Inl err \<Rightarrow> Inl (Errorf ''open swaps: %w'' [] err)
      | Inr file \<Rightarrow>
          (case scan_lines file of
             (lines, scanErr) \<Rightarrow>
               (case res_map parse_swap (drop 1 lines) of
                  Inl err \<Rightarrow> Inl err
                | Inr records \<Rightarrow>
                    (case scanErr of
                       Some err \<Rightarrow> Inl (Errorf ''scan swaps: %w'' [] err)
                     | None \<Rightarrow> Inr records))))"

definition SwapDevices :: "observer \<Rightarrow> snapshot \<Rightarrow> device_map res" where
  "SwapDevices observer h =
     (case readSwapRecords (o_ProcRoot observer) h of
        Inl err \<Rightarrow> Inl err
      | Inr records \<Rightarrow>
          res_fold (\<lambda>record result.
              if w_kind record = ''partition''
              then expand observer h (filepath_Base (w_source record)) result
              else if w_kind record = ''file''
              then (case Source observer h (w_source record) of
                      Inl err \<Rightarrow> Inl (Errorf ''resolve swap file %q: %w'' [FQuote (w_source record)] err)
                    | Inr (_, backing) \<Rightarrow>
                        (if length backing = 0
                         then Inl (Errorf ''%w: block backing for swap file %q cannot be proven''
                                     [FQuote (w_source record)] (Sentinel ErrUnresolvedDevice))
                         else Inr (fold (\<lambda>name m. AList.update name True m) backing result)))
              else Inl (Errorf ''%w: unsupported swap type %q'' [FQuote (w_kind record)]
                          (Sentinel ErrInvalidProcfs))) records [])"

section \<open>Live observations\<close>

definition kilobyteBytes :: int where
  "kilobyteBytes = 1024"

text \<open>The loop of \<^verbatim>\<open>MemoryAvailableBytes\<close>; \<open>None\<close> when no line matches.\<close>

fun memory_loop :: "gostring list \<Rightarrow> int res option" where
  "memory_loop [] = None"
| "memory_loop (line # lines) =
     (let fields = strings_Fields line
      in if length fields = 3 \<and> fields ! 0 = ''MemAvailable:'' \<and> fields ! 2 = ''kB''
         then Some (case strconv_ParseInt10 (fields ! 1) of
                      None \<Rightarrow> Inl (Errorf ''%w: MemAvailable'' [] (Sentinel ErrInvalidProcfs))
                    | Some kilobytes \<Rightarrow>
                        (if kilobytes < 0
                         then Inl (Errorf ''%w: MemAvailable'' [] (Sentinel ErrInvalidProcfs))
                         else Inr (wrap64 (kilobytes * kilobyteBytes))))
         else memory_loop lines)"

definition MemoryAvailableBytes :: "observer \<Rightarrow> snapshot \<Rightarrow> int res" where
  "MemoryAvailableBytes observer h =
     (case s_open h (filepath_Join [o_ProcRoot observer, ''meminfo'']) of
        Inl err \<Rightarrow> Inl (Errorf ''open meminfo: %w'' [] err)
      | Inr file \<Rightarrow>
          (case scan_lines file of
             (lines, scanErr) \<Rightarrow>
               (case memory_loop lines of
                  Some result \<Rightarrow> result
                | None \<Rightarrow>
                    (case scanErr of
                       Some err \<Rightarrow> Inl (Errorf ''scan meminfo: %w'' [] err)
                     | None \<Rightarrow> Inl (Errorf ''%w: MemAvailable is absent'' []
                                       (Sentinel ErrInvalidProcfs))))))"

definition SysRqTriggerAvailable :: "observer \<Rightarrow> snapshot \<Rightarrow> bool res" where
  "SysRqTriggerAvailable observer h =
     (case readTrimmed h (filepath_Join [o_ProcRoot observer, ''sys'', ''kernel'', ''sysrq'']) of
        Inl err \<Rightarrow> Inl err
      | Inr _ \<Rightarrow>
          (case s_stat h (filepath_Join [o_ProcRoot observer, ''sysrq-trigger'']) of
             Inl err \<Rightarrow> Inl (Errorf ''stat SysRq trigger: %w'' [] err)
           | Inr info \<Rightarrow> Inr (fi_perm info AND 0x92 \<noteq> 0)))"


section \<open>Escaped mount points\<close>

text \<open>
  The kernel prints a mount point with spaces, tabs, newlines and backslashes as octal escapes.
\<close>

fun escape_mount :: "gostring \<Rightarrow> gostring" where
  "escape_mount [] = []"
| "escape_mount (c # cs) =
     (if c = CHR '' '' then backslash # ''040''
      else if c = CHR 0x09 then backslash # ''011''
      else if c = CHR 0x0A then backslash # ''012''
      else if c = backslash then backslash # ''134''
      else [c]) @ escape_mount cs"

lemma unescape_escaped: "unescapeMount (escape_mount s) = s"
proof (induction s)
  case (Cons c s)
  then show ?case
    by (subst unescapeMount.simps) auto
qed (simp add: unescapeMount.simps)

section \<open>Fields of a line\<close>

text \<open>A field of a line: not empty, and free of white space in any encoding.\<close>

definition plain_field :: "gostring \<Rightarrow> bool" where
  "plain_field f \<longleftrightarrow>
     f \<noteq> [] \<and> (\<forall>c \<in> set f. c \<notin> set ascii_spaces \<and> c \<notin> {CHR 0xC2, CHR 0xE1, CHR 0xE2, CHR 0xE3})"

lemma space_width_plain:
  "c \<notin> set ascii_spaces \<Longrightarrow> c \<notin> {CHR 0xC2, CHR 0xE1, CHR 0xE2, CHR 0xE3} \<Longrightarrow> space_width (c # cs) = 0"
  by (simp add: space_width_def)

lemma fields_from_plain:
  assumes "\<forall>c \<in> set f. c \<notin> set ascii_spaces \<and> c \<notin> {CHR 0xC2, CHR 0xE1, CHR 0xE2, CHR 0xE3}"
  shows "fields_from (f @ rest) run 0 = fields_from rest (rev f @ run) 0"
  using assms by (induction f arbitrary: run) (simp_all add: space_width_plain)

lemma Fields_join:
  assumes "\<forall>f \<in> set fs. plain_field f"
  shows "strings_Fields (join_with (CHR '' '') fs) = fs"
proof -
  have space: "space_width (CHR '' '' # cs) = 1" for cs
    by (simp add: space_width_def ascii_spaces_def)
  have "fields_from (join_with (CHR '' '') fs) [] 0 = fs"
    using assms
  proof (induction "CHR '' ''" fs rule: join_with.induct)
    case (2 f)
    then show ?case
      using fields_from_plain [of f "[]" "[]"] by (simp add: plain_field_def)
  next
    case (3 f g fs)
    then show ?case
      using fields_from_plain [of f "CHR '' '' # join_with (CHR '' '') (g # fs)" "[]"]
      by (simp add: plain_field_def space)
  qed simp
  then show ?thesis
    by (simp add: strings_Fields_def)
qed

lemma Index_append: "x \<notin> set a \<Longrightarrow> slices_Index (a @ x # b) x = Some (length a)"
  by (simp add: slices_Index_def)

text \<open>A line of mountinfo: the leading columns, the optional fields, the separator and the rest.\<close>

definition mount_line ::
  "gostring list \<Rightarrow> gostring \<Rightarrow> gostring list \<Rightarrow> gostring list \<Rightarrow> gostring" where
  "mount_line ids mountpoint options tail =
     join_with (CHR '' '') (ids @ escape_mount mountpoint # options @ ''-'' # tail)"

text \<open>
  C32. \<^verbatim>\<open>parseMountRecord\<close> reads the kernel's own format: from a line with the mount id, the parent id,
  the device number and the root, an escaped mount point, the mount options and any optional fields,
  the separator, and the file system type, source and super options, it takes the device number, the
  mount point as it was before escaping, the file system type, and whether either option list has
  \<^verbatim>\<open>ro\<close>. The fields must be \<open>plain_field\<close>: not empty, without ASCII white space and without the bytes C2, E1, E2
  and E3 that can begin other white space in UTF-8; and none before the separator may be a lone hyphen.
\<close>

theorem parse_mount_line:
  assumes "\<forall>f \<in> {a, b, dev, root, escape_mount mp, opts, fs, src, super} \<union> set optional. plain_field f"
    and "''-'' \<notin> {a, b, dev, root, escape_mount mp, opts} \<union> set optional"
  shows "parseMountRecord (mount_line [a, b, dev, root] mp (opts # optional) [fs, src, super])
    = Inr \<lparr>m_device = dev, m_mountpoint = mp, m_filesystem = fs,
           m_readOnly = containsOption opts ''ro'' \<or> containsOption super ''ro''\<rparr>"
proof -
  let ?pre = "[a, b, dev, root, escape_mount mp, opts] @ optional"
  have line: "mount_line [a, b, dev, root] mp (opts # optional) [fs, src, super]
      = join_with (CHR '' '') (?pre @ ''-'' # [fs, src, super])"
    by (simp add: mount_line_def)
  have dash: "plain_field ''-''"
    by (simp add: plain_field_def ascii_spaces_def)
  have fields: "strings_Fields (mount_line [a, b, dev, root] mp (opts # optional) [fs, src, super])
      = ?pre @ ''-'' # [fs, src, super]"
    unfolding line using assms(1) dash by (intro Fields_join) auto
  have sep: "slices_Index (?pre @ ''-'' # [fs, src, super]) ''-'' = Some (length ?pre)"
    using assms(2) by (intro Index_append) auto
  have nth: "(?pre @ ''-'' # [fs, src, super]) ! (length ?pre + 1) = fs"
      "(?pre @ ''-'' # [fs, src, super]) ! (length ?pre + 3) = super"
    by (simp_all only: nth_append) simp_all
  show ?thesis
    unfolding parseMountRecord_def Let_def fields sep option.case nth
    by (simp add: unescape_escaped)
qed


theorem parse_mount_line_witness:
  "parseMountRecord (mount_line [''28'', ''1'', ''253:0'', ''/''] ''/mnt/my disk'' [''rw'', ''shared:1'']
       [''ext4'', ''/dev/sda1'', ''ro'']) =
     Inr \<lparr>m_device = ''253:0'', m_mountpoint = ''/mnt/my disk'', m_filesystem = ''ext4'', m_readOnly = True\<rparr>"
proof -
  have "containsOption ''ro'' ''ro''"
    by code_simp
  then show ?thesis
    by (subst parse_mount_line) (auto simp: plain_field_def ascii_spaces_def)
qed

text \<open>
  White space that the kernel does not escape breaks the parse: a mount point with a no-break space
  (bytes C2 A0), which the kernel prints as it is, is split there by \<^verbatim>\<open>strings.Fields\<close>; the record then
  has the truncated mount point, and its rest is read as the mount options, so that a mount whose own
  options say read-only is reported writable.
\<close>

lemma parse_mount_unicode_space:
  "escape_mount (''/mnt/a'' @ [CHR 0xC2, CHR 0xA0] @ ''b'') = ''/mnt/a'' @ [CHR 0xC2, CHR 0xA0] @ ''b''
   \<and> parseMountRecord (mount_line [''28'', ''1'', ''8:1'', ''/''] (''/mnt/a'' @ [CHR 0xC2, CHR 0xA0] @ ''b'')
       [''ro''] [''ext4'', ''/dev/sda1'', ''rw'']) =
     Inr \<lparr>m_device = ''8:1'', m_mountpoint = ''/mnt/a'', m_filesystem = ''ext4'', m_readOnly = False\<rparr>"
  by code_simp

section \<open>The mount that holds a path\<close>

lemma join_with_append:
  "a \<noteq> [] \<Longrightarrow> b \<noteq> [] \<Longrightarrow> join_with c (a @ b) = join_with c a @ c # join_with c b"
  by (induction c a rule: join_with.induct) (auto simp: neq_Nil_conv)

lemma abs_path_root: "abs_path cs = [slash] \<longleftrightarrow> cs = [] \<or> cs = ['''']"
  by (cases "(slash, cs)" rule: join_with.cases) (auto simp: abs_path_def)

text \<open>On canonical paths, \<^verbatim>\<open>pathWithin\<close> is the prefix relation on path components.\<close>

lemma pathWithin_prefix:
  assumes "\<forall>c \<in> set cs. ordinary c" "\<forall>c \<in> set ms. ordinary c"
  shows "pathWithin (abs_path cs) (abs_path ms) \<longleftrightarrow> (\<exists>r. cs = ms @ r)"
proof (cases "ms = []")
  case True
  then show ?thesis
    by (simp add: pathWithin_def abs_path_def filepath_IsAbs_def)
next
  case False
  have "'''' \<notin> set ms"
    using assms(2) unfolding ordinary_def by blast
  with False have root: "abs_path ms \<noteq> [slash]"
    unfolding abs_path_root by force
  have "pathWithin (abs_path cs) (abs_path ms) \<longleftrightarrow> cs = ms \<or> (\<exists>s. abs_path cs = abs_path ms @ slash # s)"
    using root assms abs_path_inject [of cs ms] by (auto simp: pathWithin_def HasPrefix_iff)
  also have "(\<exists>s. abs_path cs = abs_path ms @ slash # s) \<longleftrightarrow> (\<exists>r. r \<noteq> [] \<and> cs = ms @ r)"
  proof
    assume "\<exists>s. abs_path cs = abs_path ms @ slash # s"
    then obtain s where s: "join_with slash cs = join_with slash ms @ slash # s"
      by (auto simp: abs_path_def)
    also have "\<dots> = join_with slash (ms @ split_on slash s)"
      using False by (simp add: join_with_append)
    finally have eq: "join_with slash cs = join_with slash (ms @ split_on slash s)" .
    have "cs \<noteq> []"
      using s by auto
    then have "cs = split_on slash (join_with slash cs)"
      using assms(1) by (subst split_join) (auto simp: ordinary_def)
    also have "\<dots> = ms @ split_on slash s"
      unfolding eq using assms(2) split_on_parts by (subst split_join) (auto simp: ordinary_def)
    finally show "\<exists>r. r \<noteq> [] \<and> cs = ms @ r"
      by auto
  next
    assume "\<exists>r. r \<noteq> [] \<and> cs = ms @ r"
    then show "\<exists>s. abs_path cs = abs_path ms @ slash # s"
      using False by (auto simp: abs_path_def join_with_append)
  qed
  finally show ?thesis
    by auto
qed

text \<open>The loop of \<^verbatim>\<open>Source\<close>: the first of the longest mount points that contain the path.\<close>

definition better :: "gostring \<Rightarrow> mountRecord option \<Rightarrow> mountRecord \<Rightarrow> bool" where
  "better p selected r \<longleftrightarrow>
     pathWithin p (m_mountpoint r)
     \<and> (case selected of None \<Rightarrow> True | Some s \<Rightarrow> length (m_mountpoint r) > length (m_mountpoint s))"

lemma select_mount_snoc:
  "select_mount p (rs @ [r]) = (if better p (select_mount p rs) r then Some r else select_mount p rs)"
  by (simp add: select_mount_def better_def)

lemma select_mount_None: "select_mount p rs = None \<longleftrightarrow> (\<forall>r \<in> set rs. \<not> pathWithin p (m_mountpoint r))"
  by (induction rs rule: rev_induct) (auto simp: select_mount_snoc better_def select_mount_def split: option.splits)

lemma select_mount_Some:
  assumes "select_mount p rs = Some r"
  shows "\<exists>before after. rs = before @ r # after \<and> pathWithin p (m_mountpoint r)
    \<and> (\<forall>x \<in> set before. pathWithin p (m_mountpoint x) \<longrightarrow> length (m_mountpoint x) < length (m_mountpoint r))
    \<and> (\<forall>x \<in> set after. pathWithin p (m_mountpoint x) \<longrightarrow> length (m_mountpoint x) \<le> length (m_mountpoint r))"
  using assms
proof (induction rs arbitrary: r rule: rev_induct)
  case Nil
  then show ?case
    by (simp add: select_mount_def)
next
  case (snoc x rs)
  show ?case
  proof (cases "better p (select_mount p rs) x")
    case new: True
    with snoc.prems have r: "r = x" "pathWithin p (m_mountpoint r)"
      by (auto simp: select_mount_snoc better_def)
    have "length (m_mountpoint y) < length (m_mountpoint r)" if "y \<in> set rs" "pathWithin p (m_mountpoint y)" for y
    proof (cases "select_mount p rs")
      case None
      with that show ?thesis
        by (simp add: select_mount_None)
    next
      case (Some s)
      obtain before after where "rs = before @ s # after"
        "\<forall>x \<in> set before. pathWithin p (m_mountpoint x) \<longrightarrow> length (m_mountpoint x) < length (m_mountpoint s)"
        "\<forall>x \<in> set after. pathWithin p (m_mountpoint x) \<longrightarrow> length (m_mountpoint x) \<le> length (m_mountpoint s)"
        using snoc.IH [OF Some] by blast
      then have "length (m_mountpoint y) \<le> length (m_mountpoint s)"
        using that by auto
      with new Some r(1) show ?thesis
        by (simp add: better_def)
    qed
    with r show ?thesis
      by (intro exI [of _ rs] exI [of _ "[]"]) auto
  next
    case old: False
    with snoc.prems have sel: "select_mount p rs = Some r"
      by (simp add: select_mount_snoc)
    obtain before after where ba: "rs = before @ r # after" "pathWithin p (m_mountpoint r)"
        "\<forall>x \<in> set before. pathWithin p (m_mountpoint x) \<longrightarrow> length (m_mountpoint x) < length (m_mountpoint r)"
        "\<forall>x \<in> set after. pathWithin p (m_mountpoint x) \<longrightarrow> length (m_mountpoint x) \<le> length (m_mountpoint r)"
      using snoc.IH [OF sel] by blast
    with old sel show ?thesis
      by (intro exI [of _ before] exI [of _ "after @ [x]"]) (auto simp: better_def)
  qed
qed


text \<open>The devices a named device rests on, as \<^verbatim>\<open>related\<close> returns them.\<close>

definition reach :: "observer \<Rightarrow> snapshot \<Rightarrow> gostring \<Rightarrow> gostring set" where
  "reach observer h name = (up_rel observer h)\<^sup>* `` ({name} \<union> parts observer h name)"

lemma related_reach: "related observer h name = Inr names \<Longrightarrow> set names = reach observer h name"
  unfolding reach_def by (rule related_set(1))

text \<open>
  C27. The file system and the backing devices that \<^verbatim>\<open>Source\<close> reports are those of one mount record: it
  contains the cleaned path, no other record that contains it has a longer mount point, and of those
  with an equally long one it is the first in mountinfo. The backing devices are everything the
  mount's block device rests on, and none exactly when its device number belongs to no block device.
\<close>

theorem Source_mount:
  assumes "Source observer h path = Inr (fs, backing)"
  shows "\<exists>before r after. mounts observer h = Inr (before @ r # after)
    \<and> filepath_IsAbs (filepath_Clean path) \<and> pathWithin (filepath_Clean path) (m_mountpoint r)
    \<and> (\<forall>x \<in> set before. pathWithin (filepath_Clean path) (m_mountpoint x)
          \<longrightarrow> length (m_mountpoint x) < length (m_mountpoint r))
    \<and> (\<forall>x \<in> set after. pathWithin (filepath_Clean path) (m_mountpoint x)
          \<longrightarrow> length (m_mountpoint x) \<le> length (m_mountpoint r))
    \<and> fs = m_filesystem r
    \<and> (nameByDeviceNumber observer h (m_device r) = Inr None \<and> backing = []
       \<or> (\<exists>name. nameByDeviceNumber observer h (m_device r) = Inr (Some name)
             \<and> set backing = reach observer h name))"
proof -
  from assms obtain records r where m: "mounts observer h = Inr records"
    and r: "select_mount (filepath_Clean path) records = Some r"
    and abs: "filepath_IsAbs (filepath_Clean path)" and fs: "fs = m_filesystem r"
    and b: "nameByDeviceNumber observer h (m_device r) = Inr None \<and> backing = []
       \<or> (\<exists>name. nameByDeviceNumber observer h (m_device r) = Inr (Some name)
             \<and> related observer h name = Inr backing)"
    by (auto simp: Source_def Let_def split: if_splits sum.splits option.splits)
  from select_mount_Some [OF r] m abs fs b related_reach show ?thesis
    by fastforce
qed

section \<open>Mounted and swap devices\<close>

lemma res_fold_union:
  assumes "res_fold f xs s = Inr t" and "\<And>x s t. x \<in> set xs \<Longrightarrow> f x s = Inr t \<Longrightarrow> A t = A s \<union> B x"
  shows "A t = A s \<union> (\<Union>x \<in> set xs. B x)"
  using assms
proof (induction xs arbitrary: s)
  case (Cons x xs)
  then obtain u where u: "f x s = Inr u" "res_fold f xs u = Inr t"
    by (auto split: sum.splits)
  have "A t = A u \<union> (\<Union>x \<in> set xs. B x)"
    using Cons.IH u(2) Cons.prems(2) by simp
  moreover have "A u = A s \<union> B x"
    using Cons.prems(2) u(1) by simp
  ultimately show ?case
    by auto
qed simp

lemma active_fold_update: "active (fold (\<lambda>d m. AList.update d True m) ds m) = active m \<union> set ds"
  by (induction ds arbitrary: m) (auto simp: active_update)

lemma expand_active: "expand observer h name m = Inr m' \<Longrightarrow> active m' = active m \<union> reach observer h name"
  by (auto simp: expand_def active_fold_update related_reach split: sum.splits)

text \<open>The names of the block devices that the mounts of a host resolve to.\<close>

definition mounted_names :: "observer \<Rightarrow> snapshot \<Rightarrow> mountRecord list \<Rightarrow> gostring set" where
  "mounted_names observer h records =
     {name. \<exists>r \<in> set records. nameByDeviceNumber observer h (m_device r) = Inr (Some name)}"

lemma MountedDevices_active:
  assumes "MountedDevices observer h = Inr m"
  shows "\<exists>records. mounts observer h = Inr records
    \<and> active m = (\<Union>name \<in> mounted_names observer h records. reach observer h name)"
proof -
  obtain records where r: "mounts observer h = Inr records"
    using assms by (auto simp: MountedDevices_def split: sum.splits)
  let ?B = "\<lambda>record. case nameByDeviceNumber observer h (m_device record) of
      Inr (Some name) \<Rightarrow> reach observer h name | _ \<Rightarrow> {}"
  let ?f = "\<lambda>record result. case nameByDeviceNumber observer h (m_device record) of
      Inl err \<Rightarrow> Inl err | Inr None \<Rightarrow> Inr result | Inr (Some name) \<Rightarrow> expand observer h name result"
  have "res_fold ?f records [] = Inr m"
    using assms r by (simp add: MountedDevices_def)
  then have "active m = active [] \<union> (\<Union>x \<in> set records. ?B x)"
    by (rule res_fold_union) (auto split: sum.splits option.splits dest: expand_active)
  also have "\<dots> = (\<Union>name \<in> mounted_names observer h records. reach observer h name)"
    unfolding mounted_names_def active_def
    by (auto split: sum.splits option.splits) blast
  finally show ?thesis
    using r by blast
qed

text \<open>
  C26. What \<^verbatim>\<open>MountedDevices\<close> returns, exactly: for every mount record whose device number belongs to a
  block device, that device with its partitions and everything they rest on, and nothing else.
\<close>

theorem MountedDevices_exact:
  assumes "MountedDevices observer h = Inr m"
  shows "\<exists>records. mounts observer h = Inr records
    \<and> (\<forall>d. (d, True) \<in> set m \<longleftrightarrow>
         (\<exists>r \<in> set records. \<exists>name. nameByDeviceNumber observer h (m_device r) = Inr (Some name)
            \<and> d \<in> reach observer h name))"
proof -
  obtain records where r: "mounts observer h = Inr records"
    and act: "active m = (\<Union>name \<in> mounted_names observer h records. reach observer h name)"
    using MountedDevices_active [OF assms] by blast
  have "(d, True) \<in> set m \<longleftrightarrow> d \<in> active m" for d
    by (simp add: active_def)
  then show ?thesis
    unfolding act mounted_names_def using r by blast
qed

lemma SwapDevices_partition:
  assumes "SwapDevices observer h = Inr m" "readSwapRecords (o_ProcRoot observer) h = Inr records"
    and "r \<in> set records" "w_kind r = ''partition''"
  shows "reach observer h (filepath_Base (w_source r)) \<subseteq> active m"
proof -
  let ?B = "\<lambda>r. if w_kind r = ''partition'' then reach observer h (filepath_Base (w_source r))
      else (case Source observer h (w_source r) of Inl _ \<Rightarrow> {} | Inr (_, backing) \<Rightarrow> set backing)"
  have "active m = active [] \<union> (\<Union>x \<in> set records. ?B x)"
    using assms(1) unfolding SwapDevices_def assms(2) sum.case
    by (rule res_fold_union)
       (auto split: if_splits sum.splits simp: active_fold_update dest: expand_active)
  then show ?thesis
    using assms(3,4) by force
qed

text \<open>
  C28. When \<^verbatim>\<open>BlockMountsReadOnly\<close> says yes, at least one mount is backed by a block device and every
  mount that is backed by one is read-only.
\<close>

theorem BlockMountsReadOnly_sound:
  assumes "BlockMountsReadOnly observer h = Inr True"
  shows "\<exists>ms. mounts observer h = Inr ms
    \<and> (\<exists>m \<in> set ms. \<exists>name. nameByDeviceNumber observer h (m_device m) = Inr (Some name))
    \<and> (\<forall>m \<in> set ms. nameByDeviceNumber observer h (m_device m) = Inr None \<or> m_readOnly m)"
proof -
  obtain ms where ms: "mounts observer h = Inr ms" "read_only_loop observer h False ms = Inr True"
    using assms by (auto simp: BlockMountsReadOnly_def split: sum.splits)
  have "(found \<or> (\<exists>m \<in> set ms. \<exists>name. nameByDeviceNumber observer h (m_device m) = Inr (Some name)))
    \<and> (\<forall>m \<in> set ms. nameByDeviceNumber observer h (m_device m) = Inr None \<or> m_readOnly m)"
    if "read_only_loop observer h found ms = Inr True" for found
    using that by (induction ms arbitrary: found) (auto split: sum.splits option.splits if_splits)
  from this [OF ms(2)] ms(1) show ?thesis
    by blast
qed

section \<open>Memory\<close>

text \<open>A line of meminfo that \<^verbatim>\<open>MemoryAvailableBytes\<close> reads the number from.\<close>

definition memory_line :: "gostring \<Rightarrow> bool" where
  "memory_line line \<longleftrightarrow> (case strings_Fields line of [name, value, unit] \<Rightarrow> name = ''MemAvailable:'' \<and> unit = ''kB'' | _ \<Rightarrow> False)"

lemma memory_line_fields:
  "memory_line line \<longleftrightarrow> length (strings_Fields line) = 3 \<and> strings_Fields line ! 0 = ''MemAvailable:''
     \<and> strings_Fields line ! 2 = ''kB''"
  by (auto simp: memory_line_def numeral_eq_Suc length_Suc_conv split: list.splits)

lemma memory_loop_Inr:
  "memory_loop lines = Some (Inr m) \<Longrightarrow> \<exists>before line after kb. lines = before @ line # after
     \<and> \<not> list_ex memory_line before \<and> memory_line line
     \<and> strconv_ParseInt10 (strings_Fields line ! 1) = Some kb \<and> 0 \<le> kb \<and> m = wrap64 (1024 * kb)"
proof (induction lines)
  case (Cons line lines)
  show ?case
  proof (cases "memory_line line")
    case True
    with Cons.prems obtain kb where "strconv_ParseInt10 (strings_Fields line ! 1) = Some kb" "0 \<le> kb"
        "m = wrap64 (1024 * kb)"
      by (auto simp: memory_line_fields Let_def kilobyteBytes_def mult.commute split: option.splits if_splits)
    with True show ?thesis
      by (intro exI [of _ "[]"] exI [of _ line] exI [of _ lines] exI [of _ kb]) simp
  next
    case False
    then have "memory_loop lines = Some (Inr m)"
      using Cons.prems by (auto simp: memory_line_fields Let_def split: if_splits)
    from Cons.IH [OF this] obtain before l after kb where "lines = before @ l # after"
        "\<not> list_ex memory_line before" "memory_line l"
        "strconv_ParseInt10 (strings_Fields l ! 1) = Some kb" "0 \<le> kb" "m = wrap64 (1024 * kb)"
      by blast
    with False show ?thesis
      by (intro exI [of _ "line # before"] exI [of _ l] exI [of _ after] exI [of _ kb]) simp
  qed
qed simp

lemma wrap64_exact: "in_int64 n \<Longrightarrow> wrap64 n = n"
  by (simp add: wrap64_def in_int64_def)

text \<open>
  C36. \<^verbatim>\<open>MemoryAvailableBytes\<close> is exact: when it returns a number, that number is 1024 times the value of
  the first line of meminfo that has the three fields \<^verbatim>\<open>MemAvailable:\<close>, a value that is a 64-bit integer
  and not negative, and \<^verbatim>\<open>kB\<close>, provided that the value is below 2 to the 53, that is 8 exbibytes.
\<close>

theorem MemoryAvailableBytes_exact:
  assumes "MemoryAvailableBytes observer h = Inr m"
  shows "\<exists>file before line after kb.
    s_open h (filepath_Join [o_ProcRoot observer, ''meminfo'']) = Inr file
    \<and> fst (scan_lines file) = before @ line # after
    \<and> \<not> list_ex memory_line before \<and> memory_line line
    \<and> strconv_ParseInt10 (strings_Fields line ! 1) = Some kb \<and> 0 \<le> kb
    \<and> (kb < 2 ^ 53 \<longrightarrow> m = 1024 * kb)"
proof -
  obtain stream where opened: "s_open h (filepath_Join [o_ProcRoot observer, ''meminfo'']) = Inr stream"
      "memory_loop (fst (scan_lines stream)) = Some (Inr m)"
    using assms by (auto simp: MemoryAvailableBytes_def split: sum.splits prod.splits option.splits)
  obtain before line after kb where l: "fst (scan_lines stream) = before @ line # after"
      "\<not> list_ex memory_line before" "memory_line line"
      "strconv_ParseInt10 (strings_Fields line ! 1) = Some kb" "0 \<le> kb" "m = wrap64 (1024 * kb)"
    using memory_loop_Inr [OF opened(2)] by blast
  have "kb < 2 ^ 53 \<longrightarrow> m = 1024 * kb"
    unfolding l(6) using l(5) by (auto intro!: wrap64_exact simp: in_int64_def)
  with opened(1) l show ?thesis
    by blast
qed

text \<open>The multiplication is not bounded: one line beyond that bound, and the product wraps.\<close>

lemma memory_wraps:
  "memory_loop [''MemAvailable: 9007199254740992 kB''] = Some (Inr (- 9223372036854775808))
   \<and> memory_loop [''MemAvailable: 9007199254740991 kB''] = Some (Inr 9223372036854774784)"
  by code_simp


section \<open>Observations of the concrete host\<close>

lemma example_mounts:
  "mounts example_observer example_snapshot = Inr
    [\<lparr>m_device = ''253:0'', m_mountpoint = ''/'', m_filesystem = ''ext4'', m_readOnly = False\<rparr>,
     \<lparr>m_device = ''0:25'', m_mountpoint = ''/run'', m_filesystem = ''tmpfs'', m_readOnly = False\<rparr>]"
  by code_simp

lemma example_names:
  "nameByDeviceNumber example_observer example_snapshot ''253:0'' = Inr (Some ''dm-0'')"
  "nameByDeviceNumber example_observer example_snapshot ''0:25'' = Inr None"
  by code_simp+

lemma example_MountedDevices:
  "MountedDevices example_observer example_snapshot = Inr [(''dm-0'', True), (''vda'', True), (''vda1'', True)]"
  by (simp add: MountedDevices_def example_mounts example_names expand_def example_related)

lemma example_SwapDevices: "SwapDevices example_observer example_snapshot = Inr []"
  by code_simp

lemma example_Source: "Source example_observer example_snapshot ''/run/image.raw'' = Inr (''tmpfs'', [])"
proof -
  have "filepath_Clean ''/run/image.raw'' = ''/run/image.raw''" "filepath_IsAbs ''/run/image.raw''"
    by code_simp+
  then show ?thesis
    by (simp add: Source_def Let_def example_mounts select_mount_def pathWithin_def example_names)
qed

lemma example_live:
  "MemoryAvailableBytes example_observer example_snapshot = Inr 1073741824"
  "SysRqTriggerAvailable example_observer example_snapshot = Inr True"
  by code_simp+

text \<open>The same host after its root file system became read-only.\<close>

definition example_ro_snapshot :: snapshot where
  "example_ro_snapshot = example_snapshot
     \<lparr>s_open := (\<lambda>p. if p = ''/proc/self/mountinfo''
        then Inr (text_lines [''28 1 253:0 / / ro,relatime shared:1 - ext4 /dev/mapper/root rw'',
                              ''29 28 0:25 / /run rw,nosuid - tmpfs tmpfs rw,size=1024k''], None)
        else s_open example_snapshot p)\<rparr>"

lemma example_BlockMountsReadOnly:
  "BlockMountsReadOnly example_observer example_ro_snapshot = Inr True"
  "BlockMountsReadOnly example_observer example_snapshot = Inr False"
proof -
  have m: "mounts example_observer example_ro_snapshot = Inr
    [\<lparr>m_device = ''253:0'', m_mountpoint = ''/'', m_filesystem = ''ext4'', m_readOnly = True\<rparr>,
     \<lparr>m_device = ''0:25'', m_mountpoint = ''/run'', m_filesystem = ''tmpfs'', m_readOnly = False\<rparr>]"
    by code_simp
  have n: "nameByDeviceNumber example_observer example_ro_snapshot ''253:0'' = Inr (Some ''dm-0'')"
    "nameByDeviceNumber example_observer example_ro_snapshot ''0:25'' = Inr None"
    by code_simp+
  show "BlockMountsReadOnly example_observer example_ro_snapshot = Inr True"
    by (simp add: BlockMountsReadOnly_def m n)
  show "BlockMountsReadOnly example_observer example_snapshot = Inr False"
    by (simp add: BlockMountsReadOnly_def example_mounts example_names)
qed

theorem Source_mount_witness:
  "\<exists>before r after. mounts example_observer example_snapshot = Inr (before @ r # after)
    \<and> pathWithin (filepath_Clean ''/run/image.raw'') (m_mountpoint r) \<and> ''tmpfs'' = m_filesystem r"
  using Source_mount [OF example_Source] by blast

theorem MountedDevices_exact_witness:
  "\<exists>records. mounts example_observer example_snapshot = Inr records
    \<and> (\<exists>r \<in> set records. \<exists>name.
         nameByDeviceNumber example_observer example_snapshot (m_device r) = Inr (Some name)
         \<and> ''vda'' \<in> reach example_observer example_snapshot name)"
proof -
  have "(''vda'', True) \<in> set [(''dm-0'', True), (''vda'', True), (''vda1'', True)]"
    by simp
  then show ?thesis
    using MountedDevices_exact [OF example_MountedDevices] by metis
qed

theorem BlockMountsReadOnly_sound_witness:
  "\<exists>ms. mounts example_observer example_ro_snapshot = Inr ms
    \<and> (\<exists>m \<in> set ms. \<exists>name. nameByDeviceNumber example_observer example_ro_snapshot (m_device m) = Inr (Some name))"
  using BlockMountsReadOnly_sound [OF example_BlockMountsReadOnly(1)] by blast


theorem MemoryAvailableBytes_exact_witness:
  "\<exists>line kb. memory_line line \<and> strconv_ParseInt10 (strings_Fields line ! 1) = Some kb \<and> 0 \<le> kb
    \<and> (kb < 2 ^ 53 \<longrightarrow> 1073741824 = 1024 * kb)"
  using MemoryAvailableBytes_exact [OF example_live(1)] by blast

end
