(* ===== verification/Go_IO.thy ===== *)
theory Go_IO
  imports Go_Error
begin

text \<open>
  Readers, writers and the copy loop of package io, with contexts. A reader is the script of what
  its successive reads will yield: chunks of data, which a read returns whole or in buffer-sized
  pieces, and possibly a final error that comes with the last bytes before it; the end of the script
  is \<^verbatim>\<open>io.EOF\<close>. Scripts make arbitrary short reads and read failures explicit. A context that may be
  cancelled is a countdown over the points at which the program asks it.
\<close>

section \<open>Contexts\<close>

text \<open>
  \<open>ctx_left = None\<close> is a context that is never cancelled; \<open>Some k\<close> is one that is found cancelled
  after \<open>k\<close> more checks, and from then on.
\<close>

record goctx =
  ctx_left :: "nat option"
  ctx_deadline :: bool

definition ctx_error :: "goctx \<Rightarrow> goerr" where
  "ctx_error c = Sentinel (if ctx_deadline c then ContextDeadlineExceeded else ContextCanceled)"

definition ctx_Err :: "goctx \<Rightarrow> goerr option \<times> goctx" where
  "ctx_Err c =
     (case ctx_left c of
        None \<Rightarrow> (None, c)
      | Some 0 \<Rightarrow> (Some (ctx_error c), c)
      | Some (Suc k) \<Rightarrow> (None, c\<lparr>ctx_left := Some k\<rparr>))"

section \<open>Readers\<close>

datatype chunk =
    Data bytes
  | Final bytes goerr

type_synonym script = "chunk list"

definition EOF :: goerr where
  "EOF = Sentinel IoEOF"

text \<open>One \<^verbatim>\<open>Read\<close> with a buffer of \<open>n\<close> bytes: the bytes, the error, the rest.\<close>

fun script_Read :: "nat \<Rightarrow> script \<Rightarrow> bytes \<times> goerr option \<times> script" where
  "script_Read n [] = ([], Some EOF, [])"
| "script_Read n (Data bs # r) =
     (if length bs \<le> n then (bs, None, r) else (take n bs, None, Data (drop n bs) # r))"
| "script_Read n (Final bs e # r) =
     (if length bs \<le> n then (bs, Some e, [Final [] e])
      else (take n bs, None, Final (drop n bs) e # r))"

text \<open>
  A reader with an optional context (the \<^verbatim>\<open>contextReader\<close> of write.go) and an optional limit (an
  \<^verbatim>\<open>io.LimitReader\<close> around it).
\<close>

record reader =
  rd_ctx :: "goctx option"
  rd_script :: script
  rd_limit :: "int option"

definition plain_reader :: "script \<Rightarrow> reader" where
  "plain_reader s = \<lparr>rd_ctx = None, rd_script = s, rd_limit = None\<rparr>"

definition context_Read :: "nat \<Rightarrow> reader \<Rightarrow> bytes \<times> goerr option \<times> reader" where
  "context_Read n r =
     (case rd_ctx r of
        None \<Rightarrow>
          (case script_Read n (rd_script r) of (p, e, s) \<Rightarrow> (p, e, r\<lparr>rd_script := s\<rparr>))
      | Some c \<Rightarrow>
          (case ctx_Err c of
             (Some e, c') \<Rightarrow> ([], Some e, r\<lparr>rd_ctx := Some c'\<rparr>)
           | (None, c') \<Rightarrow>
               (case script_Read n (rd_script r) of
                  (p, e, s) \<Rightarrow> (p, e, r\<lparr>rd_ctx := Some c', rd_script := s\<rparr>))))"

definition reader_Read :: "nat \<Rightarrow> reader \<Rightarrow> bytes \<times> goerr option \<times> reader" where
  "reader_Read n r =
     (case rd_limit r of
        None \<Rightarrow> context_Read n r
      | Some left \<Rightarrow>
          (if left \<le> 0 then ([], Some EOF, r)
           else (case context_Read (if int n > left then nat left else n) r of
                   (p, e, r') \<Rightarrow> (p, e, r'\<lparr>rd_limit := Some (left - int (length p))\<rparr>))))"

definition io_LimitReader :: "reader \<Rightarrow> int \<Rightarrow> reader" where
  "io_LimitReader r n = r\<lparr>rd_limit := Some n\<rparr>"

section \<open>Progress of reads\<close>

fun chunk_weight :: "chunk \<Rightarrow> nat" where
  "chunk_weight (Data bs) = Suc (length bs)"
| "chunk_weight (Final bs e) = Suc (length bs)"

definition script_weight :: "script \<Rightarrow> nat" where
  "script_weight s = sum_list (map chunk_weight s)"

lemma script_Read_weight:
  "script_Read n s = (p, None, s') \<Longrightarrow> 0 < n \<Longrightarrow> script_weight s' < script_weight s"
  by (cases "(n, s)" rule: script_Read.cases)
     (auto simp: script_weight_def split: if_splits)

lemma context_Read_weight:
  "context_Read n r = (p, None, r') \<Longrightarrow> 0 < n \<Longrightarrow>
   script_weight (rd_script r') < script_weight (rd_script r)"
  by (auto simp: context_Read_def split: option.splits prod.splits dest: script_Read_weight)

lemma reader_Read_weight:
  assumes "reader_Read n r = (p, None, r')" "0 < n"
  shows "script_weight (rd_script r') < script_weight (rd_script r)"
proof (cases "rd_limit r")
  case None
  with assms show ?thesis
    by (auto simp: reader_Read_def dest: context_Read_weight)
next
  case (Some left)
  with assms show ?thesis
    by (auto simp: reader_Read_def split: if_splits prod.splits dest!: context_Read_weight)
qed

section \<open>Reading a whole buffer\<close>

text \<open>\<^verbatim>\<open>io.ReadFull\<close> with \<open>n\<close> bytes still to read and \<open>acc\<close> the bytes read so far.\<close>

function read_full :: "nat \<Rightarrow> reader \<Rightarrow> bytes \<Rightarrow> bytes \<times> goerr option \<times> reader" where
  "read_full n r acc =
     (if n = 0 then (acc, None, r)
      else case reader_Read n r of
             (p, er, r') \<Rightarrow>
               (let acc' = acc @ p
                in case er of
                     None \<Rightarrow> read_full (n - length p) r' acc'
                   | Some e \<Rightarrow>
                       (if n \<le> length p then (acc', None, r')
                        else if acc' \<noteq> [] \<and> e = EOF
                        then (acc', Some (Sentinel IoErrUnexpectedEOF), r')
                        else (acc', Some e, r'))))"
  by pat_completeness auto
termination
  by (relation "measure (\<lambda>(n, r, acc). script_weight (rd_script r))")
     (auto dest: reader_Read_weight [OF sym])

declare read_full.simps [simp del]

section \<open>The copy loop\<close>

text \<open>
  What the loop makes of the count and the error of one \<^verbatim>\<open>Write\<close> of \<open>p\<close>: an impossible count is
  an invalid write, a count below the length without an error a short write.
\<close>

definition checked_write :: "bytes \<Rightarrow> int \<times> goerr option \<Rightarrow> int \<times> goerr option" where
  "checked_write p result =
     (case result of
        (count, werr) \<Rightarrow>
          (let bad = (count < 0 \<or> int (length p) < count);
               nw = (if bad then 0 else count);
               ew = (if bad \<and> werr = None then Some (Sentinel IoErrInvalidWrite) else werr)
           in (nw, case ew of
                     Some e \<Rightarrow> Some e
                   | None \<Rightarrow>
                       (if int (length p) \<noteq> nw then Some (Sentinel IoErrShortWrite) else None))))"

text \<open>
  \<^verbatim>\<open>io.CopyBuffer\<close> with a buffer of \<open>n\<close> bytes. The writer is a state with a write function that
  returns the count and the error of one \<^verbatim>\<open>Write\<close>.
\<close>

function copy_loop ::
  "('w \<Rightarrow> bytes \<Rightarrow> (int \<times> goerr option) \<times> 'w) \<Rightarrow> nat \<Rightarrow> reader \<Rightarrow> 'w \<Rightarrow> int
   \<Rightarrow> int \<times> goerr option \<times> reader \<times> 'w" where
  "copy_loop wr n r w written =
     (if n = 0 then (written, Some (Opaque ''empty buffer in CopyBuffer''), r, w)
      else case reader_Read n r of
             (p, er, r') \<Rightarrow>
               (if p = []
                then (case er of
                        None \<Rightarrow> copy_loop wr n r' w written
                      | Some e \<Rightarrow> (written, if e = EOF then None else Some e, r', w))
                else case wr w p of
                       (result, w') \<Rightarrow>
                         (case checked_write p result of
                            (nw, Some e) \<Rightarrow> (written + nw, Some e, r', w')
                          | (nw, None) \<Rightarrow>
                              (case er of
                                 None \<Rightarrow> copy_loop wr n r' w' (written + nw)
                               | Some e \<Rightarrow>
                                   (written + nw, if e = EOF then None else Some e, r', w')))))"
  by pat_completeness auto
termination
  by (relation "measure (\<lambda>(wr, n, r, w, written). script_weight (rd_script r))")
     (auto dest: reader_Read_weight [OF sym])

declare copy_loop.simps [simp del]

section \<open>What a reader still holds\<close>

fun script_data :: "script \<Rightarrow> bytes" where
  "script_data [] = []"
| "script_data (Data bs # r) = bs @ script_data r"
| "script_data (Final bs e # r) = bs"

text \<open>The error that ends the script.\<close>

fun script_end :: "script \<Rightarrow> goerr" where
  "script_end [] = EOF"
| "script_end (Data bs # r) = script_end r"
| "script_end (Final bs e # r) = e"

lemma script_Read_data:
  assumes "script_Read n s = (p, e, s')"
  shows "script_data s = p @ script_data s'" and "script_end s' = script_end s" and "length p \<le> n"
    and "e = Some x \<Longrightarrow> x = script_end s \<and> script_data s' = []"
  using assms
  by (cases "(n, s)" rule: script_Read.cases; auto split: if_splits)+

definition reader_data :: "reader \<Rightarrow> bytes" where
  "reader_data r =
     (case rd_limit r of
        None \<Rightarrow> script_data (rd_script r)
      | Some left \<Rightarrow> take (nat left) (script_data (rd_script r)))"

lemma ctx_Err_error: "ctx_Err c = (Some e, c') \<Longrightarrow> e \<noteq> EOF \<and> e = ctx_error c"
  by (auto simp: ctx_Err_def ctx_error_def EOF_def split: option.splits nat.splits)

lemma ctx_error_not_EOF [simp]: "ctx_error c \<noteq> EOF" "EOF \<noteq> ctx_error c"
  by (simp_all add: ctx_error_def EOF_def)

lemma context_Read_cases:
  assumes "context_Read n r = (p, e, r')"
  obtains
    (cancelled) c where "p = []" "e = Some (ctx_error c)" "rd_script r' = rd_script r"
      "rd_limit r' = rd_limit r"
  | (read) "script_Read n (rd_script r) = (p, e, rd_script r')" "rd_limit r' = rd_limit r"
proof (cases "rd_ctx r")
  case None
  with assms read show thesis
    by (cases "script_Read n (rd_script r)") (auto simp: context_Read_def)
next
  case (Some c)
  obtain x c' where c: "ctx_Err c = (x, c')"
    by fastforce
  show thesis
  proof (cases x)
    case None
    with assms Some c read show ?thesis
      by (cases "script_Read n (rd_script r)") (auto simp: context_Read_def)
  next
    case err: (Some y)
    with c have "y = ctx_error c"
      using ctx_Err_error by blast
    with assms Some c err cancelled [of c] show ?thesis
      by (auto simp: context_Read_def)
  qed
qed

lemma context_Read_data:
  assumes "context_Read n r = (p, e, r')"
  shows "script_data (rd_script r) = p @ script_data (rd_script r')"
    and "script_end (rd_script r') = script_end (rd_script r)"
    and "rd_limit r' = rd_limit r" and "length p \<le> n"
    and "e = Some EOF \<Longrightarrow> script_end (rd_script r) = EOF \<and> script_data (rd_script r') = []"
proof -
  from assms have "script_data (rd_script r) = p @ script_data (rd_script r')
    \<and> script_end (rd_script r') = script_end (rd_script r) \<and> rd_limit r' = rd_limit r
    \<and> length p \<le> n
    \<and> (e = Some EOF \<longrightarrow> script_end (rd_script r) = EOF \<and> script_data (rd_script r') = [])"
  proof (cases rule: context_Read_cases)
    case read
    with script_Read_data [OF read(1)] show ?thesis
      by auto
  qed auto
  then show "script_data (rd_script r) = p @ script_data (rd_script r')"
    and "script_end (rd_script r') = script_end (rd_script r)"
    and "rd_limit r' = rd_limit r" and "length p \<le> n"
    and "e = Some EOF \<Longrightarrow> script_end (rd_script r) = EOF \<and> script_data (rd_script r') = []"
    by blast+
qed

text \<open>Nothing is left to read: the limit is used up or the script has ended with the end of file.\<close>

definition exhausted :: "reader \<Rightarrow> bool" where
  "exhausted r \<longleftrightarrow>
     script_end (rd_script r) = EOF \<and> script_data (rd_script r) = []
     \<or> (\<exists>left. rd_limit r = Some left \<and> left \<le> 0)"

text \<open>
  One read takes a prefix of what the reader still holds; it reports the end of file only when
  nothing is left within the limit, and then either the limit is used up or the script has ended.
\<close>

lemma reader_Read_data:
  assumes "reader_Read n r = (p, e, r')" "0 < n"
  shows "reader_data r = p @ reader_data r'"
    and "script_data (rd_script r) = p @ script_data (rd_script r')"
    and "script_end (rd_script r') = script_end (rd_script r)"
    and "rd_limit r' = map_option (\<lambda>left. left - int (length p)) (rd_limit r)"
    and "e = Some EOF \<Longrightarrow> reader_data r' = [] \<and> exhausted r'"
proof -
  consider (none) "rd_limit r = None"
    | (used) left where "rd_limit r = Some left" "left \<le> 0"
    | (some) left where "rd_limit r = Some left" "0 < left"
    by (cases "rd_limit r"; force)
  then have "reader_data r = p @ reader_data r'
    \<and> script_data (rd_script r) = p @ script_data (rd_script r')
    \<and> script_end (rd_script r') = script_end (rd_script r)
    \<and> rd_limit r' = map_option (\<lambda>left. left - int (length p)) (rd_limit r)
    \<and> (e = Some EOF \<longrightarrow> reader_data r' = [] \<and> exhausted r')"
  proof cases
    case none
    with assms(1) have "context_Read n r = (p, e, r')"
      by (simp add: reader_Read_def)
    from context_Read_data [OF this] none show ?thesis
      by (simp add: reader_data_def exhausted_def)
  next
    case used
    with assms(1) show ?thesis
      by (auto simp: reader_Read_def reader_data_def exhausted_def)
  next
    case (some left)
    let ?m = "if int n > left then nat left else n"
    from some assms(1) obtain r0 where c: "context_Read ?m r = (p, e, r0)"
      and r': "r' = r0\<lparr>rd_limit := Some (left - int (length p))\<rparr>"
      by (auto simp: reader_Read_def split: prod.splits)
    note d = context_Read_data [OF c]
    have "length p \<le> nat left"
      using d(4) by (auto split: if_splits)
    then have "take (nat left) (p @ script_data (rd_script r0))
        = p @ take (nat (left - int (length p))) (script_data (rd_script r0))"
      by (simp add: nat_minus_as_int)
    with some d r' show ?thesis
      by (simp add: reader_data_def exhausted_def)
  qed
  then show "reader_data r = p @ reader_data r'"
    and "script_data (rd_script r) = p @ script_data (rd_script r')"
    and "script_end (rd_script r') = script_end (rd_script r)"
    and "rd_limit r' = map_option (\<lambda>left. left - int (length p)) (rd_limit r)"
    and "e = Some EOF \<Longrightarrow> reader_data r' = [] \<and> exhausted r'"
    by blast+
qed

section \<open>Writers\<close>

lemma checked_write_ok: "checked_write p (count, werr) = (nw, None) \<longleftrightarrow>
    count = int (length p) \<and> werr = None \<and> nw = int (length p)"
  by (auto simp: checked_write_def Let_def split: option.splits if_splits)

text \<open>The five ways one turn of the copy loop can go.\<close>

lemma copy_loop_cases:
  assumes run: "copy_loop wr n r w k = (k', err, r', w')" and n: "0 < n"
    and rd: "reader_Read n r = (p, er, r1)"
  obtains
    (skip) "p = []" "er = None" "copy_loop wr n r1 w k = (k', err, r', w')"
  | (stop) e where "p = []" "er = Some e" "k' = k" "err = (if e = EOF then None else Some e)"
      "r' = r1" "w' = w"
  | (fail) count werr nw e where "p \<noteq> []" "wr w p = ((count, werr), w')"
      "checked_write p (count, werr) = (nw, Some e)" "k' = k + nw" "err = Some e" "r' = r1"
  | (more) w1 where "p \<noteq> []" "wr w p = ((int (length p), None), w1)" "er = None"
      "copy_loop wr n r1 w1 (k + int (length p)) = (k', err, r', w')"
  | (last) e where "p \<noteq> []" "wr w p = ((int (length p), None), w')" "er = Some e"
      "k' = k + int (length p)" "err = (if e = EOF then None else Some e)" "r' = r1"
proof (cases "p = []")
  case True
  show thesis
  proof (cases er)
    case None
    with run rd n True show ?thesis
      by (intro skip) (simp_all add: copy_loop.simps [of wr n r w k])
  next
    case (Some e)
    with run rd n True show ?thesis
      by (intro stop) (auto simp: copy_loop.simps [of wr n r w k])
  qed
next
  case False
  obtain count werr w1 where wr: "wr w p = ((count, werr), w1)"
    by (metis surj_pair)
  obtain nw ew where cw: "checked_write p (count, werr) = (nw, ew)"
    by fastforce
  show thesis
  proof (cases ew)
    case (Some e)
    with run rd n False cw wr have "k' = k + nw" "err = Some e" "r' = r1" "w' = w1"
      by (simp_all add: copy_loop.simps [of wr n r w k])
    with fail [OF False] wr cw Some show ?thesis
      by blast
  next
    case None
    then have ok: "count = int (length p)" "werr = None" "nw = int (length p)"
      using cw checked_write_ok by auto
    show ?thesis
    proof (cases er)
      case er: None
      with run rd n False cw wr None ok
      have "copy_loop wr n r1 w1 (k + int (length p)) = (k', err, r', w')"
        by (simp add: copy_loop.simps [of wr n r w k])
      with more [OF False] wr ok er show ?thesis
        by blast
    next
      case (Some e)
      with run rd n False cw wr None ok
      have "k' = k + int (length p)" "err = (if e = EOF then None else Some e)" "r' = r1" "w' = w1"
        by (simp_all add: copy_loop.simps [of wr n r w k])
      with last [OF False] wr ok Some show ?thesis
        by blast
    qed
  qed
qed

text \<open>
  The interface of \<^verbatim>\<open>io.Writer\<close> that the copy loop relies on: the bytes a writer has accepted grow by
  the counted prefix of what it is given.
\<close>

locale byte_sink =
  fixes wr :: "'w \<Rightarrow> bytes \<Rightarrow> (int \<times> goerr option) \<times> 'w"
    and accepted :: "'w \<Rightarrow> bytes"
  assumes accepted_write:
    "wr w p = ((count, werr), w') \<Longrightarrow> accepted w' = accepted w @ take (nat count) p"
begin

text \<open>Whatever happens, a writer is only given, in order, a prefix of what the reader holds.\<close>

lemma copy_accepts_prefix:
  assumes "copy_loop wr n r w k = (k', err, r', w')" "0 < n"
  shows "\<exists>q s. accepted w' = accepted w @ q \<and> reader_data r = q @ s"
  using assms(1)
proof (induction "script_weight (rd_script r)" arbitrary: r w k rule: less_induct)
  case less
  obtain p er r1 where rd: "reader_Read n r = (p, er, r1)"
    by (cases "reader_Read n r") auto
  have data: "reader_data r = p @ reader_data r1"
    using reader_Read_data(1) [OF rd assms(2)] .
  have weight: "er = None \<Longrightarrow> script_weight (rd_script r1) < script_weight (rd_script r)"
    using rd assms(2) reader_Read_weight by auto
  from less.prems assms(2) rd show ?case
  proof (cases rule: copy_loop_cases)
    case skip
    with less.hyps [OF weight] data show ?thesis
      by simp
  next
    case stop
    then show ?thesis by simp
  next
    case (fail count werr nw e)
    then have "accepted w' = accepted w @ take (nat count) p"
      using accepted_write by blast
    with data show ?thesis
      by (metis append_assoc append_take_drop_id)
  next
    case (more w1)
    then have "accepted w1 = accepted w @ p"
      using accepted_write by fastforce
    with less.hyps [OF weight [OF more(3)] more(4)] data show ?thesis
      by auto
  next
    case (last e)
    then have "accepted w' = accepted w @ p"
      using accepted_write by fastforce
    with data show ?thesis
      by auto
  qed
qed

text \<open>
  A copy that reports no error has moved everything the reader held, counted it, and stopped because
  the limit was used up or the script ended with the end of file.
\<close>

lemma copy_success:
  assumes "copy_loop wr n r w k = (k', None, r', w')" "0 < n"
  shows "accepted w' = accepted w @ reader_data r \<and> k' = k + int (length (reader_data r))
    \<and> script_data (rd_script r) = reader_data r @ script_data (rd_script r')
    \<and> script_end (rd_script r') = script_end (rd_script r)
    \<and> rd_limit r' = map_option (\<lambda>left. left - int (length (reader_data r))) (rd_limit r)
    \<and> exhausted r'"
  using assms(1)
proof (induction "script_weight (rd_script r)" arbitrary: r w k rule: less_induct)
  case less
  obtain p er r1 where rd: "reader_Read n r = (p, er, r1)"
    by (cases "reader_Read n r") auto
  note data = reader_Read_data [OF rd assms(2)]
  have weight: "er = None \<Longrightarrow> script_weight (rd_script r1) < script_weight (rd_script r)"
    using rd assms(2) reader_Read_weight by auto
  have limit: "map_option (\<lambda>left. left - int (length (reader_data r1))) (rd_limit r1)
      = map_option (\<lambda>left. left - int (length (reader_data r))) (rd_limit r)"
    unfolding data(4) by (cases "rd_limit r") (simp_all add: data(1))
  from less.prems assms(2) rd show ?case
  proof (cases rule: copy_loop_cases)
    case skip
    from less.hyps [OF weight [OF skip(2)] skip(3)] show ?thesis
      unfolding limit data(3) by (simp add: data(1,2) skip(1))
  next
    case (stop e)
    then have "er = Some EOF"
      by (auto split: if_splits)
    with stop data(1-4) data(5) show ?thesis
      by simp
  next
    case (fail count werr nw e)
    then show ?thesis by simp
  next
    case (more w1)
    then have "accepted w1 = accepted w @ p"
      using accepted_write by fastforce
    with less.hyps [OF weight [OF more(3)] more(4)] show ?thesis
      unfolding limit data(3) by (simp add: data(1,2))
  next
    case (last e)
    then have "accepted w' = accepted w @ p" "er = Some EOF"
      using accepted_write by (fastforce split: if_splits)+
    with last data(1-4) data(5) show ?thesis
      by simp
  qed
qed

end

section \<open>Copies that cannot fail\<close>

text \<open>
  A reader whose context is absent or never cancelled; and such a reader whose script ends with the
  end of file.
\<close>

definition uncancelled :: "reader \<Rightarrow> bool" where
  "uncancelled r \<longleftrightarrow> (case rd_ctx r of None \<Rightarrow> True | Some c \<Rightarrow> ctx_left c = None)"

definition steady :: "reader \<Rightarrow> bool" where
  "steady r \<longleftrightarrow> uncancelled r \<and> script_end (rd_script r) = EOF"

lemma context_Read_uncancelled:
  assumes "context_Read n r = (p, e, r')" "uncancelled r"
  shows "uncancelled r'" and "script_Read n (rd_script r) = (p, e, rd_script r')"
proof -
  obtain p1 e1 s1 where s: "script_Read n (rd_script r) = (p1, e1, s1)"
    by (cases "script_Read n (rd_script r)") auto
  show "uncancelled r'" and "script_Read n (rd_script r) = (p, e, rd_script r')"
    using assms s by (auto simp: context_Read_def uncancelled_def ctx_Err_def split: option.splits)
qed

lemma context_Read_steady:
  assumes "context_Read n r = (p, e, r')" "steady r"
  shows "steady r' \<and> (e = None \<or> e = Some EOF)"
proof -
  have un: "uncancelled r"
    using assms(2) by (simp add: steady_def)
  note s = context_Read_uncancelled(2) [OF assms(1) un]
  have "e = None \<or> e = Some EOF"
    using script_Read_data(4) [OF s] assms(2) by (cases e) (simp_all add: steady_def)
  with context_Read_uncancelled(1) [OF assms(1) un] script_Read_data(2) [OF s] assms(2) show ?thesis
    by (simp add: steady_def)
qed

lemma reader_Read_steady:
  assumes "reader_Read n r = (p, e, r')" "steady r"
  shows "steady r' \<and> (e = None \<or> e = Some EOF)"
proof (cases "rd_limit r")
  case None
  with assms context_Read_steady show ?thesis
    by (simp add: reader_Read_def)
next
  case (Some left)
  show ?thesis
  proof (cases "left \<le> 0")
    case True
    with Some assms show ?thesis
      by (auto simp: reader_Read_def)
  next
    case False
    obtain r0 where "context_Read (if int n > left then nat left else n) r = (p, e, r0)"
      "r' = r0\<lparr>rd_limit := Some (left - int (length p))\<rparr>"
      using Some False assms(1) by (auto simp: reader_Read_def split: prod.splits)
    with context_Read_steady [OF _ assms(2)] show ?thesis
      by (fastforce simp: steady_def uncancelled_def)
  qed
qed

text \<open>A writer that, once ready, accepts everything it is given and stays ready.\<close>

locale total_sink = byte_sink wr accepted
  for wr :: "'w \<Rightarrow> bytes \<Rightarrow> (int \<times> goerr option) \<times> 'w" and accepted :: "'w \<Rightarrow> bytes" +
  fixes ready :: "'w \<Rightarrow> bool"
  assumes accepts_all: "ready w \<Longrightarrow> fst (wr w p) = (int (length p), None)"
    and stays_ready: "ready w \<Longrightarrow> ready (snd (wr w p))"
begin

lemma copy_never_fails:
  assumes "0 < n" "steady r" "ready w"
  shows "\<exists>k' r' w'. copy_loop wr n r w k = (k', None, r', w') \<and> steady r' \<and> ready w'"
  using assms(2,3)
proof (induction "script_weight (rd_script r)" arbitrary: r w k rule: less_induct)
  case less
  obtain p er r1 where rd: "reader_Read n r = (p, er, r1)"
    by (cases "reader_Read n r") auto
  from reader_Read_steady [OF rd less.prems(1)] have r1: "steady r1" and er: "er = None \<or> er = Some EOF"
    by blast+
  have weight: "er = None \<Longrightarrow> script_weight (rd_script r1) < script_weight (rd_script r)"
    using rd assms(1) reader_Read_weight by auto
  obtain k' err r' w' where run: "copy_loop wr n r w k = (k', err, r', w')"
    by (metis prod_cases4)
  from run assms(1) rd have "err = None \<and> steady r' \<and> ready w'"
  proof (cases rule: copy_loop_cases)
    case skip
    with less.hyps [OF weight [OF skip(2)] r1 less.prems(2), of k] show ?thesis
      by auto
  next
    case (stop e)
    with er r1 less.prems(2) show ?thesis
      by auto
  next
    case (fail count werr nw e)
    with accepts_all [OF less.prems(2), of p] show ?thesis
      by (simp add: checked_write_def Let_def)
  next
    case (more w1)
    then have "ready w1"
      using stays_ready [OF less.prems(2), of p] by simp
    with more less.hyps [OF weight [OF more(3)] r1, of w1 "k + int (length p)"] show ?thesis
      by auto
  next
    case (last e)
    then have "ready w'"
      using stays_ready [OF less.prems(2), of p] by simp
    with last er r1 show ?thesis
      by auto
  qed
  with run show ?case by blast
qed

end

section \<open>Reading a whole buffer, exactly\<close>

lemma reader_Read_length:
  assumes "reader_Read n r = (p, e, r')"
  shows "length p \<le> n"
proof (cases "rd_limit r")
  case None
  with assms context_Read_data(4) show ?thesis
    by (simp add: reader_Read_def)
next
  case (Some left)
  with assms show ?thesis
    by (auto simp: reader_Read_def split: if_splits prod.splits dest!: context_Read_data(4))
qed

lemma read_full_data:
  assumes "read_full n r acc = (out, err, r')"
  shows "\<exists>q. out = acc @ q \<and> length q \<le> n \<and> reader_data r = q @ reader_data r'
    \<and> script_data (rd_script r) = q @ script_data (rd_script r')
    \<and> (err = None \<longleftrightarrow> length q = n) \<and> (err = Some EOF \<longrightarrow> out = [] \<and> exhausted r')"
  using assms
proof (induction "script_weight (rd_script r)" arbitrary: n r acc rule: less_induct)
  case less
  show ?case
  proof (cases "n = 0")
    case True
    with less.prems show ?thesis
      by (simp add: read_full.simps [of 0 r acc])
  next
    case False
    obtain p er r1 where rd: "reader_Read n r = (p, er, r1)"
      by (cases "reader_Read n r") auto
    note data = reader_Read_data [OF rd] and len = reader_Read_length [OF rd]
    show ?thesis
    proof (cases er)
      case None
      with less.prems rd False have "read_full (n - length p) r1 (acc @ p) = (out, err, r')"
        by (simp add: read_full.simps [of n r acc] Let_def)
      moreover have "script_weight (rd_script r1) < script_weight (rd_script r)"
        using rd None False reader_Read_weight by simp
      ultimately obtain q where
        q: "out = (acc @ p) @ q" "length q \<le> n - length p" "reader_data r1 = q @ reader_data r'"
          "script_data (rd_script r1) = q @ script_data (rd_script r')"
          "err = None \<longleftrightarrow> length q = n - length p" "err = Some EOF \<longrightarrow> out = [] \<and> exhausted r'"
        using less.hyps by blast
      with data(1,2) len False show ?thesis
        by (intro exI [of _ "p @ q"]) auto
    next
      case (Some e)
      with less.prems rd False
      have out: "out = acc @ p" "r' = r1"
        and err: "err = (if n \<le> length p then None
          else if acc @ p \<noteq> [] \<and> e = EOF then Some (Sentinel IoErrUnexpectedEOF) else Some e)"
        by (auto simp: read_full.simps [of n r acc] Let_def split: if_splits)
      have "err = Some EOF \<Longrightarrow> out = [] \<and> exhausted r'"
        using err out data(5) False Some by (auto simp: EOF_def split: if_splits)
      moreover have "err = None \<longleftrightarrow> length p = n"
        using err len by (simp split: if_splits)
      ultimately show ?thesis
        using out data(1,2) len False by (intro exI [of _ p]) simp
    qed
  qed
qed

lemma read_full_steady:
  assumes "read_full n r acc = (out, err, r')" "steady r"
  shows "steady r'
    \<and> (err = None \<or> err = Some EOF \<or> err = Some (Sentinel IoErrUnexpectedEOF) \<and> out \<noteq> [])
    \<and> out = acc @ take n (reader_data r)"
  using assms
proof (induction "script_weight (rd_script r)" arbitrary: n r acc rule: less_induct)
  case less
  show ?case
  proof (cases "n = 0")
    case True
    with less.prems show ?thesis
      by (simp add: read_full.simps [of 0 r acc])
  next
    case False
    obtain p er r1 where rd: "reader_Read n r = (p, er, r1)"
      by (cases "reader_Read n r") auto
    note data = reader_Read_data [OF rd] and len = reader_Read_length [OF rd]
    from reader_Read_steady [OF rd less.prems(2)]
    have st: "steady r1" and er: "er = None \<or> er = Some EOF"
      by blast+
    show ?thesis
    proof (cases er)
      case None
      with less.prems rd False have "read_full (n - length p) r1 (acc @ p) = (out, err, r')"
        by (simp add: read_full.simps [of n r acc] Let_def)
      moreover have "script_weight (rd_script r1) < script_weight (rd_script r)"
        using rd None False reader_Read_weight by simp
      ultimately have "steady r'
          \<and> (err = None \<or> err = Some EOF \<or> err = Some (Sentinel IoErrUnexpectedEOF) \<and> out \<noteq> [])
          \<and> out = (acc @ p) @ take (n - length p) (reader_data r1)"
        using less.hyps st by blast
      with data(1) len False show ?thesis
        by auto
    next
      case (Some e)
      with er have e: "e = EOF"
        by simp
      with less.prems(1) rd False Some have "out = acc @ p" "r' = r1"
        "err = None \<or> err = Some EOF \<or> err = Some (Sentinel IoErrUnexpectedEOF) \<and> out \<noteq> []"
        by (auto simp: read_full.simps [of n r acc] Let_def split: if_splits)
      with e Some data(1,5) len st False show ?thesis
        by simp
    qed
  qed
qed

text \<open>Without cancellation, a full read returns the first bytes there are, whatever ends the script.\<close>

lemma reader_Read_uncancelled:
  assumes "reader_Read n r = (p, e, r')" "uncancelled r"
  shows "uncancelled r' \<and> (e \<noteq> None \<longrightarrow> reader_data r' = [])"
proof (cases "rd_limit r")
  case None
  with assms have c: "context_Read n r = (p, e, r')"
    by (simp add: reader_Read_def)
  note s = context_Read_uncancelled [OF c assms(2)]
  have "e \<noteq> None \<Longrightarrow> script_data (rd_script r') = []"
    using script_Read_data(4) [OF s(2)] by auto
  with s(1) context_Read_data(3) [OF c] None show ?thesis
    by (simp add: reader_data_def)
next
  case (Some left)
  show ?thesis
  proof (cases "left \<le> 0")
    case True
    with Some assms show ?thesis
      by (auto simp: reader_Read_def reader_data_def)
  next
    case False
    obtain r0 where c: "context_Read (if int n > left then nat left else n) r = (p, e, r0)"
      and r': "r' = r0\<lparr>rd_limit := Some (left - int (length p))\<rparr>"
      using Some False assms(1) by (auto simp: reader_Read_def split: prod.splits)
    note s = context_Read_uncancelled [OF c assms(2)]
    have "e \<noteq> None \<Longrightarrow> script_data (rd_script r0) = []"
      using script_Read_data(4) [OF s(2)] by auto
    with s(1) r' show ?thesis
      by (simp add: reader_data_def uncancelled_def)
  qed
qed

lemma read_full_uncancelled:
  assumes "read_full n r acc = (out, err, r')" "uncancelled r"
  shows "out = acc @ take n (reader_data r)"
  using assms
proof (induction "script_weight (rd_script r)" arbitrary: n r acc rule: less_induct)
  case less
  show ?case
  proof (cases "n = 0")
    case True
    with less.prems show ?thesis
      by (simp add: read_full.simps [of 0 r acc])
  next
    case False
    obtain p er r1 where rd: "reader_Read n r = (p, er, r1)"
      by (cases "reader_Read n r") auto
    note data = reader_Read_data [OF rd] and len = reader_Read_length [OF rd]
      and un = reader_Read_uncancelled [OF rd less.prems(2)]
    show ?thesis
    proof (cases er)
      case None
      with less.prems rd False have "read_full (n - length p) r1 (acc @ p) = (out, err, r')"
        by (simp add: read_full.simps [of n r acc] Let_def)
      moreover have "script_weight (rd_script r1) < script_weight (rd_script r)"
        using rd None False reader_Read_weight by simp
      ultimately have "out = (acc @ p) @ take (n - length p) (reader_data r1)"
        using less.hyps un by blast
      with data(1) len False show ?thesis
        by simp
    next
      case (Some e)
      with less.prems(1) rd False have "out = acc @ p"
        by (auto simp: read_full.simps [of n r acc] Let_def split: if_splits)
      with un Some data(1) len False show ?thesis
        by simp
    qed
  qed
qed

text \<open>An error of a full read is the script's own, at the end of its data, or a cancellation.\<close>

lemma read_full_error:
  assumes "read_full n r acc = (out, Some e, r')" "rd_limit r = None"
  shows "(script_data (rd_script r') = []
      \<and> (e = script_end (rd_script r) \<or> e = Sentinel IoErrUnexpectedEOF)) \<or> (\<exists>c. e = ctx_error c)"
  using assms
proof (induction "script_weight (rd_script r)" arbitrary: n r acc rule: less_induct)
  case less
  have n: "n \<noteq> 0"
    using less.prems(1) by (cases "n = 0") (simp_all add: read_full.simps [of 0 r acc])
  obtain p er r1 where rd: "reader_Read n r = (p, er, r1)"
    by (cases "reader_Read n r") auto
  then have c: "context_Read n r = (p, er, r1)"
    using less.prems(2) by (simp add: reader_Read_def)
  note data = context_Read_data [OF c]
  show ?case
  proof (cases er)
    case None
    with less.prems rd n have "read_full (n - length p) r1 (acc @ p) = (out, Some e, r')"
      by (simp add: read_full.simps [of n r acc] Let_def)
    moreover have "script_weight (rd_script r1) < script_weight (rd_script r)"
      using rd None n reader_Read_weight by simp
    ultimately show ?thesis
      using less.hyps [of r1] less.prems(2) data(2,3) by auto
  next
    case (Some x)
    with less.prems(1) rd n have r': "r' = r1" and e: "e = x \<or> e = Sentinel IoErrUnexpectedEOF \<and> x = EOF"
      by (auto simp: read_full.simps [of n r acc] Let_def split: if_splits)
    from c show ?thesis
    proof (cases rule: context_Read_cases)
      case (cancelled y)
      with Some e show ?thesis
        by auto
    next
      case read
      from script_Read_data(4) [OF read(1), OF Some] r' e show ?thesis
        by auto
    qed
  qed
qed

section \<open>Invariants of the copy loop\<close>

lemma copy_invariant:
  assumes "copy_loop wr n r w k = (k', err, r', w')" "0 < n" "P w"
    and "\<And>w p. P w \<Longrightarrow> P (snd (wr w p))"
  shows "P w'"
  using assms(1,3)
proof (induction "script_weight (rd_script r)" arbitrary: r w k rule: less_induct)
  case less
  obtain p er r1 where rd: "reader_Read n r = (p, er, r1)"
    by (cases "reader_Read n r") auto
  have weight: "er = None \<Longrightarrow> script_weight (rd_script r1) < script_weight (rd_script r)"
    using rd assms(2) reader_Read_weight by auto
  from less.prems(1) assms(2) rd show ?case
  proof (cases rule: copy_loop_cases)
    case skip
    then show ?thesis
      using less.hyps [OF weight] less.prems(2) by blast
  next
    case (more w1)
    then have "P w1"
      using assms(4) [OF less.prems(2), of p] by simp
    then show ?thesis
      using less.hyps [OF weight] more by blast
  qed (use less.prems(2) assms(4) [OF less.prems(2), of p] in auto)
qed

text \<open>On a copy that succeeds, every write took its whole buffer.\<close>

lemma copy_success_invariant:
  assumes "copy_loop wr n r w k = (k', None, r', w')" "0 < n" "P w"
    and "\<And>w p w1. P w \<Longrightarrow> wr w p = ((int (length p), None), w1) \<Longrightarrow> P w1"
  shows "P w'"
  using assms(1,3)
proof (induction "script_weight (rd_script r)" arbitrary: r w k rule: less_induct)
  case less
  obtain p er r1 where rd: "reader_Read n r = (p, er, r1)"
    by (cases "reader_Read n r") auto
  have weight: "er = None \<Longrightarrow> script_weight (rd_script r1) < script_weight (rd_script r)"
    using rd assms(2) reader_Read_weight by auto
  from less.prems(1) assms(2) rd show ?case
    by (cases rule: copy_loop_cases)
       (use less.hyps [OF weight] less.prems(2) assms(4) [OF less.prems(2)] in auto)
qed

lemma copy_reader_invariant:
  assumes "copy_loop wr n r w k = (k', err, r', w')" "0 < n" "P r"
    and "\<And>r p e r1. reader_Read n r = (p, e, r1) \<Longrightarrow> P r \<Longrightarrow> P r1"
  shows "P r'"
  using assms(1,3)
proof (induction "script_weight (rd_script r)" arbitrary: r w k rule: less_induct)
  case less
  obtain p er r1 where rd: "reader_Read n r = (p, er, r1)"
    by (cases "reader_Read n r") auto
  have r1: "P r1"
    using assms(4) [OF rd less.prems(2)] .
  have weight: "er = None \<Longrightarrow> script_weight (rd_script r1) < script_weight (rd_script r)"
    using rd assms(2) reader_Read_weight by auto
  from less.prems(1) assms(2) rd show ?case
    by (cases rule: copy_loop_cases) (use less.hyps [OF weight] r1 in auto)
qed

lemma reader_Read_context:
  assumes "reader_Read n r = (p, e, r1)" "rd_ctx r = Some c" "ctx_left c = None"
  shows "rd_ctx r1 = Some c"
  using assms
  by (auto simp: reader_Read_def context_Read_def ctx_Err_def split: option.splits if_splits prod.splits)

lemma copy_context:
  assumes "copy_loop wr n r w k = (k', err, r', w')" "0 < n" "rd_ctx r = Some c" "ctx_left c = None"
  shows "rd_ctx r' = Some c"
  using assms(1,2,3) by (rule copy_reader_invariant) (auto intro: reader_Read_context assms(4))

end
