(* ===== verification/Verified.thy ===== *)
theory Verified
  imports Go_IO Go_Text Sha256
begin

text \<open>
  internal/image/verified.go: opening an image once, hashing the complete descriptor, detecting its
  format and keeping the descriptor. An open file is described by what the kernel answers: the
  script that a pass over the file reads after its k-th seek, the error of the k-th seek, and the
  k-th result of stat. The content may therefore change between passes, as it can on a real system;
  \<open>holds_content\<close> says that it does not.
\<close>

section \<open>Open files\<close>

record osfile =
  f_pass :: "nat \<Rightarrow> script"
  f_seek :: "nat \<Rightarrow> goerr option"
  f_stat :: "nat \<Rightarrow> (bool \<times> int) res"
  f_close :: "goerr option"
  f_seeks :: nat
  f_stats :: nat
  f_rest :: script

text \<open>\<^verbatim>\<open>Seek(0, io.SeekStart)\<close>, \<^verbatim>\<open>Stat\<close> (whether the file is regular, and its size) and \<^verbatim>\<open>Close\<close>.\<close>

definition file_Seek :: "osfile \<Rightarrow> goerr option \<times> osfile" where
  "file_Seek f =
     (let k = f_seeks f
      in case f_seek f k of
           Some e \<Rightarrow> (Some e, f\<lparr>f_seeks := Suc k\<rparr>)
         | None \<Rightarrow> (None, f\<lparr>f_seeks := Suc k, f_rest := f_pass f k\<rparr>))"

definition file_Stat :: "osfile \<Rightarrow> (bool \<times> int) res \<times> osfile" where
  "file_Stat f = (f_stat f (f_stats f), f\<lparr>f_stats := Suc (f_stats f)\<rparr>)"

text \<open>What a reader over the descriptor leaves behind.\<close>

definition file_after :: "osfile \<Rightarrow> reader \<Rightarrow> osfile" where
  "file_after f r = f\<lparr>f_rest := rd_script r\<rparr>"

section \<open>Hashing\<close>

text \<open>A hasher is the bytes written to it; \<^verbatim>\<open>Sum(nil)\<close> is their SHA-256.\<close>

definition hasher_Write :: "bytes \<Rightarrow> bytes \<Rightarrow> (int \<times> goerr option) \<times> bytes" where
  "hasher_Write h p = ((int (length p), None), h @ p)"

interpretation hasher: total_sink hasher_Write "\<lambda>h. h" "\<lambda>h. True"
  by unfold_locales (auto simp: hasher_Write_def)

text \<open>The 32 KiB buffer of \<^verbatim>\<open>io.Copy\<close>.\<close>

definition ioCopyBytes :: nat where
  "ioCopyBytes = 32768"

definition hash_copy :: "nat \<Rightarrow> reader \<Rightarrow> int \<times> goerr option \<times> reader \<times> bytes" where
  "hash_copy n r = copy_loop hasher_Write n r [] 0"

lemma hash_copy_success:
  assumes "hash_copy n r = (k, None, r', h)" "0 < n" "rd_limit r = None"
  shows "h = script_data (rd_script r)" "k = int (length h)" "script_end (rd_script r) = EOF"
    "script_data (rd_script r') = []"
  using hasher.copy_success [of n r "[]" 0 k r' h] assms
  by (auto simp: hash_copy_def reader_data_def exhausted_def)

lemma hash_copy_steady:
  assumes "0 < n" "steady r" "rd_limit r = None"
  shows "\<exists>r'. hash_copy n r =
    (int (length (script_data (rd_script r))), None, r', script_data (rd_script r))"
proof -
  obtain k r' h where "hash_copy n r = (k, None, r', h)"
    using hasher.copy_never_fails [OF assms(1,2), of "[]" 0] by (auto simp: hash_copy_def)
  with hash_copy_success [OF this assms(1,3)] show ?thesis
    by auto
qed

section \<open>verified.go\<close>

type_synonym format = gostring

definition FormatRaw :: format where
  "FormatRaw = ''raw''"

definition FormatZstd :: format where
  "FormatZstd = ''zstd''"

record verified =
  v_Path :: gostring
  v_SHA256 :: gostring
  v_Format :: format
  v_CompressedBytes :: int
  v_file :: "osfile option"

text \<open>\<^verbatim>\<open>Close\<close>; the argument \<open>None\<close> is a nil receiver.\<close>

definition Verified_Close :: "verified option \<Rightarrow> goerr option \<times> verified option" where
  "Verified_Close v =
     (case v of
        None \<Rightarrow> (None, None)
      | Some w \<Rightarrow>
          (case v_file w of
             None \<Rightarrow> (None, Some w)
           | Some f \<Rightarrow> (f_close f, Some (w\<lparr>v_file := None\<rparr>))))"

definition image_validateDigest :: "gostring \<Rightarrow> gostring res" where
  "image_validateDigest value =
     (if (case hex_DecodeString value of
            None \<Rightarrow> True
          | Some decoded \<Rightarrow>
              length decoded \<noteq> 32 \<or> length value \<noteq> 64 \<or> value \<noteq> strings_ToLower value)
      then Inl (Errorf ''%w: must contain exactly 64 lowercase hexadecimal characters'' []
                  (Sentinel ErrInvalidDigest))
      else Inr value)"

definition zstdMagic :: bytes where
  "zstdMagic = [CHR 0x28, CHR 0xB5, CHR 0x2F, CHR 0xFD]"

definition descriptorFormat :: "osfile \<Rightarrow> format res \<times> osfile" where
  "descriptorFormat f =
     (case file_Seek f of
        (Some err, f1) \<Rightarrow> (Inl (Errorf ''rewind image source: %w'' [] err), f1)
      | (None, f1) \<Rightarrow>
          (case read_full (length zstdMagic) (plain_reader (f_rest f1)) [] of
             (header, err, r) \<Rightarrow>
               (let f2 = file_after f1 r
                in if (case err of
                         None \<Rightarrow> False
                       | Some e \<Rightarrow> \<not> errors_is e IoErrUnexpectedEOF \<and> \<not> errors_is e IoEOF)
                   then (Inl (Errorf ''read image header: %w'' [] (the err)), f2)
                   else (case file_Seek f2 of
                           (Some err2, f3) \<Rightarrow> (Inl (Errorf ''rewind image source: %w'' [] err2), f3)
                         | (None, f3) \<Rightarrow>
                             (if length header = length zstdMagic \<and> header = zstdMagic
                              then (Inr FormatZstd, f3)
                              else (Inr FormatRaw, f3))))))"

definition verifyDescriptor :: "osfile \<Rightarrow> gostring \<Rightarrow> gostring \<Rightarrow> verified res \<times> osfile" where
  "verifyDescriptor f path expectedSHA256 =
     (case file_Stat f of
        (Inl err, f1) \<Rightarrow> (Inl (Errorf ''stat image source: %w'' [] err), f1)
      | (Inr (regular, filesize), f1) \<Rightarrow>
          (if \<not> regular
           then (Inl (Errorf ''%w: must be a regular file'' [] (Sentinel ErrInvalidSource)), f1)
           else case file_Seek f1 of
             (Some seekErr, f2) \<Rightarrow> (Inl (Errorf ''rewind image source: %w'' [] seekErr), f2)
           | (None, f2) \<Rightarrow>
               (case hash_copy ioCopyBytes (plain_reader (f_rest f2)) of
                  (bytesRead, err, r, hashed) \<Rightarrow>
                    (let f3 = file_after f2 r
                     in case err of
                          Some e \<Rightarrow> (Inl (Errorf ''hash complete image: %w'' [] e), f3)
                        | None \<Rightarrow>
                            (let actual = hex_EncodeToString (sha256 hashed)
                             in if actual \<noteq> expectedSHA256
                                then (Inl (Errorf ''%w: got %s'' [FStr actual]
                                             (Sentinel ErrDigestMismatch)), f3)
                                else (case descriptorFormat f3 of
                                        (Inl e, f4) \<Rightarrow> (Inl e, f4)
                                      | (Inr fmt, f4) \<Rightarrow>
                                          (Inr \<lparr>v_Path = path, v_SHA256 = actual, v_Format = fmt,
                                                v_CompressedBytes = bytesRead,
                                                v_file = Some f4\<rparr>, f4)))))))"

text \<open>
  \<^verbatim>\<open>Verify\<close>; \<open>open\<close> is the result of \<^verbatim>\<open>os.Open(path)\<close>. The second component of the result is the
  descriptor that the deferred close closed on an error path, if the file had been opened.
\<close>

definition Verify ::
  "(gostring \<Rightarrow> osfile res) \<Rightarrow> gostring \<Rightarrow> gostring \<Rightarrow> verified res \<times> osfile option" where
  "Verify open path expectedSHA256 =
     (case image_validateDigest expectedSHA256 of
        Inl err \<Rightarrow> (Inl err, None)
      | Inr expected \<Rightarrow>
          (case open path of
             Inl err \<Rightarrow> (Inl (Errorf ''open image source: %w'' [] err), None)
           | Inr f \<Rightarrow>
               (case verifyDescriptor f path expected of
                  (Inl err, f') \<Rightarrow> (Inl err, Some f')
                | (Inr v, f') \<Rightarrow> (Inr v, None))))"

section \<open>One step at a time\<close>

lemma file_Seek_ok:
  "file_Seek f = (None, f') \<longleftrightarrow>
     f_seek f (f_seeks f) = None
     \<and> f' = f\<lparr>f_seeks := Suc (f_seeks f), f_rest := f_pass f (f_seeks f)\<rparr>"
  by (auto simp: file_Seek_def Let_def split: option.splits)

lemma image_validateDigest_Inr:
  "image_validateDigest s = Inr t \<longleftrightarrow> t = s \<and> length s = 64 \<and> (\<forall>c \<in> set s. lower_hex c)"
proof -
  have "(case hex_DecodeString s of
        None \<Rightarrow> True
      | Some decoded \<Rightarrow> length decoded \<noteq> 32 \<or> length s \<noteq> 64 \<or> s \<noteq> strings_ToLower s)
     \<longleftrightarrow> \<not> (length s = 64 \<and> (\<forall>c \<in> set s. lower_hex c))"
    unfolding digest_condition_iff [symmetric] by (auto split: option.split)
  then show ?thesis
    unfolding image_validateDigest_def by auto
qed

lemma reader_data_plain [simp]: "reader_data (plain_reader s) = script_data s"
  by (simp add: reader_data_def plain_reader_def)

lemma rd_script_plain [simp]: "rd_script (plain_reader s) = s" "rd_limit (plain_reader s) = None"
  by (simp_all add: plain_reader_def)

lemma uncancelled_plain [simp]: "uncancelled (plain_reader s)"
  by (simp add: uncancelled_def plain_reader_def)

lemma magic_cond [simp]: "length h = length zstdMagic \<and> h = zstdMagic \<longleftrightarrow> h = zstdMagic"
  by auto

lemma descriptorFormat_Inr:
  assumes "descriptorFormat f = (Inr fmt, f')"
  shows "f_seek f (f_seeks f) = None" and "f_seek f (Suc (f_seeks f)) = None"
    and "f' = f\<lparr>f_seeks := Suc (Suc (f_seeks f)), f_rest := f_pass f (Suc (f_seeks f))\<rparr>"
    and "fmt = (if take 4 (script_data (f_pass f (f_seeks f))) = zstdMagic then FormatZstd else FormatRaw)"
proof -
  from assms obtain f1 where s1: "file_Seek f = (None, f1)"
    by (cases "file_Seek f"; cases "fst (file_Seek f)") (auto simp: descriptorFormat_def)
  obtain header err r where rf: "read_full 4 (plain_reader (f_rest f1)) [] = (header, err, r)"
    by (cases "read_full 4 (plain_reader (f_rest f1)) []") auto
  have len: "length zstdMagic = 4"
    by (simp add: zstdMagic_def)
  from assms s1 rf obtain f3 where s2: "file_Seek (file_after f1 r) = (None, f3)"
    and fmt: "fmt = (if header = zstdMagic then FormatZstd else FormatRaw)" "f' = f3"
    unfolding descriptorFormat_def magic_cond
    by (auto simp: len Let_def split: if_splits prod.splits option.splits)
  have "header = take 4 (script_data (f_rest f1))"
    using read_full_uncancelled [OF rf] by simp
  moreover have "f_rest f1 = f_pass f (f_seeks f)"
    using s1 by (simp add: file_Seek_ok)
  ultimately show
    "fmt = (if take 4 (script_data (f_pass f (f_seeks f))) = zstdMagic then FormatZstd else FormatRaw)"
    using fmt(1) by simp
  show "f_seek f (f_seeks f) = None" and "f_seek f (Suc (f_seeks f)) = None"
    and "f' = f\<lparr>f_seeks := Suc (Suc (f_seeks f)), f_rest := f_pass f (Suc (f_seeks f))\<rparr>"
    using s1 s2 fmt(2) by (auto simp: file_Seek_ok file_after_def)
qed

text \<open>A successful verification, up to the detection of the format.\<close>

lemma verifyDescriptor_hashed:
  assumes "verifyDescriptor f path expected = (Inr v, f')"
  defines "k \<equiv> f_seeks f"
  obtains n r where "f_stat f (f_stats f) = Inr (True, n)" "f_seek f k = None" "script_end (f_pass f k) = EOF"
    "expected = hex_EncodeToString (sha256 (script_data (f_pass f k)))"
    "(Inr v, f') =
      (case descriptorFormat (file_after (f\<lparr>f_stats := Suc (f_stats f), f_seeks := Suc k, f_rest := f_pass f k\<rparr>) r) of
         (Inl e, f4) \<Rightarrow> (Inl e, f4)
       | (Inr fmt, f4) \<Rightarrow>
           (Inr \<lparr>v_Path = path, v_SHA256 = expected, v_Format = fmt,
                 v_CompressedBytes = int (length (script_data (f_pass f k))), v_file = Some f4\<rparr>, f4))"
proof -
  let ?f1 = "f\<lparr>f_stats := Suc (f_stats f)\<rparr>"
  from assms(1) obtain n where n: "f_stat f (f_stats f) = Inr (True, n)"
    by (auto simp: verifyDescriptor_def file_Stat_def split: sum.splits if_splits)
  with assms(1) obtain f2 where s1: "file_Seek ?f1 = (None, f2)"
    by (cases "file_Seek ?f1"; cases "fst (file_Seek ?f1)")
       (auto simp: verifyDescriptor_def file_Stat_def)
  then have f2: "f2 = ?f1\<lparr>f_seeks := Suc k, f_rest := f_pass f k\<rparr>" and k: "f_seek f k = None"
    by (auto simp: file_Seek_ok k_def)
  obtain bytesRead err r hashed where
    h: "hash_copy ioCopyBytes (plain_reader (f_rest f2)) = (bytesRead, err, r, hashed)"
    by (metis prod_cases4)
  with assms(1) n s1 have err: "err = None"
    by (cases err) (auto simp: verifyDescriptor_def file_Stat_def Let_def)
  with h have h': "hash_copy ioCopyBytes (plain_reader (f_pass f k)) = (bytesRead, None, r, hashed)"
    by (simp add: f2)
  have hashed: "hashed = script_data (f_pass f k)" "bytesRead = int (length hashed)"
      "script_end (f_pass f k) = EOF"
    using hash_copy_success [OF h'] by (simp_all add: ioCopyBytes_def)
  from assms(1) n s1 h err have actual: "hex_EncodeToString (sha256 hashed) = expected"
    by (auto simp: verifyDescriptor_def file_Stat_def Let_def split: if_splits)
  have eq: "verifyDescriptor f path expected =
      (case descriptorFormat (file_after f2 r) of
         (Inl e, f4) \<Rightarrow> (Inl e, f4)
       | (Inr fmt, f4) \<Rightarrow>
           (Inr \<lparr>v_Path = path, v_SHA256 = expected, v_Format = fmt,
                 v_CompressedBytes = bytesRead, v_file = Some f4\<rparr>, f4))"
    unfolding actual [symmetric]
    by (simp add: verifyDescriptor_def file_Stat_def n s1 h err Let_def)
  show thesis
    by (rule that [OF n k hashed(3) _ eq [unfolded assms(1) f2 hashed(2) hashed(1)]])
       (simp add: actual [symmetric] hashed(1))
qed

lemma verifyDescriptor_Inr:
  assumes "verifyDescriptor f path expected = (Inr v, f')"
  defines "k \<equiv> f_seeks f"
  shows "\<exists>n. f_stat f (f_stats f) = Inr (True, n)"
    and "script_end (f_pass f k) = EOF"
    and "expected = hex_EncodeToString (sha256 (script_data (f_pass f k)))"
    and "f' = f\<lparr>f_stats := Suc (f_stats f), f_seeks := k + 3, f_rest := f_pass f (k + 2)\<rparr>"
    and "v = \<lparr>v_Path = path, v_SHA256 = expected,
           v_Format = (if take 4 (script_data (f_pass f (k + 1))) = zstdMagic then FormatZstd else FormatRaw),
           v_CompressedBytes = int (length (script_data (f_pass f k))), v_file = Some f'\<rparr>"
    and "f_seek f k = None" "f_seek f (k + 1) = None" "f_seek f (k + 2) = None"
proof -
  let ?f2 = "f\<lparr>f_stats := Suc (f_stats f), f_seeks := Suc k, f_rest := f_pass f k\<rparr>"
  obtain n r where H: "f_stat f (f_stats f) = Inr (True, n)" "f_seek f k = None" "script_end (f_pass f k) = EOF"
    "expected = hex_EncodeToString (sha256 (script_data (f_pass f k)))"
    "(Inr v, f') =
      (case descriptorFormat (file_after ?f2 r) of
         (Inl e, f4) \<Rightarrow> (Inl e, f4)
       | (Inr fmt, f4) \<Rightarrow>
           (Inr \<lparr>v_Path = path, v_SHA256 = expected, v_Format = fmt,
                 v_CompressedBytes = int (length (script_data (f_pass f k))), v_file = Some f4\<rparr>, f4))"
    by (rule verifyDescriptor_hashed [OF assms(1), folded k_def])
  obtain fr f4 where d: "descriptorFormat (file_after ?f2 r) = (fr, f4)"
    by fastforce
  then obtain fmt where fmt: "fr = Inr fmt"
    using H(5) by (cases fr) auto
  have v: "v = \<lparr>v_Path = path, v_SHA256 = expected, v_Format = fmt,
           v_CompressedBytes = int (length (script_data (f_pass f k))), v_file = Some f4\<rparr>" "f' = f4"
    using H(5) [unfolded d fmt] by simp_all
  note D = descriptorFormat_Inr [OF d [unfolded fmt]]
  have "fmt = (if take 4 (script_data (f_pass f (k + 1))) = zstdMagic then FormatZstd else FormatRaw)"
    using D(4) by (simp add: file_after_def)
  then show "v = \<lparr>v_Path = path, v_SHA256 = expected,
           v_Format = (if take 4 (script_data (f_pass f (k + 1))) = zstdMagic then FormatZstd else FormatRaw),
           v_CompressedBytes = int (length (script_data (f_pass f k))), v_file = Some f'\<rparr>"
    unfolding v by simp
  show "f' = f\<lparr>f_stats := Suc (f_stats f), f_seeks := k + 3, f_rest := f_pass f (k + 2)\<rparr>"
    using D(3) v(2) by (simp add: file_after_def eval_nat_numeral)
  show "f_seek f k = None" "f_seek f (k + 1) = None" "f_seek f (k + 2) = None"
    using H(2) D(1,2) by (simp_all add: file_after_def)
  show "\<exists>n. f_stat f (f_stats f) = Inr (True, n)" "script_end (f_pass f k) = EOF"
    "expected = hex_EncodeToString (sha256 (script_data (f_pass f k)))"
    using H(1,3,4) by blast+
qed

section \<open>Files whose content stays put\<close>

definition holds_content :: "osfile \<Rightarrow> bytes \<Rightarrow> bool" where
  "holds_content f c \<longleftrightarrow>
     (\<forall>k. script_data (f_pass f k) = c \<and> script_end (f_pass f k) = EOF \<and> f_seek f k = None
        \<and> f_stat f k = Inr (True, int (length c)))"

lemma holds_content_update [simp]:
  "holds_content (f\<lparr>f_seeks := a\<rparr>) c = holds_content f c"
  "holds_content (f\<lparr>f_stats := b\<rparr>) c = holds_content f c"
  "holds_content (f\<lparr>f_rest := r\<rparr>) c = holds_content f c"
  by (simp_all add: holds_content_def)

lemma steady_plain: "script_end s = EOF \<Longrightarrow> steady (plain_reader s)"
  by (simp add: steady_def uncancelled_def plain_reader_def)

lemma file_Seek_content:
  "holds_content f c \<Longrightarrow>
   file_Seek f = (None, f\<lparr>f_seeks := Suc (f_seeks f), f_rest := f_pass f (f_seeks f)\<rparr>)"
  by (simp add: file_Seek_ok holds_content_def)

lemma descriptorFormat_content:
  assumes "holds_content f c"
  shows "\<exists>fmt f'. descriptorFormat f = (Inr fmt, f')"
proof -
  let ?f1 = "f\<lparr>f_seeks := Suc (f_seeks f), f_rest := f_pass f (f_seeks f)\<rparr>"
  obtain header err r where rf: "read_full (length zstdMagic) (plain_reader (f_rest ?f1)) [] = (header, err, r)"
    by (metis prod_cases3)
  have "steady (plain_reader (f_rest ?f1))"
    using assms by (intro steady_plain) (simp add: holds_content_def)
  from read_full_steady [OF rf this] have
    "\<not> (case err of None \<Rightarrow> False
         | Some e \<Rightarrow> \<not> errors_is e IoErrUnexpectedEOF \<and> \<not> errors_is e IoEOF)"
    by (auto simp: EOF_def)
  moreover have "holds_content (file_after ?f1 r) c"
    using assms by (simp add: file_after_def)
  ultimately show ?thesis
    using file_Seek_content [OF assms] rf file_Seek_content
    by (fastforce simp: descriptorFormat_def Let_def)
qed

lemma verifyDescriptor_content:
  assumes "holds_content f c"
  shows "\<exists>v f'. verifyDescriptor f path (hex_EncodeToString (sha256 c)) = (Inr v, f')"
proof -
  obtain f1 where f1: "file_Stat f = (Inr (True, int (length c)), f1)" "holds_content f1 c"
    using assms by (auto simp: file_Stat_def holds_content_def)
  obtain f2 where f2: "file_Seek f1 = (None, f2)" "holds_content f2 c"
      "script_data (f_rest f2) = c" "script_end (f_rest f2) = EOF"
    using file_Seek_content [OF f1(2)] f1(2) by (auto simp: holds_content_def)
  obtain r where h: "hash_copy ioCopyBytes (plain_reader (f_rest f2)) = (int (length c), None, r, c)"
    using hash_copy_steady [of ioCopyBytes "plain_reader (f_rest f2)"] f2(3,4)
    by (auto simp: ioCopyBytes_def steady_plain)
  obtain fmt f' where d: "descriptorFormat (file_after f2 r) = (Inr fmt, f')"
    using descriptorFormat_content [of "file_after f2 r" c] f2(2) by (auto simp: file_after_def)
  show ?thesis
    by (simp add: verifyDescriptor_def f1(1) f2(1) h d Let_def)
qed

text \<open>
  C19. A \<^verbatim>\<open>Verified\<close> image is what its digest says. If \<^verbatim>\<open>Verify\<close> succeeds, the path was opened once, the
  file is regular, the expected digest is the SHA-256 of every byte the hashing pass read up to the
  end of the file, that many bytes are recorded as the compressed size, the format is zstd exactly
  when the file starts with the zstd magic number, and the returned value holds that very descriptor,
  still open and rewound, which was not closed on the way.
\<close>

theorem Verify_sound:
  assumes "Verify open path digest = (Inr v, closed)"
  shows "\<exists>f n. open path = Inr f \<and> closed = None \<and> f_stat f (f_stats f) = Inr (True, n)
    \<and> digest = hex_EncodeToString (sha256 (script_data (f_pass f (f_seeks f))))
    \<and> script_end (f_pass f (f_seeks f)) = EOF
    \<and> v = \<lparr>v_Path = path, v_SHA256 = digest,
           v_Format = (if take 4 (script_data (f_pass f (f_seeks f + 1))) = zstdMagic
                       then FormatZstd else FormatRaw),
           v_CompressedBytes = int (length (script_data (f_pass f (f_seeks f)))),
           v_file = Some (f\<lparr>f_stats := Suc (f_stats f), f_seeks := f_seeks f + 3,
                            f_rest := f_pass f (f_seeks f + 2)\<rparr>)\<rparr>"
proof -
  have d: "image_validateDigest digest = Inr digest"
    using assms image_validateDigest_Inr
    by (cases "image_validateDigest digest") (auto simp: Verify_def)
  then obtain f where f: "open path = Inr f"
    using assms by (cases "open path") (auto simp: Verify_def)
  obtain res f' where r: "verifyDescriptor f path digest = (res, f')"
    by fastforce
  then have "res = Inr v" "closed = None"
    using assms d f by (cases res; auto simp: Verify_def)+
  with verifyDescriptor_Inr [of f path digest v f'] r f show ?thesis
    by auto
qed

text \<open>The content \<open>c\<close> served by a file that never changes and that reads in two pieces.\<close>

definition steady_file :: "bytes \<Rightarrow> osfile" where
  "steady_file c =
     \<lparr>f_pass = (\<lambda>_. [Data (take 3 c), Data (drop 3 c)]), f_seek = (\<lambda>_. None),
      f_stat = (\<lambda>_. Inr (True, int (length c))), f_close = None, f_seeks = 0, f_stats = 0,
      f_rest = []\<rparr>"

lemma steady_file_content [simp]: "holds_content (steady_file c) c"
  by (simp add: holds_content_def steady_file_def)

text \<open>
  \<^verbatim>\<open>Verify\<close> accepts every regular file that can be read: when the file keeps the content \<open>c\<close> and
  the digest given is that of \<open>c\<close>, verification returns a \<^verbatim>\<open>Verified\<close> value and closes nothing.
\<close>

theorem Verify_complete:
  assumes "open path = Inr f" and "holds_content f c"
  shows "\<exists>v. Verify open path (hex_EncodeToString (sha256 c)) = (Inr v, None)
    \<and> v_CompressedBytes v = int (length c)
    \<and> v_Format v = (if take 4 c = zstdMagic then FormatZstd else FormatRaw)"
proof -
  let ?d = "hex_EncodeToString (sha256 c)"
  have "image_validateDigest ?d = Inr ?d"
    using hex_Encode_digest [of "sha256 c"] by (simp add: image_validateDigest_Inr)
  moreover obtain v f' where v: "verifyDescriptor f path ?d = (Inr v, f')"
    using verifyDescriptor_content [OF assms(2)] by blast
  ultimately have "Verify open path ?d = (Inr v, None)"
    using assms(1) by (simp add: Verify_def)
  with verifyDescriptor_Inr(5) [OF v] assms(2) show ?thesis
    by (simp add: holds_content_def)
qed

theorem Verify_complete_witness:
  "\<exists>v. Verify (\<lambda>_. Inr (steady_file ''abcdef'')) ''/i'' (hex_EncodeToString (sha256 ''abcdef''))
       = (Inr v, None)
     \<and> v_CompressedBytes v = int (length ''abcdef'')
     \<and> v_Format v = (if take 4 ''abcdef'' = zstdMagic then FormatZstd else FormatRaw)"
  by (rule Verify_complete [where f = "steady_file ''abcdef''"]) simp_all

theorem Verify_sound_witness:
  "\<exists>v. Verify (\<lambda>_. Inr (steady_file ''abcdef'')) ''/i'' (hex_EncodeToString (sha256 ''abcdef''))
       = (Inr v, None) \<and> v_Path v = ''/i'' \<and> v_CompressedBytes v = 6 \<and> v_file v \<noteq> None"
proof -
  let ?f = "steady_file ''abcdef''"
  have "image_validateDigest (hex_EncodeToString (sha256 ''abcdef''))
      = Inr (hex_EncodeToString (sha256 ''abcdef''))"
    using hex_Encode_digest [of "sha256 ''abcdef''"] by (simp add: image_validateDigest_Inr)
  moreover obtain v f' where "verifyDescriptor ?f ''/i'' (hex_EncodeToString (sha256 ''abcdef'')) = (Inr v, f')"
    using verifyDescriptor_content [OF steady_file_content] by blast
  ultimately have run: "Verify (\<lambda>_. Inr ?f) ''/i'' (hex_EncodeToString (sha256 ''abcdef'')) = (Inr v, None)"
    by (simp add: Verify_def)
  from Verify_sound [OF run] have "v_Path v = ''/i'' \<and> v_CompressedBytes v = 6 \<and> v_file v \<noteq> None"
    by (auto simp: steady_file_def)
  with run show ?thesis by blast
qed

end
