(* ===== verification/Image_Write.thy ===== *)
theory Image_Write
  imports Verified
begin

text \<open>
  internal/image/write.go: streaming a held, verified source into an already opened destination.
  The destination answers the k-th write by an arbitrary function of the bytes it is given, so every
  short, failing or misbehaving write is covered; what it accepted is recorded in its log. The zstd
  decoder is third-party code and therefore a parameter: from the reader over the compressed bytes it
  yields the script of the expanded bytes, or an error.
\<close>

section \<open>Destinations\<close>

datatype dev_event =
    DevWrite bytes
  | DevSync
  | DevFdatasync
  | DevFlush
  | DevClose

record device =
  d_answer :: "nat \<Rightarrow> bytes \<Rightarrow> int \<times> goerr option"
  d_sync :: "nat \<Rightarrow> goerr option"
  d_count :: nat
  d_log :: "dev_event list"

fun written_bytes :: "dev_event list \<Rightarrow> bytes" where
  "written_bytes [] = []"
| "written_bytes (DevWrite p # es) = p @ written_bytes es"
| "written_bytes (e # es) = written_bytes es"

abbreviation device_data :: "device \<Rightarrow> bytes" where
  "device_data d \<equiv> written_bytes (d_log d)"

definition device_Write :: "device \<Rightarrow> bytes \<Rightarrow> (int \<times> goerr option) \<times> device" where
  "device_Write d p =
     (case d_answer d (d_count d) p of
        (count, err) \<Rightarrow>
          ((count, err),
           d\<lparr>d_count := Suc (d_count d), d_log := d_log d @ [DevWrite (take (nat count) p)]\<rparr>))"

definition device_Sync :: "device \<Rightarrow> goerr option \<times> device" where
  "device_Sync d = (d_sync d (length (d_log d)), d\<lparr>d_log := d_log d @ [DevSync]\<rparr>)"

section \<open>write.go\<close>

definition copyBufferBytes :: nat where
  "copyBufferBytes = 4 * 1024 * 1024"

record progress =
  p_WrittenBytes :: int
  p_ExpectedBytes :: int

definition readerWithContext :: "goctx \<Rightarrow> script \<Rightarrow> reader" where
  "readerWithContext ctx s = \<lparr>rd_ctx = Some ctx, rd_script = s, rd_limit = None\<rparr>"

text \<open>\<open>pw_callback\<close> says whether a callback is installed; \<open>pw_calls\<close> collects its arguments.\<close>

record progressWriter =
  pw_destination :: device
  pw_expected :: int
  pw_written :: int
  pw_callback :: bool
  pw_calls :: "progress list"

definition progressWriter_Write ::
  "progressWriter \<Rightarrow> bytes \<Rightarrow> (int \<times> goerr option) \<times> progressWriter" where
  "progressWriter_Write w buffer =
     (case device_Write (pw_destination w) buffer of
        ((written, err), d) \<Rightarrow>
          (let total = wrap64 (pw_written w + written)
           in ((written, err),
               w\<lparr>pw_destination := d, pw_written := total,
                 pw_calls := (if written > 0 \<and> pw_callback w
                              then pw_calls w @ [\<lparr>p_WrittenBytes = total, p_ExpectedBytes = pw_expected w\<rparr>]
                              else pw_calls w)\<rparr>)))"

definition validateWriteInputs ::
  "goctx option \<Rightarrow> verified option \<Rightarrow> device option \<Rightarrow> int \<Rightarrow> (goctx \<times> verified \<times> device) res" where
  "validateWriteInputs ctx source destination expectedBytes =
     (case ctx of
        None \<Rightarrow> Inl (Errorf ''%w: context is required'' [] (Sentinel ErrInvalidArgument))
      | Some c \<Rightarrow>
          (case ctx_Err c of
             (Some err, c') \<Rightarrow> Inl err
           | (None, c') \<Rightarrow>
               (case source of
                  None \<Rightarrow> Inl (Errorf ''%w: verified source is required'' [] (Sentinel ErrInvalidArgument))
                | Some s \<Rightarrow>
                    (case destination of
                       None \<Rightarrow> Inl (Errorf ''%w: destination is required'' [] (Sentinel ErrInvalidArgument))
                     | Some d \<Rightarrow>
                         (if expectedBytes \<le> 0
                          then Inl (Errorf ''%w: expected expanded byte count must be positive'' []
                                      (Sentinel ErrInvalidArgument))
                          else Inr (c', s, d))))))"

definition reverifySource ::
  "goctx \<Rightarrow> verified \<Rightarrow> osfile \<Rightarrow> goerr option \<times> goctx \<times> osfile" where
  "reverifySource ctx source f =
     (case file_Stat f of
        (Inl err, f1) \<Rightarrow> (Some (Errorf ''stat verified source: %w'' [] err), ctx, f1)
      | (Inr (regular, filesize), f1) \<Rightarrow>
          (if filesize \<noteq> v_CompressedBytes source
           then (Some (Errorf ''%w: got %d bytes, want %d''
                         [FInt filesize, FInt (v_CompressedBytes source)]
                         (Sentinel ErrSourceChanged)), ctx, f1)
           else case file_Seek f1 of
             (Some err, f2) \<Rightarrow> (Some (Errorf ''rewind verified source: %w'' [] err), ctx, f2)
           | (None, f2) \<Rightarrow>
               (case hash_copy copyBufferBytes (readerWithContext ctx (f_rest f2)) of
                  (copied, err, r, hashed) \<Rightarrow>
                    (let f3 = file_after f2 r; ctx' = the (rd_ctx r)
                     in case err of
                          Some e \<Rightarrow> (Some (Errorf ''reverify source content: %w'' [] e), ctx', f3)
                        | None \<Rightarrow>
                            (let actual = hex_EncodeToString (sha256 hashed)
                             in if actual \<noteq> v_SHA256 source
                                then (Some (Errorf ''%w: got SHA-256 %s'' [FStr actual]
                                              (Sentinel ErrSourceChanged)), ctx', f3)
                                else (case file_Seek f3 of
                                        (Some e, f4) \<Rightarrow>
                                          (Some (Errorf ''rewind verified source: %w'' [] e), ctx', f4)
                                      | (None, f4) \<Rightarrow> (None, ctx', f4)))))))"

type_synonym zstd_decoder = "reader \<Rightarrow> script res"

definition expandedReader :: "zstd_decoder \<Rightarrow> goctx \<Rightarrow> verified \<Rightarrow> osfile \<Rightarrow> reader res" where
  "expandedReader zstd_NewReader ctx source f =
     (let reader = readerWithContext ctx (f_rest f)
      in if v_Format source = FormatRaw then Inr reader
         else if v_Format source \<noteq> FormatZstd
         then Inl (Errorf ''%w: %q'' [FQuote (v_Format source)] (Sentinel ErrUnsupportedFormat))
         else (case zstd_NewReader reader of
                 Inl err \<Rightarrow> Inl (Errorf ''create zstd decoder: %w'' [] err)
               | Inr s \<Rightarrow> Inr (plain_reader s)))"

text \<open>What \<^verbatim>\<open>Write\<close> leaves behind: its result and error, the source, the destination, the progress calls.\<close>

record write_outcome =
  wo_WrittenBytes :: int
  wo_err :: "goerr option"
  wo_source :: "verified option"
  wo_destination :: "device option"
  wo_progress :: "progress list"

text \<open>The part of \<^verbatim>\<open>Write\<close> after the expanded reader has been made: copy, check, synchronise.\<close>

definition write_stream :: "reader \<Rightarrow> device \<Rightarrow> int \<Rightarrow> bool \<Rightarrow> int \<times> goerr option \<times> device \<times> progress list" where
  "write_stream reader destination expectedBytes progress =
     (let calls = (if progress then [\<lparr>p_WrittenBytes = 0, p_ExpectedBytes = expectedBytes\<rparr>] else []);
          reporter = \<lparr>pw_destination = destination, pw_expected = expectedBytes, pw_written = 0,
                      pw_callback = progress, pw_calls = calls\<rparr>
      in case copy_loop progressWriter_Write copyBufferBytes (io_LimitReader reader expectedBytes)
                reporter 0 of
           (written, err, limited, reporter') \<Rightarrow>
             (let d = pw_destination reporter'; calls' = pw_calls reporter'
              in case err of
                   Some e \<Rightarrow> (0, Some (Errorf ''write expanded image: %w'' [] e), d, calls')
                 | None \<Rightarrow>
                     (if written \<noteq> expectedBytes
                      then (0, Some (Errorf ''%w: expanded image is too short: got %d bytes, want %d''
                                       [FInt written, FInt expectedBytes]
                                       (Sentinel ErrSizeMismatch)), d, calls')
                      else case read_full 1 (limited\<lparr>rd_limit := None\<rparr>) [] of
                             (extra, err2, r) \<Rightarrow>
                               (if length extra > 0
                                then (0, Some (Errorf ''%w: expanded image exceeds %d bytes''
                                                 [FInt expectedBytes] (Sentinel ErrSizeMismatch)),
                                      d, calls')
                                else if (case err2 of None \<Rightarrow> False | Some e \<Rightarrow> \<not> errors_is e IoEOF)
                                then (0, Some (Errorf ''finish expanded image: %w'' [] (the err2)),
                                      d, calls')
                                else case device_Sync d of
                                       (Some e, d') \<Rightarrow>
                                         (written, Some (Errorf ''sync destination: %w'' [] e), d', calls')
                                     | (None, d') \<Rightarrow> (written, None, d', calls')))))"

definition image_Write ::
  "zstd_decoder \<Rightarrow> goctx option \<Rightarrow> verified option \<Rightarrow> device option \<Rightarrow> int \<Rightarrow> bool \<Rightarrow> write_outcome" where
  "image_Write zstd_NewReader ctx source destination expectedBytes progress =
     (let failed = (\<lambda>err src. \<lparr>wo_WrittenBytes = 0, wo_err = Some err, wo_source = src,
                               wo_destination = destination, wo_progress = []\<rparr>)
      in case validateWriteInputs ctx source destination expectedBytes of
           Inl err \<Rightarrow> failed err source
         | Inr (c, s, d) \<Rightarrow>
             (case v_file s of
                None \<Rightarrow>
                  failed (Errorf ''verified source descriptor is unavailable: %w'' []
                            (Sentinel OsErrClosed)) source
              | Some f \<Rightarrow>
                  (case reverifySource c s f of
                     (Some err, c', f') \<Rightarrow> failed err (Some (s\<lparr>v_file := Some f'\<rparr>))
                   | (None, c', f') \<Rightarrow>
                       (case expandedReader zstd_NewReader c' s f' of
                          Inl err \<Rightarrow> failed err (Some (s\<lparr>v_file := Some f'\<rparr>))
                        | Inr reader \<Rightarrow>
                            (case write_stream reader d expectedBytes progress of
                               (written, err, d', calls) \<Rightarrow>
                                 \<lparr>wo_WrittenBytes = written, wo_err = err,
                                  wo_source = Some (s\<lparr>v_file := Some f'\<rparr>),
                                  wo_destination = Some d', wo_progress = calls\<rparr>)))))"

section \<open>What reaches the destination\<close>

lemma written_bytes_append [simp]: "written_bytes (a @ b) = written_bytes a @ written_bytes b"
  by (induction a rule: written_bytes.induct) simp_all

lemma written_bytes_writes [simp]: "written_bytes (map DevWrite ps) = concat ps"
  by (induction ps) simp_all

lemma device_Write_log:
  "device_Write d p = ((count, err), d') \<Longrightarrow>
   d_log d' = d_log d @ [DevWrite (take (nat count) p)] \<and> d_answer d' = d_answer d \<and> d_sync d' = d_sync d"
  by (auto simp: device_Write_def split: prod.splits)

interpretation pw: byte_sink progressWriter_Write "\<lambda>w. device_data (pw_destination w)"
proof
  fix w p count werr w'
  assume "progressWriter_Write w p = ((count, werr), w')"
  then obtain d where "device_Write (pw_destination w) p = ((count, werr), d)" "pw_destination w' = d"
    by (auto simp: progressWriter_Write_def Let_def split: prod.splits)
  then show "device_data (pw_destination w') = device_data (pw_destination w) @ take (nat count) p"
    using device_Write_log by fastforce
qed

lemma copyBufferBytes_pos [simp]: "0 < copyBufferBytes"
  by (simp add: copyBufferBytes_def)

text \<open>The destination only ever sees writes while the copy runs.\<close>

definition only_writes :: "device \<Rightarrow> device \<Rightarrow> bool" where
  "only_writes d d' \<longleftrightarrow> d_sync d' = d_sync d \<and> (\<exists>ps. d_log d' = d_log d @ map DevWrite ps)"

lemma only_writes_Write:
  assumes "only_writes d (pw_destination w)"
  shows "only_writes d (pw_destination (snd (progressWriter_Write w p)))"
proof -
  obtain count err d' where dw: "device_Write (pw_destination w) p = ((count, err), d')"
    by (metis surj_pair)
  then have "pw_destination (snd (progressWriter_Write w p)) = d'"
    by (simp add: progressWriter_Write_def Let_def)
  moreover obtain ps where "d_log (pw_destination w) = d_log d @ map DevWrite ps"
    using assms by (auto simp: only_writes_def)
  then have "d_log d' = d_log d @ map DevWrite (ps @ [take (nat count) p])"
    using device_Write_log [OF dw] by simp
  ultimately show ?thesis
    using assms device_Write_log [OF dw] unfolding only_writes_def by metis
qed

definition initial_reporter :: "device \<Rightarrow> int \<Rightarrow> bool \<Rightarrow> progressWriter" where
  "initial_reporter d n progress =
     \<lparr>pw_destination = d, pw_expected = n, pw_written = 0, pw_callback = progress,
      pw_calls = (if progress then [\<lparr>p_WrittenBytes = 0, p_ExpectedBytes = n\<rparr>] else [])\<rparr>"

text \<open>The copy inside \<^verbatim>\<open>Write\<close>, and what it says about any outcome of the stream.\<close>

lemma write_stream_cases:
  assumes "write_stream r d n progress = (written, err, d', calls)"
  obtains k cerr lim w where
    "copy_loop progressWriter_Write copyBufferBytes (io_LimitReader r n) (initial_reporter d n progress) 0
       = (k, cerr, lim, w)"
    "calls = pw_calls w"
    "(d' = pw_destination w \<and> err \<noteq> None)
     \<or> (cerr = None \<and> k = n \<and> d' = (pw_destination w)\<lparr>d_log := d_log (pw_destination w) @ [DevSync]\<rparr>
        \<and> written = n
        \<and> err = map_option (Errorf ''sync destination: %w'' []) (d_sync (pw_destination w) (length (d_log (pw_destination w))))
        \<and> (\<exists>r' err2. read_full 1 (lim\<lparr>rd_limit := None\<rparr>) [] = ([], err2, r')
             \<and> (\<forall>e. err2 = Some e \<longrightarrow> errors_is e IoEOF)))"
proof -
  obtain k cerr lim w where run:
    "copy_loop progressWriter_Write copyBufferBytes (io_LimitReader r n) (initial_reporter d n progress) 0
       = (k, cerr, lim, w)"
    by (metis prod_cases4)
  obtain extra err2 r' where full: "read_full 1 (lim\<lparr>rd_limit := None\<rparr>) [] = (extra, err2, r')"
    by (metis prod_cases3)
  let ?bad = "case err2 of None \<Rightarrow> False | Some e \<Rightarrow> \<not> errors_is e IoEOF"
  show thesis
  proof (cases "cerr = None \<and> k = n \<and> extra = [] \<and> \<not> ?bad")
    case True
    have "calls = pw_calls w"
        "d' = (pw_destination w)\<lparr>d_log := d_log (pw_destination w) @ [DevSync]\<rparr>" "written = n"
        "err = map_option (Errorf ''sync destination: %w'' []) (d_sync (pw_destination w) (length (d_log (pw_destination w))))"
      using assms run full True
      by (cases "d_sync (pw_destination w) (length (d_log (pw_destination w)))";
          simp add: write_stream_def Let_def initial_reporter_def device_Sync_def)+
    moreover have "\<forall>e. err2 = Some e \<longrightarrow> errors_is e IoEOF"
      using True by auto
    ultimately show thesis
      using that [OF run] True full by blast
  next
    case False
    have "calls = pw_calls w \<and> d' = pw_destination w \<and> err \<noteq> None"
      using assms run full False
      by (cases cerr) (auto simp: write_stream_def Let_def initial_reporter_def split: if_splits)
    then show thesis
      using that [OF run] by blast
  qed
qed

lemma reader_data_limit [simp]: "reader_data (io_LimitReader r n) = take (nat n) (script_data (rd_script r))"
  by (simp add: reader_data_def io_LimitReader_def)

lemma rd_script_limit [simp]: "rd_script (io_LimitReader r n) = rd_script r" "rd_limit (io_LimitReader r n) = Some n"
  by (simp_all add: io_LimitReader_def)

lemma initial_reporter_destination [simp]: "pw_destination (initial_reporter d n p) = d"
  by (simp add: initial_reporter_def)

lemma only_writes_copy:
  assumes "copy_loop progressWriter_Write copyBufferBytes r (initial_reporter d n progress) 0
      = (k, cerr, lim, w)"
  shows "only_writes d (pw_destination w)"
  using assms copyBufferBytes_pos
proof (rule copy_invariant)
  show "only_writes d (pw_destination (initial_reporter d n progress))"
    by (auto simp: only_writes_def)
qed (rule only_writes_Write)

lemma write_stream_prefix:
  assumes "write_stream r d n progress = (written, err, d', calls)"
  shows "\<exists>q s. device_data d' = device_data d @ q \<and> take (nat n) (script_data (rd_script r)) = q @ s"
proof -
  from assms obtain k cerr lim w where run:
    "copy_loop progressWriter_Write copyBufferBytes (io_LimitReader r n) (initial_reporter d n progress) 0
       = (k, cerr, lim, w)"
    and d': "device_data d' = device_data (pw_destination w)"
    by (rule write_stream_cases) auto
  with pw.copy_accepts_prefix [OF run] show ?thesis
    by simp
qed

lemma write_stream_success:
  assumes "write_stream r d n progress = (written, None, d', calls)" and "0 < n"
  shows "written = n" and "device_data d' = device_data d @ script_data (rd_script r)"
    and "int (length (script_data (rd_script r))) = n"
    and "errors_is (script_end (rd_script r)) IoEOF"
    and "\<exists>ps. d_log d' = d_log d @ map DevWrite ps @ [DevSync]"
proof -
  from assms(1) obtain k cerr lim w where run:
    "copy_loop progressWriter_Write copyBufferBytes (io_LimitReader r n) (initial_reporter d n progress) 0
       = (k, cerr, lim, w)"
    and ok: "cerr = None" "k = n"
      "d' = (pw_destination w)\<lparr>d_log := d_log (pw_destination w) @ [DevSync]\<rparr>" "written = n"
    and full: "\<exists>r' err2. read_full 1 (lim\<lparr>rd_limit := None\<rparr>) [] = ([], err2, r')
         \<and> (\<forall>e. err2 = Some e \<longrightarrow> errors_is e IoEOF)"
    by (rule write_stream_cases) auto
  let ?all = "script_data (rd_script r)"
  from pw.copy_success [OF run [unfolded ok(1)] copyBufferBytes_pos]
  have data: "device_data (pw_destination w) = device_data d @ take (nat n) ?all"
      "k = int (length (take (nat n) ?all))"
      "?all = take (nat n) ?all @ script_data (rd_script lim)"
      "script_end (rd_script lim) = script_end (rd_script r)"
    by simp_all
  obtain err2 r' where f: "read_full 1 (lim\<lparr>rd_limit := None\<rparr>) [] = ([], err2, r')"
      and eof: "\<And>e. err2 = Some e \<Longrightarrow> errors_is e IoEOF"
    using full by blast
  from read_full_data [OF f] have "err2 \<noteq> None"
      "script_data (rd_script lim) = script_data (rd_script r')"
    by auto
  then obtain e where e: "err2 = Some e" "errors_is e IoEOF"
    using eof by auto
  with read_full_error [OF f [unfolded e(1)]]
  have "script_data (rd_script r') = []" "e = script_end (rd_script r)"
    by (auto simp: ctx_error_def data(4) split: if_splits)
  with data \<open>script_data (rd_script lim) = _\<close> have all: "take (nat n) ?all = ?all"
    by simp
  show "written = n"
    by (rule ok(4))
  show "device_data d' = device_data d @ ?all"
    using data(1) all by (simp add: ok(3))
  show "int (length ?all) = n"
    using data(2) all ok(2) by simp
  show "errors_is (script_end (rd_script r)) IoEOF"
    using e(2) \<open>e = _\<close> by simp
  show "\<exists>ps. d_log d' = d_log d @ map DevWrite ps @ [DevSync]"
    using only_writes_copy [OF run] by (auto simp: only_writes_def ok(3))
qed

section \<open>Reverification\<close>

lemma reverifySource_ok:
  assumes "reverifySource c s f = (None, c', f')"
  shows "\<exists>reg. f_stat f (f_stats f) = Inr (reg, v_CompressedBytes s)"
    and "hex_EncodeToString (sha256 (script_data (f_pass f (f_seeks f)))) = v_SHA256 s"
    and "script_end (f_pass f (f_seeks f)) = EOF"
    and "f_rest f' = f_pass f (Suc (f_seeks f))"
proof -
  from assms obtain reg f1 where st: "file_Stat f = (Inr (reg, v_CompressedBytes s), f1)"
    by (auto simp: reverifySource_def split: prod.splits sum.splits if_splits)
  obtain f2 where s1: "file_Seek f1 = (None, f2)"
    using assms st by (cases "file_Seek f1"; cases "fst (file_Seek f1)") (auto simp: reverifySource_def)
  obtain copied err r hashed where
    h: "hash_copy copyBufferBytes (readerWithContext c (f_rest f2)) = (copied, err, r, hashed)"
    by (metis prod_cases4)
  have err: "err = None"
    using assms st s1 h by (cases err) (auto simp: reverifySource_def Let_def)
  have sum: "hex_EncodeToString (sha256 hashed) = v_SHA256 s"
    using assms st s1 h err by (auto simp: reverifySource_def Let_def split: if_splits)
  obtain f4 where s2: "file_Seek (file_after f2 r) = (None, f4)" "f' = f4"
    using assms st s1 h err sum
    by (cases "file_Seek (file_after f2 r)"; cases "fst (file_Seek (file_after f2 r))")
       (auto simp: reverifySource_def Let_def)
  have f1: "f1 = f\<lparr>f_stats := Suc (f_stats f)\<rparr>" "f_stat f (f_stats f) = Inr (reg, v_CompressedBytes s)"
    using st by (simp_all add: file_Stat_def)
  have f2: "f_rest f2 = f_pass f (f_seeks f)" "f_seeks f2 = Suc (f_seeks f)" "f_pass f2 = f_pass f"
    using s1 by (simp_all add: file_Seek_ok f1)
  note hc = hash_copy_success [OF h [unfolded err] copyBufferBytes_pos]
  show "\<exists>reg. f_stat f (f_stats f) = Inr (reg, v_CompressedBytes s)"
    using f1 by blast
  show "hex_EncodeToString (sha256 (script_data (f_pass f (f_seeks f)))) = v_SHA256 s"
    using hc(1) sum f2(1) by (simp add: readerWithContext_def)
  show "script_end (f_pass f (f_seeks f)) = EOF"
    using hc(3) f2(1) by (simp add: readerWithContext_def)
  show "f_rest f' = f_pass f (Suc (f_seeks f))"
    using s2 f2(2,3) by (auto simp: file_Seek_ok file_after_def)
qed


section \<open>Progress\<close>

text \<open>
  The contract of \<^verbatim>\<open>io.Writer\<close>: the count is between zero and the number of bytes given.
\<close>

definition honest :: "device \<Rightarrow> bool" where
  "honest d \<longleftrightarrow> (\<forall>k p. 0 \<le> fst (d_answer d k p) \<and> fst (d_answer d k p) \<le> int (length p))"

text \<open>
  What the reporter maintains: its counter is the number of bytes accepted since the start, in 64
  bits, and its calls report strictly increasing such numbers, starting with zero.
\<close>

definition reports :: "device \<Rightarrow> int \<Rightarrow> progressWriter \<Rightarrow> bool" where
  "reports d n w \<longleftrightarrow>
     honest (pw_destination w) \<and> pw_callback w \<and> pw_expected w = n
     \<and> (\<exists>m ks. int (length (device_data (pw_destination w))) = int (length (device_data d)) + int m
          \<and> pw_written w = wrap64 (int m)
          \<and> pw_calls w = map (\<lambda>k. \<lparr>p_WrittenBytes = wrap64 (int k), p_ExpectedBytes = n\<rparr>) ks
          \<and> sorted_wrt (<) ks \<and> (\<forall>k \<in> set ks. k \<le> m) \<and> ks \<noteq> [] \<and> hd ks = 0)"

lemma reports_Write:
  assumes "reports d n w"
  shows "reports d n (snd (progressWriter_Write w p))"
proof -
  obtain count err d' where dw: "device_Write (pw_destination w) p = ((count, err), d')"
    by (metis surj_pair)
  from assms obtain m ks where inv: "honest (pw_destination w)" "pw_callback w" "pw_expected w = n"
      "int (length (device_data (pw_destination w))) = int (length (device_data d)) + int m"
      "pw_written w = wrap64 (int m)"
      "pw_calls w = map (\<lambda>k. \<lparr>p_WrittenBytes = wrap64 (int k), p_ExpectedBytes = n\<rparr>) ks"
      "sorted_wrt (<) ks" "\<forall>k \<in> set ks. k \<le> m" "ks \<noteq> []" "hd ks = 0"
    by (auto simp: reports_def)
  have count: "0 \<le> count" "count \<le> int (length p)"
    using inv(1) dw by (auto simp: device_Write_def honest_def split: prod.splits dest: spec2 [of _ "d_count (pw_destination w)" p])
  note log = device_Write_log [OF dw]
  have d': "honest d'" "length (device_data d') = length (device_data (pw_destination w)) + nat count"
    using log inv(1) count by (auto simp: honest_def)
  define ks' where "ks' = (if count > 0 then ks @ [m + nat count] else ks)"
  have w': "snd (progressWriter_Write w p) =
      w\<lparr>pw_destination := d', pw_written := wrap64 (int (m + nat count)),
        pw_calls := map (\<lambda>k. \<lparr>p_WrittenBytes = wrap64 (int k), p_ExpectedBytes = n\<rparr>) ks'\<rparr>"
    using inv count by (simp add: progressWriter_Write_def dw Let_def ks'_def)
  have ks': "sorted_wrt (<) ks' \<and> (\<forall>k \<in> set ks'. k \<le> m + nat count) \<and> ks' \<noteq> [] \<and> hd ks' = 0"
    using inv(7-10) by (auto simp: ks'_def sorted_wrt_append le_less_trans intro: le_trans trans_le_add1)
  have len: "int (length (device_data d')) = int (length (device_data d)) + int (m + nat count)"
    using d'(2) inv(4) by simp
  show ?thesis
    unfolding w' reports_def using d'(1) inv(2,3) len ks' by force
qed


lemma reports_initial: "honest d \<Longrightarrow> reports d n (initial_reporter d n True)"
  unfolding reports_def initial_reporter_def
  by (intro conjI exI [of _ 0] exI [of _ "[0]"]) (simp_all add: wrap64_def)

lemma write_stream_progress:
  assumes "write_stream r d n True = (written, err, d', calls)"
    and "honest d" "0 < n" "in_int64 n"
  shows "sorted_wrt (<) (map p_WrittenBytes calls)" and "calls \<noteq> []"
    and "p_WrittenBytes (hd calls) = 0"
    and "c \<in> set calls \<Longrightarrow> 0 \<le> p_WrittenBytes c \<and> p_WrittenBytes c \<le> n \<and> p_ExpectedBytes c = n"
proof -
  from assms(1) obtain k cerr lim w where run:
    "copy_loop progressWriter_Write copyBufferBytes (io_LimitReader r n) (initial_reporter d n True) 0
       = (k, cerr, lim, w)" and calls: "calls = pw_calls w"
    by (rule write_stream_cases) auto
  have "reports d n w"
    using run copyBufferBytes_pos reports_initial [OF assms(2)] reports_Write by (rule copy_invariant)
  then obtain m ks where inv:
      "int (length (device_data (pw_destination w))) = int (length (device_data d)) + int m"
      "pw_calls w = map (\<lambda>k. \<lparr>p_WrittenBytes = wrap64 (int k), p_ExpectedBytes = n\<rparr>) ks"
      "sorted_wrt (<) ks" "\<forall>k \<in> set ks. k \<le> m" "ks \<noteq> []" "hd ks = 0"
    by (auto simp: reports_def)
  from pw.copy_accepts_prefix [OF run copyBufferBytes_pos] obtain q s where
    q: "device_data (pw_destination w) = device_data d @ q"
      "take (nat n) (script_data (rd_script r)) = q @ s"
    by auto
  then have "length q \<le> nat n"
    by (metis append_eq_conv_conj length_take min.bounded_iff nat_le_linear take_all_iff)
  with q inv(1) have m: "int m \<le> n"
    using assms(3) by simp
  have id: "wrap64 (int k) = int k" if "k \<in> set ks" for k
    using that inv(4) m assms(4) by (intro wrap64_id) (auto simp: in_int64_def)
  have ints: "map p_WrittenBytes calls = map int ks"
    by (simp add: calls inv(2) id)
  show "sorted_wrt (<) (map p_WrittenBytes calls)"
    unfolding ints sorted_wrt_map using inv(3) by simp
  show "calls \<noteq> []"
    using inv(5) by (simp add: calls inv(2))
  show "p_WrittenBytes (hd calls) = 0"
    using inv(5,6) by (simp add: calls inv(2) hd_map wrap64_def)
  show "c \<in> set calls \<Longrightarrow> 0 \<le> p_WrittenBytes c \<and> p_WrittenBytes c \<le> n \<and> p_ExpectedBytes c = n"
    using inv(4) m id by (auto simp: calls inv(2))
qed

section \<open>Writes that cannot fail\<close>

definition accepting :: "device \<Rightarrow> bool" where
  "accepting d \<longleftrightarrow> (\<forall>k. d_sync d k = None) \<and> (\<forall>k p. d_answer d k p = (int (length p), None))"

interpretation pw_total: total_sink progressWriter_Write "\<lambda>w. device_data (pw_destination w)"
    "\<lambda>w. accepting (pw_destination w)"
  by unfold_locales
     (auto simp: progressWriter_Write_def device_Write_def accepting_def Let_def split: prod.splits)

lemma write_stream_steady:
  assumes "steady r" "rd_limit r = None" "accepting d" "0 < n"
    and "int (length (script_data (rd_script r))) = n"
  shows "fst (snd (write_stream r d n progress)) = None"
proof -
  let ?r = "io_LimitReader r n"
  have "steady ?r"
    using assms(1) by (simp add: steady_def uncancelled_def io_LimitReader_def)
  then obtain k lim w where run:
    "copy_loop progressWriter_Write copyBufferBytes ?r (initial_reporter d n progress) 0
       = (k, None, lim, w)" and lim: "steady lim" and w: "accepting (pw_destination w)"
    using pw_total.copy_never_fails [of copyBufferBytes ?r "initial_reporter d n progress" 0] assms(3)
    by auto
  from pw.copy_success [OF run copyBufferBytes_pos] assms(5)
  have k: "k = n" and rest: "script_data (rd_script lim) = []"
    by auto
  obtain extra err2 r' where full: "read_full 1 (lim\<lparr>rd_limit := None\<rparr>) [] = (extra, err2, r')"
    by (metis prod_cases3)
  have "steady (lim\<lparr>rd_limit := None\<rparr>)"
    using lim by (simp add: steady_def uncancelled_def)
  from read_full_steady [OF full this] rest have "extra = []"
    by (simp add: reader_data_def)
  then have "extra = []" "\<And>e. err2 = Some e \<Longrightarrow> errors_is e IoEOF"
    using read_full_steady [OF full \<open>steady (lim\<lparr>rd_limit := None\<rparr>)\<close>] by (auto simp: EOF_def)
  then show ?thesis
    using run full k w
    by (auto simp: write_stream_def Let_def initial_reporter_def device_Sync_def accepting_def
        split: option.splits)
qed


section \<open>The whole operation\<close>

lemma validateWriteInputs_Inr:
  "validateWriteInputs ctx source destination n = Inr (c', s, d) \<longleftrightarrow>
     source = Some s \<and> destination = Some d \<and> 0 < n \<and> (\<exists>c. ctx = Some c \<and> ctx_Err c = (None, c'))"
  by (auto simp: validateWriteInputs_def split: option.splits prod.splits)

lemma image_Write_cases:
  assumes "image_Write zstd ctx source destination n progress = out"
  obtains
    (refused) "wo_err out \<noteq> None" "wo_destination out = destination" "wo_progress out = []"
  | (streamed) c s f d c' f' r d' where
      "validateWriteInputs ctx source destination n = Inr (c, s, d)" "v_file s = Some f"
      "reverifySource c s f = (None, c', f')" "expandedReader zstd c' s f' = Inr r"
      "write_stream r d n progress = (wo_WrittenBytes out, wo_err out, d', wo_progress out)"
      "wo_destination out = Some d'"
proof (cases "validateWriteInputs ctx source destination n")
  case (Inl a)
  with assms show thesis
    by (intro refused) (auto simp: image_Write_def Let_def)
next
  case (Inr t)
  obtain c s d where t: "t = (c, s, d)"
    by (cases t)
  show thesis
  proof (cases "v_file s")
    case None
    with assms Inr t show ?thesis
      by (intro refused) (auto simp: image_Write_def Let_def)
  next
    case (Some f)
    obtain err c' f' where rev: "reverifySource c s f = (err, c', f')"
      by (metis prod_cases3)
    consider e where "err = Some e" | e where "err = None" "expandedReader zstd c' s f' = Inl e"
      | r where "err = None" "expandedReader zstd c' s f' = Inr r"
      by (cases err; cases "expandedReader zstd c' s f'") auto
    then show ?thesis
    proof cases
      case (3 r)
      obtain k e d' calls where "write_stream r d n progress = (k, e, d', calls)"
        by (metis prod_cases4)
      with assms Inr t Some rev 3 show ?thesis
        by (intro streamed) (auto simp: image_Write_def Let_def)
    qed (use assms Inr t Some rev refused in \<open>auto simp: image_Write_def Let_def\<close>)
  qed
qed

text \<open>
  The bytes that \<^verbatim>\<open>expandedReader\<close> yields for a source whose descriptor was just rewound: the file's own
  bytes for a raw image, the decoder's for a zstd image.
\<close>

definition expanded_stream :: "zstd_decoder \<Rightarrow> verified \<Rightarrow> script \<Rightarrow> script \<Rightarrow> bool" where
  "expanded_stream zstd s file out \<longleftrightarrow>
     (if v_Format s = FormatRaw then out = file
      else v_Format s = FormatZstd \<and> (\<exists>c. zstd (readerWithContext c file) = Inr out))"

lemma expandedReader_Inr:
  assumes "expandedReader zstd c s f = Inr r"
  shows "expanded_stream zstd s (f_rest f) (rd_script r)" and "rd_limit r = None"
  using assms
  by (auto simp: expandedReader_def expanded_stream_def readerWithContext_def Let_def
      split: if_splits sum.splits)

lemma image_Write_success:
  assumes "image_Write zstd ctx source destination n progress = out" and "wo_err out = None"
  obtains s f d d' expanded ps regular where
    "source = Some s" "v_file s = Some f" "destination = Some d" "wo_destination out = Some d'"
    "f_stat f (f_stats f) = Inr (regular, v_CompressedBytes s)"
    "hex_EncodeToString (sha256 (script_data (f_pass f (f_seeks f)))) = v_SHA256 s"
    "script_end (f_pass f (f_seeks f)) = EOF"
    "expanded_stream zstd s (f_pass f (f_seeks f + 1)) expanded"
    "d_log d' = d_log d @ map DevWrite ps @ [DevSync]"
    "concat ps = script_data expanded" "int (length (concat ps)) = n" "wo_WrittenBytes out = n"
  using assms(1)
proof (cases rule: image_Write_cases)
  case refused
  with assms(2) show thesis by simp
next
  case (streamed c s f d c' f' r d')
  from streamed(1) have inputs: "source = Some s" "destination = Some d" "0 < n"
    by (simp_all add: validateWriteInputs_Inr)
  note rev = reverifySource_ok [OF streamed(3)]
  note ok = write_stream_success [OF streamed(5) [unfolded assms(2)] inputs(3)]
  from ok(5) obtain ps where ps: "d_log d' = d_log d @ map DevWrite ps @ [DevSync]"
    by blast
  then have data: "concat ps = script_data (rd_script r)"
    using ok(2) by simp
  obtain regular where "f_stat f (f_stats f) = Inr (regular, v_CompressedBytes s)"
    using rev(1) by blast
  then show thesis
    using inputs streamed(2,6) rev(2-4) ok(1,3) ps data expandedReader_Inr(1) [OF streamed(4)]
    by (intro that [of s f d d' regular "rd_script r" ps]) simp_all
qed

lemma image_Write_source:
  assumes "wo_err (image_Write zstd ctx (Some s) destination n progress) = None"
  shows "\<exists>f. wo_source (image_Write zstd ctx (Some s) destination n progress) = Some (s\<lparr>v_file := Some f\<rparr>)"
  using assms
  by (auto simp: image_Write_def Let_def validateWriteInputs_def
      split: sum.splits option.splits prod.splits if_splits)

text \<open>
  C9. A write that reports success has done all of the following, in this order: the held descriptor
  still had the verified size, its complete content was read again and had the verified SHA-256, the
  descriptor was rewound, the expanded stream was copied to the destination completely and in order
  and had exactly the expected number of bytes, and the destination was synchronised after the last
  byte.
\<close>

theorem Write_success:
  assumes "image_Write zstd ctx source destination n progress = out" and "wo_err out = None"
  shows "\<exists>s f d d' expanded ps.
      source = Some s \<and> v_file s = Some f \<and> destination = Some d \<and> wo_destination out = Some d'
      \<and> (\<exists>regular. f_stat f (f_stats f) = Inr (regular, v_CompressedBytes s))
      \<and> hex_EncodeToString (sha256 (script_data (f_pass f (f_seeks f)))) = v_SHA256 s
      \<and> script_end (f_pass f (f_seeks f)) = EOF
      \<and> expanded_stream zstd s (f_pass f (f_seeks f + 1)) expanded
      \<and> d_log d' = d_log d @ map DevWrite ps @ [DevSync]
      \<and> concat ps = script_data expanded \<and> int (length (concat ps)) = n
      \<and> wo_WrittenBytes out = n"
  by (rule image_Write_success [OF assms]) (intro exI conjI, assumption+)

text \<open>
  C17. Whatever happens during a write, cancellation, read errors, short writes and a lying destination
  included, the destination has only seen writes and at most one final synchronisation; the bytes it
  accepted are a prefix of the expanded stream, never more than expected; and it has seen
  nothing at all unless the complete content of the held descriptor was re-read with the verified
  SHA-256 just before.
\<close>

theorem Write_bounded:
  assumes "image_Write zstd ctx (Some s) (Some d) n progress = out"
  shows "\<exists>d' ps. wo_destination out = Some d'
      \<and> (d_log d' = d_log d @ map DevWrite ps \<or> d_log d' = d_log d @ map DevWrite ps @ [DevSync])
      \<and> length (concat ps) \<le> nat n
      \<and> (d' = d
         \<or> (\<exists>f expanded rest. v_file s = Some f
             \<and> hex_EncodeToString (sha256 (script_data (f_pass f (f_seeks f)))) = v_SHA256 s
             \<and> expanded_stream zstd s (f_pass f (f_seeks f + 1)) expanded
             \<and> script_data expanded = concat ps @ rest))"
  using assms
proof (cases rule: image_Write_cases)
  case refused
  then show ?thesis
    by (intro exI [of _ d] exI [of _ "[]"]) simp
next
  case (streamed c s' f d0 c' f' r d')
  from streamed(1) have same: "s' = s" "d0 = d"
    by (auto simp: validateWriteInputs_Inr)
  from streamed(5) obtain k cerr lim w where run:
    "copy_loop progressWriter_Write copyBufferBytes (io_LimitReader r n) (initial_reporter d n progress) 0
       = (k, cerr, lim, w)"
    and d': "d_log d' = d_log (pw_destination w) \<or> d_log d' = d_log (pw_destination w) @ [DevSync]"
    unfolding same by (rule write_stream_cases) auto
  from only_writes_copy [OF run] obtain ps where ps: "d_log (pw_destination w) = d_log d @ map DevWrite ps"
    by (auto simp: only_writes_def)
  from pw.copy_accepts_prefix [OF run copyBufferBytes_pos] ps obtain rest where
    take: "take (nat n) (script_data (rd_script r)) = concat ps @ rest"
    by auto
  then have "length (concat ps) \<le> nat n"
    by (metis le_add1 length_append length_take min.bounded_iff order_trans)
  moreover have "script_data (rd_script r) = concat ps @ rest @ drop (nat n) (script_data (rd_script r))"
    by (metis append.assoc append_take_drop_id take)
  ultimately show ?thesis
    using ps d' streamed(2,6) reverifySource_ok(2,4) [OF streamed(3)]
      expandedReader_Inr(1) [OF streamed(4)]
    unfolding same by auto
qed

text \<open>
  C33. Progress is monotone. With a destination that keeps the contract of \<^verbatim>\<open>io.Writer\<close>, and whatever the
  outcome, the callback's arguments carry the expected size, start with zero, increase strictly and
  never exceed the expected size; the 64-bit counter does not overflow.
\<close>

theorem Write_progress_monotone:
  assumes "image_Write zstd ctx source (Some d) n True = out" and "honest d" and "in_int64 n"
  shows "sorted_wrt (<) (map p_WrittenBytes (wo_progress out))
    \<and> (\<forall>c \<in> set (wo_progress out). 0 \<le> p_WrittenBytes c \<and> p_WrittenBytes c \<le> n \<and> p_ExpectedBytes c = n)
    \<and> (wo_progress out = [] \<or> p_WrittenBytes (hd (wo_progress out)) = 0)"
  using assms(1)
proof (cases rule: image_Write_cases)
  case (streamed c s f d0 c' f' r d')
  then have d0: "d0 = d" and n: "0 < n"
    by (auto simp: validateWriteInputs_Inr)
  from write_stream_progress [OF streamed(5) [unfolded d0] assms(2) n assms(3)] show ?thesis
    by blast
qed simp

lemma reverifySource_content:
  assumes "holds_content f img" and "v_SHA256 s = hex_EncodeToString (sha256 img)"
    and "v_CompressedBytes s = int (length img)" and "ctx_left c = None"
  shows "\<exists>f'. reverifySource c s f = (None, c, f') \<and> holds_content f' img
    \<and> f_rest f' = f_pass f (Suc (f_seeks f))"
proof -
  let ?f1 = "f\<lparr>f_stats := Suc (f_stats f)\<rparr>"
  let ?f2 = "?f1\<lparr>f_seeks := Suc (f_seeks f), f_rest := f_pass f (f_seeks f)\<rparr>"
  let ?r = "readerWithContext c (f_pass f (f_seeks f))"
  have st: "file_Stat f = (Inr (True, v_CompressedBytes s), ?f1)"
    using assms(1,3) by (simp add: file_Stat_def holds_content_def)
  have s1: "file_Seek ?f1 = (None, ?f2)"
    using assms(1) by (simp add: file_Seek_content [of _ img])
  have "steady ?r" "rd_limit ?r = None" "script_data (rd_script ?r) = img"
    using assms(1,4) by (simp_all add: readerWithContext_def steady_def uncancelled_def holds_content_def)
  then obtain r' where h: "hash_copy copyBufferBytes ?r = (int (length img), None, r', img)"
    using hash_copy_steady [of copyBufferBytes ?r] by auto
  have ctx: "rd_ctx r' = Some c"
    using h assms(4) by (auto simp: hash_copy_def readerWithContext_def intro: copy_context)
  let ?f3 = "file_after ?f2 r'"
  have "holds_content ?f3 img"
    using assms(1) by (simp add: file_after_def)
  note s2 = file_Seek_content [OF this]
  show ?thesis
    using assms(1) s2 by (simp add: reverifySource_def st s1 h Let_def assms(2) ctx) (simp add: file_after_def)
qed

text \<open>
  A held raw source whose file keeps the verified content, a context that is not cancelled and a
  destination that accepts what it is given make the write succeed.
\<close>

lemma write_completes:
  assumes "v_file s = Some f" and "holds_content f img" and "img \<noteq> []"
    and "v_SHA256 s = hex_EncodeToString (sha256 img)" and "v_CompressedBytes s = int (length img)"
    and "v_Format s = FormatRaw" and "ctx_left c = None" and "accepting d"
  shows "\<exists>d'. wo_err (image_Write zstd (Some c) (Some s) (Some d) (int (length img)) progress) = None
    \<and> wo_destination (image_Write zstd (Some c) (Some s) (Some d) (int (length img)) progress) = Some d'
    \<and> device_data d' = device_data d @ img"
proof -
  let ?n = "int (length img)"
  have n: "0 < ?n"
    using assms(3) by simp
  have val: "validateWriteInputs (Some c) (Some s) (Some d) ?n = Inr (c, s, d)"
    using n assms(7) by (simp add: validateWriteInputs_Inr ctx_Err_def)
  obtain f' where rev: "reverifySource c s f = (None, c, f')" and f': "holds_content f' img"
    "f_rest f' = f_pass f (Suc (f_seeks f))"
    using reverifySource_content [OF assms(2,4,5,7)] by blast
  let ?r = "readerWithContext c (f_rest f')"
  have exp: "expandedReader zstd c s f' = Inr ?r"
    by (simp add: expandedReader_def assms(6) Let_def)
  have r: "steady ?r" "rd_limit ?r = None" "script_data (rd_script ?r) = img"
    using assms(2,7) f'(2) by (simp_all add: readerWithContext_def steady_def uncancelled_def holds_content_def)
  have "fst (snd (write_stream ?r d ?n progress)) = None"
    using r n assms(8) by (intro write_stream_steady) simp_all
  then obtain k d' calls where ws: "write_stream ?r d ?n progress = (k, None, d', calls)"
    by (metis prod.collapse fst_conv snd_conv)
  from write_stream_success(2) [OF ws n] r(3) have "device_data d' = device_data d @ img"
    by simp
  then show ?thesis
    by (simp add: image_Write_def Let_def val assms(1) rev exp ws)
qed


text \<open>
  C18. Verification followed by writing delivers the image. For a raw image in a file that keeps its
  content, a context that is not cancelled and a destination that accepts what it is given, \<^verbatim>\<open>Verify\<close>
  with the image's SHA-256 succeeds, and \<^verbatim>\<open>Write\<close> of the value it returned succeeds and leaves the
  destination with exactly the image's bytes appended.
\<close>

theorem Verify_then_Write:
  assumes "open path = Inr f" and "holds_content f img" and "img \<noteq> []" and "take 4 img \<noteq> zstdMagic"
    and "ctx_left c = None" and "accepting d"
  shows "\<exists>v d'. Verify open path (hex_EncodeToString (sha256 img)) = (Inr v, None)
    \<and> wo_err (image_Write zstd (Some c) (Some v) (Some d) (int (length img)) progress) = None
    \<and> wo_destination (image_Write zstd (Some c) (Some v) (Some d) (int (length img)) progress) = Some d'
    \<and> device_data d' = device_data d @ img"
proof -
  let ?d = "hex_EncodeToString (sha256 img)"
  obtain v f' where v: "verifyDescriptor f path ?d = (Inr v, f')"
    using verifyDescriptor_content [OF assms(2)] by blast
  moreover have "image_validateDigest ?d = Inr ?d"
    using hex_Encode_digest [of "sha256 img"] by (simp add: image_validateDigest_Inr)
  ultimately have ver: "Verify open path ?d = (Inr v, None)"
    using assms(1) by (simp add: Verify_def)
  have f': "holds_content f' img"
    unfolding verifyDescriptor_Inr(4) [OF v] using assms(2) by simp
  have img: "script_data (f_pass f k) = img" for k
    using assms(2) by (simp add: holds_content_def)
  have "v_file v = Some f'" "v_SHA256 v = ?d" "v_Format v = FormatRaw"
      "v_CompressedBytes v = int (length img)"
    unfolding verifyDescriptor_Inr(5) [OF v] img using assms(4) by simp_all
  with write_completes [of v f' img c d zstd progress] f' assms(3,5,6) ver show ?thesis
    by blast
qed

section \<open>Concrete inputs\<close>

definition example_device :: device where
  "example_device = \<lparr>d_answer = (\<lambda>_ p. (int (length p), None)), d_sync = (\<lambda>_. None), d_count = 0, d_log = []\<rparr>"

definition example_verified :: "bytes \<Rightarrow> verified" where
  "example_verified img =
     \<lparr>v_Path = ''/i'', v_SHA256 = hex_EncodeToString (sha256 img), v_Format = FormatRaw,
      v_CompressedBytes = int (length img), v_file = Some (steady_file img)\<rparr>"

definition background :: goctx where
  "background = \<lparr>ctx_left = None, ctx_deadline = False\<rparr>"

abbreviation no_zstd :: zstd_decoder where
  "no_zstd \<equiv> \<lambda>r. Inl (Opaque ''not a zstd stream'')"

lemma example_device_facts [simp]:
  "accepting example_device" "honest example_device" "d_log example_device = []"
  by (simp_all add: example_device_def accepting_def honest_def)

lemma example_write:
  "wo_err (image_Write no_zstd (Some background) (Some (example_verified ''abcdef''))
     (Some example_device) 6 True) = None"
  using write_completes [of "example_verified ''abcdef''" "steady_file ''abcdef''" "''abcdef''"
      background example_device no_zstd True]
  by (simp add: example_verified_def background_def)

theorem Verify_then_Write_witness:
  "\<exists>v d'. Verify (\<lambda>_. Inr (steady_file ''abcdef'')) ''/i'' (hex_EncodeToString (sha256 ''abcdef''))
       = (Inr v, None)
    \<and> wo_err (image_Write no_zstd (Some background) (Some v) (Some example_device) 6 True) = None
    \<and> wo_destination (image_Write no_zstd (Some background) (Some v) (Some example_device) 6 True) = Some d'
    \<and> device_data d' = ''abcdef''"
  using Verify_then_Write [of "\<lambda>_. Inr (steady_file ''abcdef'')" "''/i''" "steady_file ''abcdef''"
      "''abcdef''" background example_device no_zstd True]
  by (simp add: background_def zstdMagic_def)

theorem Write_success_witness:
  "\<exists>d' ps. wo_destination (image_Write no_zstd (Some background) (Some (example_verified ''abcdef''))
        (Some example_device) 6 True) = Some d'
      \<and> d_log d' = map DevWrite ps @ [DevSync] \<and> concat ps = ''abcdef''"
  using Write_success [OF refl example_write]
  by (auto simp: example_verified_def expanded_stream_def steady_file_def)

theorem Write_bounded_witness:
  "\<exists>d' ps. wo_destination (image_Write no_zstd (Some background) (Some (example_verified ''abcdef''))
        (Some example_device) 2 True) = Some d'
      \<and> (d_log d' = map DevWrite ps \<or> d_log d' = map DevWrite ps @ [DevSync])
      \<and> length (concat ps) \<le> 2"
  using Write_bounded [OF refl, of no_zstd "Some background" "example_verified ''abcdef''"
      example_device 2 True]
  by auto

theorem Write_progress_monotone_witness:
  "sorted_wrt (<) (map p_WrittenBytes (wo_progress
      (image_Write no_zstd (Some background) (Some (example_verified ''abcdef''))
        (Some example_device) 6 True)))"
proof -
  have "in_int64 6" by (simp add: in_int64_def)
  from Write_progress_monotone [OF refl example_device_facts(2) this] show ?thesis
    by blast
qed

end
