(* ===== verification/Execute.thy ===== *)
theory Execute
  imports Policy Image_Write
begin

text \<open>
  internal/linux/execute.go: the destructive sequence over the privileged boundary. The boundary is a
  record of functions that pass the world, so that the sequence is the code's own and what the calls
  do is open: internal/linux/system.go provides one boundary (theory System), and \<open>recorded\<close> turns any
  boundary into one that also keeps the sequence of its calls and how each one ended.
\<close>

section \<open>The request and the boundary\<close>

record request =
  q_Mode :: mode
  q_TargetPath :: gostring
  q_ImagePath :: gostring
  q_SHA256 :: gostring
  q_ExpectedBytes :: int
  q_Confirmation :: gostring
  q_Reboot :: bool

text \<open>
  The methods of the interface \<^verbatim>\<open>Boundary\<close>, and the \<^verbatim>\<open>Close\<close> methods of the two values it hands out.
  The world is \<open>'w\<close>, an opened target \<open>'t\<close>; a verified source is a pointer, hence an option.
\<close>

record ('w, 't) boundary =
  b_Inspect :: "goctx option \<Rightarrow> request \<Rightarrow> 'w \<Rightarrow> inspection res \<times> 'w"
  b_VerifyImage :: "gostring \<Rightarrow> gostring \<Rightarrow> 'w \<Rightarrow> verified option res \<times> 'w"
  b_Confirm :: "gostring \<Rightarrow> gostring \<Rightarrow> 'w \<Rightarrow> goerr option \<times> 'w"
  b_Mlockall :: "'w \<Rightarrow> goerr option \<times> 'w"
  b_Swapoff :: "'w \<Rightarrow> goerr option \<times> 'w"
  b_EnableSysRq :: "'w \<Rightarrow> goerr option \<times> 'w"
  b_RemountReadOnly :: "'w \<Rightarrow> goerr option \<times> 'w"
  b_SysRqSync :: "'w \<Rightarrow> goerr option \<times> 'w"
  b_SysRqReboot :: "'w \<Rightarrow> goerr option \<times> 'w"
  b_OpenTarget :: "gostring \<Rightarrow> mode \<Rightarrow> target_identity \<Rightarrow> 'w \<Rightarrow> 't res \<times> 'w"
  b_WriteVerified ::
    "goctx option \<Rightarrow> verified option \<Rightarrow> 't \<Rightarrow> int \<Rightarrow> bool \<Rightarrow> 'w
     \<Rightarrow> (int \<times> goerr option) \<times> progress list \<times> verified option \<times> 't \<times> 'w"
  b_Fdatasync :: "'t \<Rightarrow> 'w \<Rightarrow> goerr option \<times> 't \<times> 'w"
  b_FlushBlock :: "'t \<Rightarrow> 'w \<Rightarrow> goerr option \<times> 't \<times> 'w"
  b_CloseTarget :: "'t \<Rightarrow> 'w \<Rightarrow> goerr option \<times> 'w"
  b_CloseVerified :: "verified option \<Rightarrow> 'w \<Rightarrow> goerr option \<times> 'w"

section \<open>execute.go\<close>

definition sameIdentity :: "request \<Rightarrow> inspection \<Rightarrow> verified option \<Rightarrow> bool" where
  "sameIdentity request inspection verified \<longleftrightarrow>
     (case verified of
        None \<Rightarrow> False
      | Some v \<Rightarrow>
          n_Mode inspection = q_Mode request
          \<and> t_CanonicalPath (n_Target inspection) = q_TargetPath request
          \<and> i_Path (n_Image inspection) = q_ImagePath request
          \<and> i_SHA256 (n_Image inspection) = q_SHA256 request
          \<and> i_UncompressedBytes (n_Image inspection) = q_ExpectedBytes request
          \<and> v_Path v = i_Path (n_Image inspection)
          \<and> v_SHA256 v = i_SHA256 (n_Image inspection)
          \<and> v_CompressedBytes v = i_CompressedBytes (n_Image inspection))"

definition Prepare ::
  "goctx option \<Rightarrow> request \<Rightarrow> ('w, 't) boundary \<Rightarrow> 'w \<Rightarrow> (inspection \<times> verified option) res \<times> 'w" where
  "Prepare ctx request system w =
     (case b_Inspect system ctx request w of
        (Inl err, w1) \<Rightarrow> (Inl err, w1)
      | (Inr inspection, w1) \<Rightarrow>
          (case b_VerifyImage system (q_ImagePath request) (q_SHA256 request) w1 of
             (Inl err, w2) \<Rightarrow> (Inl err, w2)
           | (Inr verified, w2) \<Rightarrow>
               (if \<not> sameIdentity request inspection verified
                then (case b_CloseVerified system verified w2 of
                        (_, w3) \<Rightarrow>
                          (Inl (PolicyGate GateIdentityChanged
                                  ''target or image identity changed between inspection and verification'' []),
                           w3))
                else (Inr (inspection, verified), w2))))"

text \<open>The table of operations that \<^verbatim>\<open>prepareLive\<close> runs in order until one fails.\<close>

fun run_operations :: "(gostring \<times> ('w \<Rightarrow> goerr option \<times> 'w)) list \<Rightarrow> 'w \<Rightarrow> goerr option \<times> 'w" where
  "run_operations [] w = (None, w)"
| "run_operations ((name, run) # ops) w =
     (case run w of
        (Some err, w1) \<Rightarrow> (Some (Errorf ''%s: %w'' [FStr name] err), w1)
      | (None, w1) \<Rightarrow> run_operations ops w1)"

definition prepareLive :: "mode \<Rightarrow> ('w, 't) boundary \<Rightarrow> 'w \<Rightarrow> goerr option \<times> 'w" where
  "prepareLive mode system w =
     (if mode \<noteq> ModeLive then (None, w)
      else run_operations
        [(''lock process memory'', b_Mlockall system),
         (''disable swap'', b_Swapoff system),
         (''enable SysRq'', b_EnableSysRq system),
         (''remount filesystems read-only'', b_RemountReadOnly system)] w)"

definition rebootLive :: "mode \<Rightarrow> ('w, 't) boundary \<Rightarrow> 'w \<Rightarrow> goerr option \<times> 'w" where
  "rebootLive mode system w =
     (if mode \<noteq> ModeLive then (None, w)
      else case b_SysRqSync system w of
             (Some err, w1) \<Rightarrow> (Some (Errorf ''SysRq sync: %w'' [] err), w1)
           | (None, w1) \<Rightarrow>
               (case b_SysRqReboot system w1 of
                  (Some err, w2) \<Rightarrow> (Some (Errorf ''SysRq reboot: %w'' [] err), w2)
                | (None, w2) \<Rightarrow> (None, w2)))"

text \<open>
  \<^verbatim>\<open>Execute\<close> in three scopes, one per deferred \<^verbatim>\<open>Close\<close>: with the opened target, with the verified
  source, and the whole function. Each returns the result and the error, the progress calls, and
  what it leaves of the values it was given.
\<close>

definition execute_target ::
  "goctx option \<Rightarrow> request \<Rightarrow> ('w, 't) boundary \<Rightarrow> bool \<Rightarrow> verified option \<Rightarrow> 't \<Rightarrow> 'w
   \<Rightarrow> (int \<times> goerr option) \<times> progress list \<times> verified option \<times> 't \<times> 'w" where
  "execute_target ctx request system progress verified target w =
     (case b_WriteVerified system ctx verified target (q_ExpectedBytes request) progress w of
        ((result, Some err), calls, verified1, target1, w1) \<Rightarrow>
          ((0, Some err), calls, verified1, target1, w1)
      | ((result, None), calls, verified1, target1, w1) \<Rightarrow>
          (case b_Fdatasync system target1 w1 of
             (Some err, target2, w2) \<Rightarrow> ((0, Some err), calls, verified1, target2, w2)
           | (None, target2, w2) \<Rightarrow>
               (case b_FlushBlock system target2 w2 of
                  (Some err, target3, w3) \<Rightarrow> ((0, Some err), calls, verified1, target3, w3)
                | (None, target3, w3) \<Rightarrow>
                    (case rebootLive (q_Mode request) system w3 of
                       (Some err, w4) \<Rightarrow> ((0, Some err), calls, verified1, target3, w4)
                     | (None, w4) \<Rightarrow> ((result, None), calls, verified1, target3, w4)))))"

definition execute_verified ::
  "goctx option \<Rightarrow> request \<Rightarrow> ('w, 't) boundary \<Rightarrow> bool \<Rightarrow> inspection \<Rightarrow> verified option \<Rightarrow> 'w
   \<Rightarrow> (int \<times> goerr option) \<times> progress list \<times> verified option \<times> 'w" where
  "execute_verified ctx request system progress inspection verified w =
     (case b_Confirm system (q_Confirmation request) (n_ConfirmationToken inspection) w of
        (Some confirmErr, w1) \<Rightarrow> ((0, Some confirmErr), [], verified, w1)
      | (None, w1) \<Rightarrow>
          (if q_Mode request = ModeLive \<and> \<not> q_Reboot request
           then ((0, Some (PolicyGate GateLiveReboot
                             ''live overwrite requires explicit immediate reboot'' [])),
                 [], verified, w1)
           else case prepareLive (q_Mode request) system w1 of
             (Some prepareErr, w2) \<Rightarrow> ((0, Some prepareErr), [], verified, w2)
           | (None, w2) \<Rightarrow>
               (case b_OpenTarget system (q_TargetPath request) (q_Mode request)
                       (n_Target inspection) w2 of
                  (Inl err, w3) \<Rightarrow> ((0, Some err), [], verified, w3)
                | (Inr target, w3) \<Rightarrow>
                    (case execute_target ctx request system progress verified target w3 of
                       (result, calls, verified1, target1, w4) \<Rightarrow>
                         (case b_CloseTarget system target1 w4 of
                            (_, w5) \<Rightarrow> (result, calls, verified1, w5))))))"

definition Execute ::
  "goctx option \<Rightarrow> request \<Rightarrow> ('w, 't) boundary \<Rightarrow> bool \<Rightarrow> 'w
   \<Rightarrow> (int \<times> goerr option) \<times> progress list \<times> 'w" where
  "Execute ctx request system progress w =
     (case Prepare ctx request system w of
        (Inl err, w1) \<Rightarrow> ((0, Some err), [], w1)
      | (Inr (inspection, verified), w1) \<Rightarrow>
          (case execute_verified ctx request system progress inspection verified w1 of
             (result, calls, verified1, w2) \<Rightarrow>
               (case b_CloseVerified system verified1 w2 of
                  (_, w3) \<Rightarrow> (result, calls, w3))))"

section \<open>Recording the calls\<close>

datatype call =
    CInspect
  | CVerifyImage
  | CConfirm
  | CMlockall
  | CSwapoff
  | CEnableSysRq
  | CRemountReadOnly
  | COpenTarget
  | CWriteVerified
  | CFdatasync
  | CFlushBlock
  | CSysRqSync
  | CSysRqReboot
  | CCloseTarget
  | CCloseVerified

text \<open>A call with whether it succeeded.\<close>

type_synonym trace = "(call \<times> bool) list"

definition note_err ::
  "call \<Rightarrow> ('w \<Rightarrow> goerr option \<times> 'w) \<Rightarrow> 'w \<times> trace \<Rightarrow> goerr option \<times> 'w \<times> trace" where
  "note_err c run w =
     (case run (fst w) of (err, w1) \<Rightarrow> (err, w1, snd w @ [(c, err = None)]))"

definition note_res ::
  "call \<Rightarrow> ('w \<Rightarrow> 'a res \<times> 'w) \<Rightarrow> 'w \<times> trace \<Rightarrow> 'a res \<times> 'w \<times> trace" where
  "note_res c run w =
     (case run (fst w) of (r, w1) \<Rightarrow> (r, w1, snd w @ [(c, \<not> isl r)]))"

definition note_target ::
  "call \<Rightarrow> ('w \<Rightarrow> goerr option \<times> 't \<times> 'w) \<Rightarrow> 'w \<times> trace \<Rightarrow> goerr option \<times> 't \<times> 'w \<times> trace" where
  "note_target c run w =
     (case run (fst w) of (err, t, w1) \<Rightarrow> (err, t, w1, snd w @ [(c, err = None)]))"

definition recorded :: "('w, 't) boundary \<Rightarrow> ('w \<times> trace, 't) boundary" where
  "recorded b =
     \<lparr>b_Inspect = (\<lambda>ctx q. note_res CInspect (b_Inspect b ctx q)),
      b_VerifyImage = (\<lambda>p d. note_res CVerifyImage (b_VerifyImage b p d)),
      b_Confirm = (\<lambda>p e. note_err CConfirm (b_Confirm b p e)),
      b_Mlockall = note_err CMlockall (b_Mlockall b),
      b_Swapoff = note_err CSwapoff (b_Swapoff b),
      b_EnableSysRq = note_err CEnableSysRq (b_EnableSysRq b),
      b_RemountReadOnly = note_err CRemountReadOnly (b_RemountReadOnly b),
      b_SysRqSync = note_err CSysRqSync (b_SysRqSync b),
      b_SysRqReboot = note_err CSysRqReboot (b_SysRqReboot b),
      b_OpenTarget = (\<lambda>p m t. note_res COpenTarget (b_OpenTarget b p m t)),
      b_WriteVerified = (\<lambda>ctx v t n pr w.
        (case b_WriteVerified b ctx v t n pr (fst w) of
           (r, calls, v1, t1, w1) \<Rightarrow> (r, calls, v1, t1, w1, snd w @ [(CWriteVerified, snd r = None)]))),
      b_Fdatasync = (\<lambda>t. note_target CFdatasync (b_Fdatasync b t)),
      b_FlushBlock = (\<lambda>t. note_target CFlushBlock (b_FlushBlock b t)),
      b_CloseTarget = (\<lambda>t. note_err CCloseTarget (b_CloseTarget b t)),
      b_CloseVerified = (\<lambda>v. note_err CCloseVerified (b_CloseVerified b v))\<rparr>"


section \<open>Sequences of calls\<close>

definition ok_run :: "call list \<Rightarrow> trace" where
  "ok_run cs = map (\<lambda>c. (c, True)) cs"

text \<open>The calls \<open>cs\<close> were made in order up to the first failure, and \<open>ok\<close> says whether all succeeded.\<close>

definition ran :: "call list \<Rightarrow> trace \<Rightarrow> bool \<Rightarrow> bool" where
  "ran cs tr ok \<longleftrightarrow>
     (if ok then tr = ok_run cs else \<exists>ds c es. cs = ds @ c # es \<and> tr = ok_run ds @ [(c, False)])"

lemma ok_run_append [simp]: "ok_run (a @ b) = ok_run a @ ok_run b" "ok_run [] = []"
    "ok_run (c # cs) = (c, True) # ok_run cs" "map fst (ok_run cs) = cs"
    "(c, ok) \<in> set (ok_run cs) \<longleftrightarrow> c \<in> set cs \<and> ok" "ok_run cs = [] \<longleftrightarrow> cs = []"
  by (auto simp: ok_run_def comp_def)

lemma ran_Nil [simp]: "ran [] [] True"
  by (simp add: ran_def)

lemma ran_fail: "ran (ds @ c # es) (ok_run ds @ [(c, False)]) False"
  unfolding ran_def by auto

lemma ran_single [simp]: "ran [c] [(c, ok)] ok"
  using ran_fail [of "[]" c "[]"] by (cases ok) (simp_all add: ran_def)

lemma ran_append: "ran a t True \<Longrightarrow> ran b u ok \<Longrightarrow> ran (a @ b) (t @ u) ok"
  by (auto simp: ran_def split: if_splits) (metis append_assoc ok_run_append(1))

lemma ran_stop:
  assumes "ran a t False"
  shows "ran (a @ b) t False"
proof -
  obtain ds c es where "a = ds @ c # es" "t = ok_run ds @ [(c, False)]"
    using assms by (auto simp: ran_def)
  with ran_fail [of ds c "es @ b"] show ?thesis
    by simp
qed

lemma ran_Cons: "ran b u ok \<Longrightarrow> ran (c # b) ((c, True) # u) ok"
  using ran_append [of "[c]" "[(c, True)]" b u ok] by simp

lemma ran_Cons_stop [simp]: "ran (c # b) [(c, False)] False"
  using ran_fail [of "[]" c b] by simp

lemma ran_calls: "ran cs tr ok \<Longrightarrow> \<exists>rest. cs = map fst tr @ rest \<and> (ok \<longrightarrow> rest = [])"
  by (auto simp: ran_def split: if_splits)

lemma ran_failure: "ran cs tr ok \<Longrightarrow> (c, False) \<in> set tr \<Longrightarrow> \<not> ok \<and> last tr = (c, False)"
  by (auto simp: ran_def split: if_splits)

lemma recorded_sel [simp]:
  "b_Inspect (recorded b) ctx q = note_res CInspect (b_Inspect b ctx q)"
  "b_VerifyImage (recorded b) p d = note_res CVerifyImage (b_VerifyImage b p d)"
  "b_Confirm (recorded b) p e = note_err CConfirm (b_Confirm b p e)"
  "b_Mlockall (recorded b) = note_err CMlockall (b_Mlockall b)"
  "b_Swapoff (recorded b) = note_err CSwapoff (b_Swapoff b)"
  "b_EnableSysRq (recorded b) = note_err CEnableSysRq (b_EnableSysRq b)"
  "b_RemountReadOnly (recorded b) = note_err CRemountReadOnly (b_RemountReadOnly b)"
  "b_SysRqSync (recorded b) = note_err CSysRqSync (b_SysRqSync b)"
  "b_SysRqReboot (recorded b) = note_err CSysRqReboot (b_SysRqReboot b)"
  "b_OpenTarget (recorded b) p m ident = note_res COpenTarget (b_OpenTarget b p m ident)"
  "b_Fdatasync (recorded b) t = note_target CFdatasync (b_Fdatasync b t)"
  "b_FlushBlock (recorded b) t = note_target CFlushBlock (b_FlushBlock b t)"
  "b_CloseTarget (recorded b) t = note_err CCloseTarget (b_CloseTarget b t)"
  "b_CloseVerified (recorded b) v = note_err CCloseVerified (b_CloseVerified b v)"
  by (simp_all add: recorded_def)

lemma note_err_run: "note_err c run (w, tr) = (err, w', tr') \<Longrightarrow> tr' = tr @ [(c, err = None)]"
  by (auto simp: note_err_def split: prod.splits)

lemma note_res_run: "note_res c run (w, tr) = (r, w', tr') \<Longrightarrow> tr' = tr @ [(c, \<not> isl r)]"
  by (auto simp: note_res_def split: prod.splits)

lemma note_target_run: "note_target c run (w, tr) = (err, t, w', tr') \<Longrightarrow> tr' = tr @ [(c, err = None)]"
  by (auto simp: note_target_def split: prod.splits)

lemma recorded_write_run:
  "b_WriteVerified (recorded b) ctx v t n pr (w, tr) = (r, calls, v', t', w', tr') \<Longrightarrow>
   tr' = tr @ [(CWriteVerified, snd r = None)]"
  by (auto simp: recorded_def split: prod.splits)

definition live_calls :: "mode \<Rightarrow> call list" where
  "live_calls m = (if m = ModeLive then [CMlockall, CSwapoff, CEnableSysRq, CRemountReadOnly] else [])"

definition reboot_calls :: "mode \<Rightarrow> call list" where
  "reboot_calls m = (if m = ModeLive then [CSysRqSync, CSysRqReboot] else [])"

definition write_calls :: "mode \<Rightarrow> call list" where
  "write_calls m = [CWriteVerified, CFdatasync, CFlushBlock] @ reboot_calls m"

lemma run_operations_trace:
  assumes "run_operations (map (\<lambda>(c, name, run). (name, note_err c run)) ops) (w, tr) = (err, w', tr')"
  shows "\<exists>t. tr' = tr @ t \<and> ran (map fst ops) t (err = None)"
  using assms
proof (induction ops arbitrary: w tr)
  case (Cons op ops)
  obtain c name run where op: "op = (c, name, run)"
    by (cases op)
  obtain e w1 tr1 where r: "note_err c run (w, tr) = (e, w1, tr1)"
    by (metis prod_cases3)
  show ?case
  proof (cases e)
    case None
    with Cons.prems op r have "run_operations (map (\<lambda>(c, name, run). (name, note_err c run)) ops)
        (w1, tr1) = (err, w', tr')"
      by simp
    from Cons.IH [OF this] note_err_run [OF r] None op show ?thesis
      by (auto intro: ran_Cons)
  next
    case (Some x)
    with Cons.prems op r note_err_run [OF r] show ?thesis
      by auto
  qed
qed auto

lemma prepareLive_trace:
  assumes "prepareLive m (recorded b) (w, tr) = (err, w', tr')"
  shows "\<exists>t. tr' = tr @ t \<and> ran (live_calls m) t (err = None)"
proof (cases "m = ModeLive")
  case True
  with assms have "run_operations (map (\<lambda>(c, name, run). (name, note_err c run))
      [(CMlockall, ''lock process memory'', b_Mlockall b), (CSwapoff, ''disable swap'', b_Swapoff b),
       (CEnableSysRq, ''enable SysRq'', b_EnableSysRq b),
       (CRemountReadOnly, ''remount filesystems read-only'', b_RemountReadOnly b)]) (w, tr)
      = (err, w', tr')"
    by (simp add: prepareLive_def)
  from run_operations_trace [OF this] True show ?thesis
    by (simp add: live_calls_def)
qed (use assms in \<open>simp add: prepareLive_def live_calls_def\<close>)

lemma rebootLive_trace:
  assumes "rebootLive m (recorded b) (w, tr) = (err, w', tr')"
  shows "\<exists>t. tr' = tr @ t \<and> ran (reboot_calls m) t (err = None)"
proof (cases "m = ModeLive")
  case True
  obtain e w1 tr1 where r: "note_err CSysRqSync (b_SysRqSync b) (w, tr) = (e, w1, tr1)"
    by (metis prod_cases3)
  obtain e2 w2 tr2 where r2: "note_err CSysRqReboot (b_SysRqReboot b) (w1, tr1) = (e2, w2, tr2)"
    by (metis prod_cases3)
  from assms True r r2 note_err_run [OF r] note_err_run [OF r2] show ?thesis
    by (cases e; cases e2) (auto simp: rebootLive_def reboot_calls_def intro!: ran_Cons)
qed (use assms in \<open>simp add: rebootLive_def reboot_calls_def\<close>)

lemma execute_target_trace:
  assumes "execute_target ctx q (recorded b) progress v t (w, tr) = (result, calls, v', t', w', tr')"
  shows "\<exists>u. tr' = tr @ u \<and> ran (write_calls (q_Mode q)) u (snd result = None)"
proof -
  obtain n e c1 v1 t1 w1 tr1 where
    r1: "b_WriteVerified (recorded b) ctx v t (q_ExpectedBytes q) progress (w, tr) = ((n, e), c1, v1, t1, w1, tr1)"
    by (metis surj_pair)
  obtain e2 t2 w2 tr2 where r2: "note_target CFdatasync (b_Fdatasync b t1) (w1, tr1) = (e2, t2, w2, tr2)"
    by (metis prod_cases4)
  obtain e3 t3 w3 tr3 where r3: "note_target CFlushBlock (b_FlushBlock b t2) (w2, tr2) = (e3, t3, w3, tr3)"
    by (metis prod_cases4)
  obtain e4 w4 tr4 where r4: "rebootLive (q_Mode q) (recorded b) (w3, tr3) = (e4, w4, tr4)"
    by (metis prod_cases3)
  obtain u where u: "tr4 = tr3 @ u" "ran (reboot_calls (q_Mode q)) u (e4 = None)"
    using rebootLive_trace [OF r4] by blast
  note tr = recorded_write_run [OF r1] note_target_run [OF r2] note_target_run [OF r3]
  show ?thesis
    using assms r1 r2 r3 r4 tr u
    by (cases e; cases e2; cases e3; cases e4)
       (auto simp: execute_target_def write_calls_def intro!: ran_Cons)
qed

lemma execute_verified_trace:
  assumes "execute_verified ctx q (recorded b) progress n v (w, tr) = (result, calls, v', w', tr')"
  defines "gates \<equiv> CConfirm # live_calls (q_Mode q) @ [COpenTarget]"
  shows "(\<exists>u closed. tr' = tr @ ok_run gates @ u @ [(CCloseTarget, closed)]
        \<and> ran (write_calls (q_Mode q)) u (snd result = None)
        \<and> (q_Mode q = ModeLive \<longrightarrow> q_Reboot q))
    \<or> (\<exists>u. tr' = tr @ u \<and> snd result \<noteq> None
        \<and> (ran gates u False \<and> (q_Mode q = ModeLive \<longrightarrow> q_Reboot q)
           \<or> (\<exists>ok. u = [(CConfirm, ok)])))"
proof -
  obtain e1 w1 tr1 where
    r1: "note_err CConfirm (b_Confirm b (q_Confirmation q) (n_ConfirmationToken n)) (w, tr) = (e1, w1, tr1)"
    by (metis prod_cases3)
  obtain e2 w2 tr2 where r2: "prepareLive (q_Mode q) (recorded b) (w1, tr1) = (e2, w2, tr2)"
    by (metis prod_cases3)
  obtain r w3 tr3 where
    r3: "note_res COpenTarget (b_OpenTarget b (q_TargetPath q) (q_Mode q) (n_Target n)) (w2, tr2) = (r, w3, tr3)"
    by (metis prod_cases3)
  obtain u where u: "tr2 = tr1 @ u" "ran (live_calls (q_Mode q)) u (e2 = None)"
    using prepareLive_trace [OF r2] by blast
  note t1 = note_err_run [OF r1] and t3 = note_res_run [OF r3]
  show ?thesis
  proof (cases "e1 = None \<and> (q_Mode q = ModeLive \<longrightarrow> q_Reboot q)")
    case False
    then show ?thesis
      using assms(1) r1 t1 by (cases e1) (auto simp: execute_verified_def)
  next
    case ok: True
    show ?thesis
    proof (cases e2)
      case (Some x)
      with u have "ran gates ((CConfirm, True) # u) False"
        unfolding gates_def by (auto intro: ran_Cons ran_stop)
      with Some ok assms(1) r1 r2 t1 u(1) show ?thesis
        by (auto simp: execute_verified_def)
    next
      case None
      with u have pre: "u = ok_run (live_calls (q_Mode q))"
        by (simp add: ran_def)
      show ?thesis
      proof (cases r)
        case (Inl x)
        have "ran gates ((CConfirm, True) # u @ [(COpenTarget, False)]) False"
          unfolding gates_def using pre by (intro ran_Cons ran_append ran_single) (simp add: ran_def)
        with Inl None ok assms(1) r1 r2 r3 t1 t3 u(1) show ?thesis
          by (auto simp: execute_verified_def)
      next
        case (Inr t)
        obtain res c v2 t' w4 tr4 where
          r4: "execute_target ctx q (recorded b) progress v t (w3, tr3) = (res, c, v2, t', w4, tr4)"
          by (metis prod_cases6)
        obtain e5 w5 tr5 where r5: "note_err CCloseTarget (b_CloseTarget b t') (w4, tr4) = (e5, w5, tr5)"
          by (metis prod_cases3)
        obtain u2 where u2: "tr4 = tr3 @ u2" "ran (write_calls (q_Mode q)) u2 (snd res = None)"
          using execute_target_trace [OF r4] by blast
        have "result = res" "tr' = tr5"
          using Inr None ok assms(1) r1 r2 r3 r4 r5 by (auto simp: execute_verified_def)
        with u2 ok t1 t3 u(1) pre Inr note_err_run [OF r5] show ?thesis
          unfolding gates_def by (intro disjI1 exI [of _ u2] exI [of _ "e5 = None"]) auto
      qed
    qed
  qed
qed


section \<open>Recording changes nothing\<close>

lemma note_err_same: "note_err c run (w, tr) = (e, w', tr') \<Longrightarrow> run w = (e, w')"
  by (auto simp: note_err_def split: prod.splits)

lemma note_res_same: "note_res c run (w, tr) = (r, w', tr') \<Longrightarrow> run w = (r, w')"
  by (auto simp: note_res_def split: prod.splits)

lemma note_target_same: "note_target c run (w, tr) = (e, t, w', tr') \<Longrightarrow> run w = (e, t, w')"
  by (auto simp: note_target_def split: prod.splits)

lemma recorded_write_same:
  "b_WriteVerified (recorded b) ctx v t n pr (w, tr) = (r, calls, v', t', w', tr') \<Longrightarrow>
   b_WriteVerified b ctx v t n pr w = (r, calls, v', t', w')"
  by (auto simp: recorded_def split: prod.splits)

lemmas note_same = note_err_same note_res_same note_target_same recorded_write_same

lemma run_operations_same:
  "run_operations (map (\<lambda>(c, name, run). (name, note_err c run)) ops) (w, tr) = (e, w', tr') \<Longrightarrow>
   run_operations (map snd ops) w = (e, w')"
proof (induction ops arbitrary: w tr)
  case (Cons op ops)
  then show ?case
    by (cases op) (auto split: prod.splits option.splits dest!: note_err_same)
qed simp

lemma prepareLive_same:
  assumes "prepareLive m (recorded b) (w, tr) = (e, w', tr')"
  shows "prepareLive m b w = (e, w')"
proof (cases "m = ModeLive")
  case True
  then show ?thesis
    using run_operations_same [of "[(CMlockall, ''lock process memory'', b_Mlockall b),
        (CSwapoff, ''disable swap'', b_Swapoff b), (CEnableSysRq, ''enable SysRq'', b_EnableSysRq b),
        (CRemountReadOnly, ''remount filesystems read-only'', b_RemountReadOnly b)]" w tr e w' tr'] assms
    by (simp add: prepareLive_def)
qed (use assms in \<open>simp add: prepareLive_def\<close>)

lemma rebootLive_same:
  "rebootLive m (recorded b) (w, tr) = (e, w', tr') \<Longrightarrow> rebootLive m b w = (e, w')"
  by (auto simp: rebootLive_def split: if_splits prod.splits option.splits dest!: note_same)

lemma Prepare_same:
  "Prepare ctx q (recorded b) (w, tr) = (r, w', tr') \<Longrightarrow> Prepare ctx q b w = (r, w')"
  by (auto simp: Prepare_def split: if_splits prod.splits sum.splits dest!: note_same)

lemma execute_target_same:
  assumes "execute_target ctx q (recorded b) pr v t (w, tr) = (res, calls, v', t', w', tr')"
  shows "execute_target ctx q b pr v t w = (res, calls, v', t', w')"
proof -
  obtain n e c1 v1 t1 w1 tr1 where
    r1: "b_WriteVerified (recorded b) ctx v t (q_ExpectedBytes q) pr (w, tr) = ((n, e), c1, v1, t1, w1, tr1)"
    by (metis surj_pair)
  obtain e2 t2 w2 tr2 where r2: "note_target CFdatasync (b_Fdatasync b t1) (w1, tr1) = (e2, t2, w2, tr2)"
    by (metis prod_cases4)
  obtain e3 t3 w3 tr3 where r3: "note_target CFlushBlock (b_FlushBlock b t2) (w2, tr2) = (e3, t3, w3, tr3)"
    by (metis prod_cases4)
  obtain e4 w4 tr4 where r4: "rebootLive (q_Mode q) (recorded b) (w3, tr3) = (e4, w4, tr4)"
    by (metis prod_cases3)
  note same = note_same(4) [OF r1] note_same(3) [OF r2] note_same(3) [OF r3] rebootLive_same [OF r4]
  show ?thesis
    using assms r1 r2 r3 r4
    by (cases e; cases e2; cases e3; cases e4) (auto simp: execute_target_def same)
qed

lemma execute_verified_same:
  assumes "execute_verified ctx q (recorded b) pr n v (w, tr) = (res, calls, v', w', tr')"
  shows "execute_verified ctx q b pr n v w = (res, calls, v', w')"
proof -
  obtain e1 w1 tr1 where
    r1: "note_err CConfirm (b_Confirm b (q_Confirmation q) (n_ConfirmationToken n)) (w, tr) = (e1, w1, tr1)"
    by (metis prod_cases3)
  obtain e2 w2 tr2 where r2: "prepareLive (q_Mode q) (recorded b) (w1, tr1) = (e2, w2, tr2)"
    by (metis prod_cases3)
  obtain r w3 tr3 where
    r3: "note_res COpenTarget (b_OpenTarget b (q_TargetPath q) (q_Mode q) (n_Target n)) (w2, tr2) = (r, w3, tr3)"
    by (metis prod_cases3)
  note same = note_same(1) [OF r1] prepareLive_same [OF r2] note_same(2) [OF r3]
  show ?thesis
  proof (cases "(\<exists>t. r = Inr t) \<and> e1 = None \<and> e2 = None \<and> \<not> (q_Mode q = ModeLive \<and> \<not> q_Reboot q)")
    case False
    then show ?thesis
      using assms r1 r2 r3 by (cases e1; cases e2; cases r) (auto simp: execute_verified_def same)
  next
    case True
    then obtain t where t: "r = Inr t"
      by blast
    obtain re c v2 t' w4 tr4 where
      r4: "execute_target ctx q (recorded b) pr v t (w3, tr3) = (re, c, v2, t', w4, tr4)"
      by (metis prod_cases6)
    obtain e5 w5 tr5 where r5: "note_err CCloseTarget (b_CloseTarget b t') (w4, tr4) = (e5, w5, tr5)"
      by (metis prod_cases3)
    show ?thesis
      using assms r1 r2 r3 r4 r5 True t
      by (auto simp: execute_verified_def same execute_target_same [OF r4] note_same(1) [OF r5])
  qed
qed

lemma Execute_same:
  "Execute ctx q (recorded b) pr (w, tr) = (res, calls, w', tr') \<Longrightarrow> Execute ctx q b pr w = (res, calls, w')"
  by (auto simp: Execute_def split: prod.splits sum.splits
      dest!: Prepare_same execute_verified_same note_same)

section \<open>The order of the destructive sequence\<close>

definition plan :: "mode \<Rightarrow> call list" where
  "plan m = [CInspect, CVerifyImage, CConfirm] @ live_calls m @ [COpenTarget] @ write_calls m"

text \<open>
  What holds of a complete trace: it is \<open>pre\<close> followed by closes; \<open>pre\<close> is an initial part of the plan,
  nothing follows a failure in it, and exactly what was acquired is closed, the target first.
\<close>

definition orderly :: "mode \<Rightarrow> bool \<Rightarrow> bool \<Rightarrow> trace \<Rightarrow> bool" where
  "orderly m reboot ok tr \<longleftrightarrow>
     (\<exists>pre post rest. tr = pre @ post \<and> plan m = map fst pre @ rest \<and> (ok \<longrightarrow> rest = [])
        \<and> (\<forall>c. (c, False) \<in> set pre \<longrightarrow> \<not> ok \<and> last pre = (c, False))
        \<and> map fst post = (if (COpenTarget, True) \<in> set pre then [CCloseTarget] else [])
                         @ (if (CVerifyImage, True) \<in> set pre then [CCloseVerified] else [])
        \<and> (m = ModeLive \<and> COpenTarget \<in> fst ` set pre \<longrightarrow> reboot))"

lemma orderlyI:
  assumes "tr = pre @ post" "plan m = map fst pre @ rest" "ok \<longrightarrow> rest = []"
    and "\<And>c. (c, False) \<in> set pre \<Longrightarrow> \<not> ok \<and> last pre = (c, False)"
    and "map fst post = (if (COpenTarget, True) \<in> set pre then [CCloseTarget] else [])
                         @ (if (CVerifyImage, True) \<in> set pre then [CCloseVerified] else [])"
    and "m = ModeLive \<Longrightarrow> COpenTarget \<in> fst ` set pre \<Longrightarrow> reboot"
  shows "orderly m reboot ok tr"
  unfolding orderly_def using assms by blast

lemma orderly_success:
  assumes "orderly m reboot True tr"
  shows "set (plan m) \<subseteq> fst ` set tr"
proof -
  obtain pre post where "tr = pre @ post" "plan m = map fst pre"
    using assms by (auto simp: orderly_def)
  then show ?thesis
    by (simp add: image_Un)
qed

lemma not_in_calls [simp]:
  "COpenTarget \<notin> set (live_calls m)" "CVerifyImage \<notin> set (live_calls m)"
  "COpenTarget \<notin> set (write_calls m)" "CVerifyImage \<notin> set (write_calls m)"
  by (simp_all add: live_calls_def write_calls_def reboot_calls_def)

lemma ran_mem: "ran cs tr ok \<Longrightarrow> (c, b) \<in> set tr \<Longrightarrow> c \<in> set cs"
  by (auto simp: ran_def split: if_splits)

lemma Prepare_trace:
  assumes "Prepare ctx q (recorded b) (w, []) = (r, w', tr)"
  shows "(\<exists>n v. r = Inr (n, v) \<and> sameIdentity q n v \<and> tr = ok_run [CInspect, CVerifyImage])
    \<or> isl r \<and> (tr = [(CInspect, False)] \<or> tr = [(CInspect, True), (CVerifyImage, False)]
              \<or> (\<exists>closed. tr = [(CInspect, True), (CVerifyImage, True), (CCloseVerified, closed)]))"
  using assms
  by (auto simp: Prepare_def note_res_def note_err_def split: prod.splits sum.splits if_splits)

lemma orderly_gates:
  assumes "ran (CConfirm # live_calls m @ [COpenTarget]) u False" and "m = ModeLive \<Longrightarrow> reboot"
  shows "orderly m reboot False (ok_run [CInspect, CVerifyImage] @ u @ [(CCloseVerified, closed)])"
proof -
  obtain rest where rest: "CConfirm # live_calls m @ [COpenTarget] = map fst u @ rest"
    using ran_calls [OF assms(1)] by blast
  have "(COpenTarget, True) \<notin> set u"
    using assms(1)
    by (auto simp: ran_def append_eq_append_conv2 append_eq_Cons_conv Cons_eq_append_conv)
       (metis Un_iff not_in_calls(1) set_append)
  moreover have "last (ok_run [CInspect, CVerifyImage] @ u) = last u" if "u \<noteq> []"
    using that by simp
  ultimately show ?thesis
    using rest assms ran_failure [OF assms(1)]
    by (intro orderlyI [where pre = "ok_run [CInspect, CVerifyImage] @ u"
          and rest = "rest @ write_calls m"]) (auto simp: plan_def)
qed

lemma orderly_opened:
  assumes "ran (write_calls m) u ok" and "m = ModeLive \<Longrightarrow> reboot"
  shows "orderly m reboot ok (ok_run ([CInspect, CVerifyImage, CConfirm] @ live_calls m @ [COpenTarget])
    @ u @ [(CCloseTarget, closed), (CCloseVerified, closed2)])"
proof -
  let ?pre = "ok_run ([CInspect, CVerifyImage, CConfirm] @ live_calls m @ [COpenTarget]) @ u"
  obtain rest where rest: "write_calls m = map fst u @ rest" "ok \<longrightarrow> rest = []"
    using ran_calls [OF assms(1)] by blast
  show ?thesis
    using rest assms ran_failure [OF assms(1)] ran_mem [OF assms(1)]
    by (intro orderlyI [where pre = ?pre and rest = rest]) (auto simp: plan_def)
qed

lemma orderly_unprepared:
  assumes "tr = [(CInspect, False)] \<or> tr = [(CInspect, True), (CVerifyImage, False)]
    \<or> (\<exists>closed. tr = [(CInspect, True), (CVerifyImage, True), (CCloseVerified, closed)])"
  shows "orderly m reboot False tr"
proof -
  from assms consider "tr = [(CInspect, False)]" | "tr = [(CInspect, True), (CVerifyImage, False)]"
    | closed where "tr = [(CInspect, True), (CVerifyImage, True), (CCloseVerified, closed)]"
    by fastforce
  then show ?thesis
  proof cases
    case 1
    then show ?thesis
      by (intro orderlyI [where pre = tr and post = "[]" and rest = "tl (plan m)"]) (simp_all add: plan_def)
  next
    case 2
    then show ?thesis
      by (intro orderlyI [where pre = tr and post = "[]" and rest = "tl (tl (plan m))"]) (auto simp: plan_def)
  next
    case (3 closed)
    then show ?thesis
      by (intro orderlyI [where pre = "take 2 tr" and post = "[(CCloseVerified, closed)]"
            and rest = "tl (tl (plan m))"]) (auto simp: plan_def)
  qed
qed

lemma Execute_orderly:
  assumes "Execute ctx q (recorded b) progress (w, []) = (result, calls, w', tr)"
  shows "orderly (q_Mode q) (q_Reboot q) (snd result = None) tr"
proof -
  obtain r w1 tr1 where p: "Prepare ctx q (recorded b) (w, []) = (r, w1, tr1)"
    by (metis prod_cases3)
  consider (failed) e where "r = Inl e"
      "tr1 = [(CInspect, False)] \<or> tr1 = [(CInspect, True), (CVerifyImage, False)]
       \<or> (\<exists>closed. tr1 = [(CInspect, True), (CVerifyImage, True), (CCloseVerified, closed)])"
    | (ready) n v where "r = Inr (n, v)" "tr1 = ok_run [CInspect, CVerifyImage]"
    using Prepare_trace [OF p] by (cases r) auto
  then show ?thesis
  proof cases
    case failed
    then have "tr = tr1" "snd result \<noteq> None"
      using assms p by (auto simp: Execute_def)
    with orderly_unprepared [OF failed(2), of "q_Mode q" "q_Reboot q"] show ?thesis
      by (simp del: not_None_eq)
  next
    case (ready n v)
    obtain res c v' w2 tr2 where
      x: "execute_verified ctx q (recorded b) progress n v (w1, tr1) = (res, c, v', w2, tr2)"
      by (metis prod_cases5)
    obtain e w3 tr3 where y: "note_err CCloseVerified (b_CloseVerified b v') (w2, tr2) = (e, w3, tr3)"
      by (metis prod_cases3)
    have res: "result = res" "tr = tr2 @ [(CCloseVerified, e = None)]"
      using assms p ready(1) x y note_err_run [OF y] by (auto simp: Execute_def)
    from execute_verified_trace [OF x] show ?thesis
    proof (elim disjE exE conjE)
      fix u closed
      assume "tr2 = tr1 @ ok_run (CConfirm # live_calls (q_Mode q) @ [COpenTarget]) @ u @ [(CCloseTarget, closed)]"
        "ran (write_calls (q_Mode q)) u (snd res = None)" "q_Mode q = ModeLive \<longrightarrow> q_Reboot q"
      with orderly_opened [of "q_Mode q" u "snd res = None" "q_Reboot q" closed "e = None"] show ?thesis
        by (simp add: res ready(2))
    next
      fix u
      assume "tr2 = tr1 @ u" "snd res \<noteq> None"
        "ran (CConfirm # live_calls (q_Mode q) @ [COpenTarget]) u False" "q_Mode q = ModeLive \<longrightarrow> q_Reboot q"
      with orderly_gates [of "q_Mode q" u "q_Reboot q" "e = None"] show ?thesis
        by (auto simp: res ready(2))
    next
      fix u ok
      assume "tr2 = tr1 @ u" "snd res \<noteq> None" "u = [(CConfirm, ok)]"
      then show ?thesis
        unfolding res ready(2)
        by (intro orderlyI [where pre = "ok_run [CInspect, CVerifyImage] @ [(CConfirm, ok)]"
              and post = "[(CCloseVerified, e = None)]"]) (auto simp: plan_def)
    qed
  qed
qed


text \<open>
  C4. The order of every execution, over every boundary and whatever its calls answer (recording the
  calls does not change what is executed): inspection,
  verification, confirmation, in live mode the four preparations, then opening the target, the
  write, fdatasync, the block flush, and in live mode the final sync and reboot. The calls made are an
  initial part of this plan, all of it when \<^verbatim>\<open>Execute\<close> succeeds; nothing but closing follows a failed
  call; the target is never opened in live mode without the reboot flag; and the target and the source
  are closed exactly when they were acquired, once, the target first.
\<close>

theorem Execute_order:
  assumes "Execute ctx q (recorded b) progress (w, []) = (result, calls, w', tr)"
  shows "Execute ctx q b progress w = (result, calls, w')
    \<and> orderly (q_Mode q) (q_Reboot q) (snd result = None) tr"
  using Execute_same [OF assms] Execute_orderly [OF assms] by simp

text \<open>A boundary whose calls all succeed, on which the theorem is applied.\<close>

definition quiet_boundary :: "inspection \<Rightarrow> verified \<Rightarrow> (unit, device) boundary" where
  "quiet_boundary n v =
     \<lparr>b_Inspect = (\<lambda>_ _ w. (Inr n, w)), b_VerifyImage = (\<lambda>_ _ w. (Inr (Some v), w)),
      b_Confirm = (\<lambda>p e w. (if p = e then None else Some (PolicyGate GateConfirmation '''' []), w)),
      b_Mlockall = Pair None, b_Swapoff = Pair None, b_EnableSysRq = Pair None,
      b_RemountReadOnly = Pair None, b_SysRqSync = Pair None, b_SysRqReboot = Pair None,
      b_OpenTarget = (\<lambda>_ _ _ w. (Inr example_device, w)),
      b_WriteVerified = (\<lambda>_ v t n _ w. ((n, None), [], v, t, w)),
      b_Fdatasync = (\<lambda>t w. (None, t, w)), b_FlushBlock = (\<lambda>t w. (None, t, w)),
      b_CloseTarget = (\<lambda>_ w. (None, w)), b_CloseVerified = (\<lambda>_ w. (None, w))\<rparr>"

definition example_request :: request where
  "example_request =
     \<lparr>q_Mode = ModeLive, q_TargetPath = ''/dev/vdb'', q_ImagePath = ''/i'', q_SHA256 = ''d'',
      q_ExpectedBytes = 4096, q_Confirmation = ''t'', q_Reboot = True\<rparr>"

definition example_inspection :: inspection where
  "example_inspection =
     \<lparr>n_Mode = ModeLive, n_Target = example_target,
      n_Image = example_image\<lparr>i_Path := ''/i'', i_SHA256 := ''d''\<rparr>, n_ConfirmationToken = ''t''\<rparr>"

definition example_source :: verified where
  "example_source =
     \<lparr>v_Path = ''/i'', v_SHA256 = ''d'', v_Format = FormatRaw, v_CompressedBytes = 4096, v_file = None\<rparr>"

lemma example_execution:
  "Execute None example_request (recorded (quiet_boundary example_inspection example_source)) False ((), [])
   = ((4096, None), [], (), ok_run (plan ModeLive @ [CCloseTarget, CCloseVerified]))"
  by (simp add: Execute_def Prepare_def execute_verified_def execute_target_def prepareLive_def
      rebootLive_def recorded_def quiet_boundary_def note_err_def note_res_def note_target_def
      sameIdentity_def example_request_def example_inspection_def example_source_def example_target_def
      example_image_def plan_def live_calls_def write_calls_def reboot_calls_def)

theorem Execute_order_witness:
  "Execute None example_request (quiet_boundary example_inspection example_source) False ()
     = ((4096, None), [], ())
   \<and> orderly ModeLive True True (ok_run (plan ModeLive @ [CCloseTarget, CCloseVerified]))"
  using Execute_order [OF example_execution] by (simp add: example_request_def)

section \<open>A successful execution, step by step\<close>

lemma Execute_runs:
  assumes "b_Inspect b ctx q w = (Inr n, w1)"
    and "b_VerifyImage b (q_ImagePath q) (q_SHA256 q) w1 = (Inr v, w2)" "sameIdentity q n v"
    and "b_Confirm b (q_Confirmation q) (n_ConfirmationToken n) w2 = (None, w3)"
    and "q_Mode q = ModeLive \<Longrightarrow> q_Reboot q"
    and "prepareLive (q_Mode q) b w3 = (None, w4)"
    and "b_OpenTarget b (q_TargetPath q) (q_Mode q) (n_Target n) w4 = (Inr t, w5)"
    and "b_WriteVerified b ctx v t (q_ExpectedBytes q) pr w5 = ((m, None), calls, v', t1, w6)"
    and "b_Fdatasync b t1 w6 = (None, t2, w7)" "b_FlushBlock b t2 w7 = (None, t3, w8)"
    and "rebootLive (q_Mode q) b w8 = (None, w9)"
  shows "Execute ctx q b pr w = ((m, None), calls, snd (b_CloseVerified b v' (snd (b_CloseTarget b t3 w9))))"
  using assms by (auto simp: Execute_def Prepare_def execute_verified_def execute_target_def split: prod.split)

lemma Execute_success:
  assumes "Execute ctx q b pr w = ((m, None), calls, w')"
  obtains n v w1 w2 w3 w4 t w5 v' t1 w6 t2 w7 t3 w8 w9 where
    "b_Inspect b ctx q w = (Inr n, w1)"
    "b_VerifyImage b (q_ImagePath q) (q_SHA256 q) w1 = (Inr v, w2)" "sameIdentity q n v"
    "b_Confirm b (q_Confirmation q) (n_ConfirmationToken n) w2 = (None, w3)"
    "q_Mode q = ModeLive \<Longrightarrow> q_Reboot q"
    "prepareLive (q_Mode q) b w3 = (None, w4)"
    "b_OpenTarget b (q_TargetPath q) (q_Mode q) (n_Target n) w4 = (Inr t, w5)"
    "b_WriteVerified b ctx v t (q_ExpectedBytes q) pr w5 = ((m, None), calls, v', t1, w6)"
    "b_Fdatasync b t1 w6 = (None, t2, w7)" "b_FlushBlock b t2 w7 = (None, t3, w8)"
    "rebootLive (q_Mode q) b w8 = (None, w9)"
    "w' = snd (b_CloseVerified b v' (snd (b_CloseTarget b t3 w9)))"
proof -
  obtain n v w2 where p: "Prepare ctx q b w = (Inr (n, v), w2)"
    using assms by (cases "Prepare ctx q b w"; cases "fst (Prepare ctx q b w)") (auto simp: Execute_def)
  then obtain w1 where prep: "b_Inspect b ctx q w = (Inr n, w1)"
    "b_VerifyImage b (q_ImagePath q) (q_SHA256 q) w1 = (Inr v, w2)" "sameIdentity q n v"
    by (auto simp: Prepare_def split: prod.splits sum.splits if_splits)
  obtain res c v' w10 where ev: "execute_verified ctx q b pr n v w2 = (res, c, v', w10)"
    by (metis prod_cases4)
  have fin: "res = (m, None)" "c = calls" "w' = snd (b_CloseVerified b v' w10)"
    using assms p ev by (auto simp: Execute_def split: prod.splits)
  obtain w3 where confirm: "b_Confirm b (q_Confirmation q) (n_ConfirmationToken n) w2 = (None, w3)"
    using ev fin(1) by (auto simp: execute_verified_def split: prod.splits option.splits)
  have reboot: "q_Mode q = ModeLive \<Longrightarrow> q_Reboot q"
    using ev fin(1) confirm by (auto simp: execute_verified_def split: if_splits)
  then have gate: "(q_Mode q = ModeLive \<and> \<not> q_Reboot q) = False"
    by blast
  obtain w4 where live: "prepareLive (q_Mode q) b w3 = (None, w4)"
    using ev fin(1) confirm gate
    by (cases "prepareLive (q_Mode q) b w3"; cases "fst (prepareLive (q_Mode q) b w3)")
       (auto simp: execute_verified_def)
  obtain t w5 where op: "b_OpenTarget b (q_TargetPath q) (q_Mode q) (n_Target n) w4 = (Inr t, w5)"
    using ev fin(1) confirm gate live
    by (cases "b_OpenTarget b (q_TargetPath q) (q_Mode q) (n_Target n) w4";
        cases "fst (b_OpenTarget b (q_TargetPath q) (q_Mode q) (n_Target n) w4)")
       (auto simp: execute_verified_def)
  obtain t3 w9 where et: "execute_target ctx q b pr v t w5 = ((m, None), calls, v', t3, w9)"
    and w10: "w10 = snd (b_CloseTarget b t3 w9)"
    using ev fin(1,2) confirm gate live op
    by (auto simp: execute_verified_def split: prod.splits)
  from et obtain t1 w6 t2 w7 w8 where
    "b_WriteVerified b ctx v t (q_ExpectedBytes q) pr w5 = ((m, None), calls, v', t1, w6)"
    "b_Fdatasync b t1 w6 = (None, t2, w7)" "b_FlushBlock b t2 w7 = (None, t3, w8)"
    "rebootLive (q_Mode q) b w8 = (None, w9)"
    by (auto simp: execute_target_def split: prod.splits option.splits)
  from that [OF prep confirm reboot live op this] fin(3) w10 show thesis
    by blast
qed


section \<open>Nothing is opened without confirmation\<close>

lemma opened_after_confirm:
  assumes "Execute ctx q (recorded b) pr (w, []) = (res, calls, w', tr)" and "COpenTarget \<in> fst ` set tr"
  obtains n v w1 w2 w3 where
    "b_Inspect b ctx q w = (Inr n, w1)"
    "b_VerifyImage b (q_ImagePath q) (q_SHA256 q) w1 = (Inr v, w2)" "sameIdentity q n v"
    "b_Confirm b (q_Confirmation q) (n_ConfirmationToken n) w2 = (None, w3)"
proof -
  obtain r w2 tr2 where p: "Prepare ctx q (recorded b) (w, []) = (r, w2, tr2)"
    by (metis prod_cases3)
  show thesis
  proof (cases r)
    case (Inl e)
    then have "tr = tr2"
      using assms(1) p by (simp add: Execute_def)
    with Prepare_trace [OF p] Inl assms(2) show thesis
      by auto
  next
    case (Inr nv)
    obtain n v where nv: "nv = (n, v)"
      by fastforce
    have tr2: "tr2 = ok_run [CInspect, CVerifyImage]"
      using Prepare_trace [OF p] Inr by auto
    have "Prepare ctx q b w = (Inr (n, v), w2)"
      using Prepare_same [OF p] Inr nv by simp
    then obtain w1 where prep: "b_Inspect b ctx q w = (Inr n, w1)"
      "b_VerifyImage b (q_ImagePath q) (q_SHA256 q) w1 = (Inr v, w2)" "sameIdentity q n v"
      by (auto simp: Prepare_def split: prod.splits sum.splits if_splits)
    obtain e w3 tr3 where
      c: "note_err CConfirm (b_Confirm b (q_Confirmation q) (n_ConfirmationToken n)) (w2, tr2) = (e, w3, tr3)"
      by (metis prod_cases3)
    have "e = None"
    proof (rule ccontr)
      assume "e \<noteq> None"
      then obtain x where "e = Some x"
        by blast
      then have "execute_verified ctx q (recorded b) pr n v (w2, tr2) = ((0, Some x), [], v, w3, tr3)"
        using c by (simp add: execute_verified_def)
      then have "tr = tr3 @ [(CCloseVerified, fst (b_CloseVerified b v w3) = None)]"
        using assms(1) p Inr nv by (auto simp: Execute_def note_err_def split: prod.splits)
      then show False
        using assms(2) note_err_run [OF c] tr2 by auto
    qed
    with that [OF prep] note_err_same [OF c] show thesis
      by blast
  qed
qed

text \<open>
  What \<^verbatim>\<open>Execute\<close> relies on its boundary for: a confirmation succeeds only for the expected token, and an
  inspection that succeeds carries the token of the target and the image it describes.
\<close>

locale guarded_boundary =
  fixes b :: "('w, 't) boundary"
  assumes confirm_law: "b_Confirm b p e w = (None, w') \<Longrightarrow> p = e"
    and inspect_law: "b_Inspect b ctx q w = (Inr n, w') \<Longrightarrow>
      token_target_ok (n_Target n) \<and> digest_ok (i_SHA256 (n_Image n))
      \<and> n_ConfirmationToken n = token_text (n_Target n) (n_Image n)"
begin

lemma opened_is_confirmed:
  assumes "Execute ctx q (recorded b) pr (w, []) = (res, calls, w', tr)" and "COpenTarget \<in> fst ` set tr"
  shows "\<exists>n w1. b_Inspect b ctx q w = (Inr n, w1)
    \<and> q_Confirmation q = token_text (n_Target n) (n_Image n)
    \<and> token_target_ok (n_Target n) \<and> digest_ok (q_SHA256 q)
    \<and> t_CanonicalPath (n_Target n) = q_TargetPath q \<and> i_Path (n_Image n) = q_ImagePath q
    \<and> i_SHA256 (n_Image n) = q_SHA256 q \<and> i_UncompressedBytes (n_Image n) = q_ExpectedBytes q"
proof -
  obtain n v w1 w2 w3 where s: "b_Inspect b ctx q w = (Inr n, w1)" "sameIdentity q n v"
    "b_Confirm b (q_Confirmation q) (n_ConfirmationToken n) w2 = (None, w3)"
    using opened_after_confirm [OF assms] by metis
  then have same: "t_CanonicalPath (n_Target n) = q_TargetPath q" "i_Path (n_Image n) = q_ImagePath q"
    "i_SHA256 (n_Image n) = q_SHA256 q" "i_UncompressedBytes (n_Image n) = q_ExpectedBytes q"
    by (auto simp: sameIdentity_def split: option.splits)
  show ?thesis
    using inspect_law [OF s(1)] confirm_law [OF s(3)] same s(1) by (intro exI [of _ n] exI [of _ w1]) simp
qed

end

end
