(* ===== verification/System.thy ===== *)
theory System
  imports Procfs Execute
begin

text \<open>
  internal/linux/system.go: the privileged boundary on a Linux kernel. The kernel is described by its
  answers, each a function of the moment of the call, so that mounts, swaps, device identities and
  the outcome of every system call may change from one call to the next; the program's effects
  are kept in order. The functions of golang.org/x/sys/unix are third-party code: the system calls are
  answers of the kernel, and \<^verbatim>\<open>unix.Major\<close> and \<^verbatim>\<open>unix.Minor\<close> are parameters.
\<close>

section \<open>The kernel and the world\<close>

text \<open>An open descriptor: its \<^verbatim>\<open>fstat\<close> answers (whether it is a block device, and its number).\<close>

record descriptor =
  fd_stat :: "nat \<Rightarrow> (bool \<times> 64 word) res"
  fd_device :: device

record kernel =
  k_view :: "nat \<Rightarrow> snapshot"
  k_euid :: int
  k_image :: "nat \<Rightarrow> gostring \<Rightarrow> osfile res"
  k_getrlimit :: "nat \<Rightarrow> (int \<times> int) res"
  k_setrlimit :: "nat \<Rightarrow> int \<times> int \<Rightarrow> goerr option"
  k_mlockall :: "nat \<Rightarrow> goerr option"
  k_swapoff :: "nat \<Rightarrow> gostring \<Rightarrow> goerr option"
  k_ctl_open :: "nat \<Rightarrow> gostring \<Rightarrow> goerr option"
  k_ctl_write :: "nat \<Rightarrow> gostring \<Rightarrow> gostring \<Rightarrow> goerr option"
  k_ctl_close :: "nat \<Rightarrow> gostring \<Rightarrow> goerr option"
  k_open :: "nat \<Rightarrow> gostring \<Rightarrow> bool \<Rightarrow> descriptor res"
  k_fdatasync :: "nat \<Rightarrow> goerr option"
  k_flush :: "nat \<Rightarrow> goerr option"
  k_close :: "nat \<Rightarrow> goerr option"
  unix_Major :: "64 word \<Rightarrow> int"
  unix_Minor :: "64 word \<Rightarrow> int"
  zstd_NewReader :: zstd_decoder

datatype effect =
    ESetrlimit int int
  | EMlockall
  | ESwapoff gostring
  | EControl gostring gostring
  | EOpen gostring bool
  | ECloseDescriptor gostring

text \<open>
  The world: the kernel, the moment, the effects so far, and what became of the targets and sources that
  were closed.
\<close>

record world =
  w_kernel :: kernel
  w_tick :: nat
  w_effects :: "effect list"
  w_targets :: "device list"
  w_sources :: "verified option list"

definition tick :: "world \<Rightarrow> world" where
  "tick w = w\<lparr>w_tick := Suc (w_tick w)\<rparr>"

definition emit :: "effect \<Rightarrow> world \<Rightarrow> world" where
  "emit e w = w\<lparr>w_effects := w_effects w @ [e]\<rparr>"

text \<open>One method of the observer, on what the kernel shows at this moment.\<close>

definition observe :: "(snapshot \<Rightarrow> 'a) \<Rightarrow> world \<Rightarrow> 'a \<times> world" where
  "observe f w = (f (k_view (w_kernel w) (w_tick w)), tick w)"

definition syscall :: "(kernel \<Rightarrow> nat \<Rightarrow> 'a) \<Rightarrow> world \<Rightarrow> 'a \<times> world" where
  "syscall f w = (f (w_kernel w) (w_tick w), tick w)"

section \<open>system.go: inspection and confirmation\<close>

definition observeLive :: "observer \<Rightarrow> host_observation \<Rightarrow> world \<Rightarrow> host_observation res \<times> world" where
  "observeLive observer host w =
     (case observe (RootDisk observer) w of
        (Inl err, w1) \<Rightarrow> (Inl err, w1)
      | (Inr rootDisk, w1) \<Rightarrow>
          (case observe (MemoryAvailableBytes observer) w1 of
             (Inl err, w2) \<Rightarrow> (Inl err, w2)
           | (Inr memory, w2) \<Rightarrow>
               (case observe (SysRqTriggerAvailable observer) w2 of
                  (Inl err, w3) \<Rightarrow> (Inl err, w3)
                | (Inr sysrq, w3) \<Rightarrow>
                    (Inr (host\<lparr>h_RootDisk := rootDisk, h_MemoryAvailableBytes := memory,
                               h_SysRqTriggerAvailable := sysrq\<rparr>), w3))))"

definition System_Inspect :: "observer \<Rightarrow> goctx option \<Rightarrow> request \<Rightarrow> world \<Rightarrow> inspection res \<times> world" where
  "System_Inspect observer ctx request w =
     (case observe (\<lambda>h. Target observer h (q_TargetPath request)) w of
        (Inl err, w1) \<Rightarrow> (Inl err, w1)
      | (Inr target, w1) \<Rightarrow>
     (case observe (MountedDevices observer) w1 of
        (Inl err, w2) \<Rightarrow> (Inl err, w2)
      | (Inr mounted, w2) \<Rightarrow>
     (case observe (SwapDevices observer) w2 of
        (Inl err, w3) \<Rightarrow> (Inl err, w3)
      | (Inr swaps, w3) \<Rightarrow>
     (case observe (\<lambda>h. Source observer h (q_ImagePath request)) w3 of
        (Inl err, w4) \<Rightarrow> (Inl err, w4)
      | (Inr (filesystem, backing), w4) \<Rightarrow>
     (case observe (\<lambda>h. s_stat h (q_ImagePath request)) w4 of
        (Inl err, w5) \<Rightarrow> (Inl (Errorf ''stat image source: %w'' [] err), w5)
      | (Inr info, w5) \<Rightarrow>
          (let host = \<lparr>h_EUID = k_euid (w_kernel w5), h_RootDisk = '''', h_MountedDevices = mounted,
                       h_SwapDevices = swaps, h_SourceFilesystem = filesystem,
                       h_SourceBackingDevices = backing, h_MemoryAvailableBytes = 0,
                       h_SysRqTriggerAvailable = False\<rparr>;
               img = \<lparr>i_Path = q_ImagePath request, i_SHA256 = q_SHA256 request, i_Format = '''',
                      i_CompressedBytes = fi_size info, i_UncompressedBytes = q_ExpectedBytes request\<rparr>
           in if q_Mode request = ModeLive
              then (case observeLive observer host w5 of
                      (Inl err, w6) \<Rightarrow> (Inl err, w6)
                    | (Inr host', w6) \<Rightarrow> (Inspect (q_Mode request) target img host', w6))
              else (Inspect (q_Mode request) target img host, w5)))))))"

definition VerifyImage :: "gostring \<Rightarrow> gostring \<Rightarrow> world \<Rightarrow> verified option res \<times> world" where
  "VerifyImage path digest w =
     (case Verify (k_image (w_kernel w) (w_tick w)) path digest of
        (Inl err, closed) \<Rightarrow> (Inl err, tick w)
      | (Inr v, closed) \<Rightarrow> (Inr (Some v), tick w))"

text \<open>\<^verbatim>\<open>subtle.ConstantTimeCompare\<close> on byte strings.\<close>

definition ConstantTimeCompare :: "bytes \<Rightarrow> bytes \<Rightarrow> int" where
  "ConstantTimeCompare x y =
     (if length x \<noteq> length y then 0
      else if fold (\<lambda>(a, b) v. v OR (a XOR b))
                (zip (map of_char x) (map of_char y)) (0 :: 8 word) = 0 then 1 else 0)"

definition Confirm :: "gostring \<Rightarrow> gostring \<Rightarrow> world \<Rightarrow> goerr option \<times> world" where
  "Confirm provided expected w =
     (if length provided \<noteq> length expected \<or> ConstantTimeCompare provided expected \<noteq> 1
      then (Some (PolicyGate GateConfirmation
                    ''confirmation token does not match inspected target and image'' []), w)
      else (None, w))"

section \<open>system.go: live preparation\<close>

definition Mlockall :: "world \<Rightarrow> goerr option \<times> world" where
  "Mlockall w =
     (case syscall k_getrlimit w of
        (Inl err, w1) \<Rightarrow> (Some (Errorf ''read memlock limit: %w'' [] err), w1)
      | (Inr (cur, hard), w1) \<Rightarrow>
          (case syscall (\<lambda>k n. k_setrlimit k n (hard, hard)) (emit (ESetrlimit hard hard) w1) of
             (Some err, w2) \<Rightarrow> (Some (Errorf ''raise memlock limit: %w'' [] err), w2)
           | (None, w2) \<Rightarrow>
               (case syscall k_mlockall (emit EMlockall w2) of
                  (Some err, w3) \<Rightarrow> (Some (Errorf ''lock process memory: %w'' [] err), w3)
                | (None, w3) \<Rightarrow> (None, w3))))"

text \<open>The system call behind \<^verbatim>\<open>swapoff\<close> takes a C string, so a path with a zero byte is refused.\<close>

definition swapoff :: "gostring \<Rightarrow> world \<Rightarrow> goerr option \<times> world" where
  "swapoff path w =
     (if CHR 0x00 \<in> set path
      then (Some (Errorf ''encode swap path: %w'' [] (Opaque ''invalid argument'')), w)
      else syscall (\<lambda>k n. k_swapoff k n path) (emit (ESwapoff path) w))"

fun swapoff_loop :: "swapRecord list \<Rightarrow> world \<Rightarrow> goerr option \<times> world" where
  "swapoff_loop [] w = (None, w)"
| "swapoff_loop (record # records) w =
     (case swapoff (w_source record) w of
        (Some err, w1) \<Rightarrow> (Some (Errorf ''swapoff %s: %w'' [FStr (w_source record)] err), w1)
      | (None, w1) \<Rightarrow> swapoff_loop records w1)"

definition Swapoff :: "observer \<Rightarrow> world \<Rightarrow> goerr option \<times> world" where
  "Swapoff observer w =
     (case observe (readSwapRecords (o_ProcRoot observer)) w of
        (Inl err, w1) \<Rightarrow> (Some err, w1)
      | (Inr records, w1) \<Rightarrow> swapoff_loop records w1)"

definition writeControl :: "gostring \<Rightarrow> gostring \<Rightarrow> world \<Rightarrow> goerr option \<times> world" where
  "writeControl path value w =
     (case syscall (\<lambda>k n. k_ctl_open k n path) w of
        (Some err, w1) \<Rightarrow> (Some (Errorf ''open kernel control %q: %w'' [FQuote path] err), w1)
      | (None, w1) \<Rightarrow>
          (case syscall (\<lambda>k n. k_ctl_write k n path value) (emit (EControl path value) w1) of
             (Some err, w2) \<Rightarrow>
               (case syscall (\<lambda>k n. k_ctl_close k n path) w2 of
                  (_, w3) \<Rightarrow> (Some (Errorf ''write kernel control %q: %w'' [FQuote path] err), w3))
           | (None, w2) \<Rightarrow>
               (case syscall (\<lambda>k n. k_ctl_close k n path) w2 of
                  (Some err, w3) \<Rightarrow> (Some (Errorf ''close kernel control %q: %w'' [FQuote path] err), w3)
                | (None, w3) \<Rightarrow> (None, w3))))"

definition EnableSysRq :: "observer \<Rightarrow> world \<Rightarrow> goerr option \<times> world" where
  "EnableSysRq observer =
     writeControl (filepath_Join [o_ProcRoot observer, ''sys'', ''kernel'', ''sysrq'']) (''1'' @ [newline])"

definition remountPollAttempts :: nat where
  "remountPollAttempts = 600"

text \<open>The polling loop, with the number of attempts left; the pauses between them do nothing else.\<close>

fun remount_poll :: "nat \<Rightarrow> observer \<Rightarrow> world \<Rightarrow> goerr option \<times> world" where
  "remount_poll 0 observer w = (Some (Sentinel ErrRemountIncomplete), w)"
| "remount_poll (Suc attempts) observer w =
     (case observe (BlockMountsReadOnly observer) w of
        (Inl err, w1) \<Rightarrow> (Some err, w1)
      | (Inr readOnly, w1) \<Rightarrow> (if readOnly then (None, w1) else remount_poll attempts observer w1))"

definition RemountReadOnly :: "observer \<Rightarrow> world \<Rightarrow> goerr option \<times> world" where
  "RemountReadOnly observer w =
     (case writeControl (filepath_Join [o_ProcRoot observer, ''sysrq-trigger'']) ''u'' w of
        (Some err, w1) \<Rightarrow> (Some (Errorf ''SysRq remount read-only: %w'' [] err), w1)
      | (None, w1) \<Rightarrow> remount_poll remountPollAttempts observer w1)"

section \<open>system.go: opening the target\<close>

definition sameTarget :: "target_identity \<Rightarrow> target_identity \<Rightarrow> bool" where
  "sameTarget current expected \<longleftrightarrow>
     t_CanonicalPath current = t_CanonicalPath expected
     \<and> t_Serial current = t_Serial expected
     \<and> t_WWN current = t_WWN expected
     \<and> t_SizeBytes current = t_SizeBytes expected
     \<and> t_KName current = t_KName expected
     \<and> t_IsPartition current = t_IsPartition expected
     \<and> t_Descendants current = t_Descendants expected"

definition identityChanged :: "gostring \<Rightarrow> farg list \<Rightarrow> goerr" where
  "identityChanged format arguments = PolicyGate GateIdentityChanged format arguments"

definition deviceNumber :: "observer \<Rightarrow> snapshot \<Rightarrow> gostring \<Rightarrow> (int \<times> int) res" where
  "deviceNumber observer h name =
     (case blockPath observer h name of
        Inl err \<Rightarrow> Inl err
      | Inr path \<Rightarrow>
          (case readTrimmed h (filepath_Join [path, ''dev'']) of
             Inl err \<Rightarrow> Inl err
           | Inr value \<Rightarrow>
               (case strings_Cut value (CHR '':'') of
                  None \<Rightarrow> Inl (Errorf ''%w: device number %q'' [FQuote value] (Sentinel ErrInvalidProcfs))
                | Some (majorText, minorText) \<Rightarrow>
                    (case strconv_ParseUint10 4294967296 majorText of
                       None \<Rightarrow> Inl (Errorf ''%w: major device number %q'' [FQuote majorText]
                                        (Sentinel ErrInvalidProcfs))
                     | Some major \<Rightarrow>
                         (case strconv_ParseUint10 4294967296 minorText of
                            None \<Rightarrow> Inl (Errorf ''%w: minor device number %q'' [FQuote minorText]
                                             (Sentinel ErrInvalidProcfs))
                          | Some minor \<Rightarrow> Inr (major, minor))))))"

definition validateOpenedTarget ::
  "observer \<Rightarrow> descriptor \<Rightarrow> target_identity \<Rightarrow> world \<Rightarrow> goerr option \<times> world" where
  "validateOpenedTarget observer fd expected w =
     (case observe (\<lambda>h. Target observer h (t_CanonicalPath expected)) w of
        (Inl err, w1) \<Rightarrow> (Some (identityChanged ''observe opened target: %v'' [FErr err]), w1)
      | (Inr current, w1) \<Rightarrow>
          (if \<not> sameTarget current expected
           then (Some (identityChanged ''sysfs target identity no longer matches confirmation'' []), w1)
           else case observe (\<lambda>h. deviceNumber observer h (t_KName expected)) w1 of
             (Inl err, w2) \<Rightarrow>
               (Some (identityChanged ''read opened target device number: %v'' [FErr err]), w2)
           | (Inr (major, minor), w2) \<Rightarrow>
               (case syscall (\<lambda>k n. fd_stat fd n) w2 of
                  (Inl err, w3) \<Rightarrow> (Some (Errorf ''stat opened target: %w'' [] err), w3)
                | (Inr (_, rdev), w3) \<Rightarrow>
                    (if unix_Major (w_kernel w3) rdev \<noteq> major \<or> unix_Minor (w_kernel w3) rdev \<noteq> minor
                     then (Some (identityChanged
                                   ''opened descriptor does not match confirmed sysfs device'' []), w3)
                     else (None, w3)))))"

text \<open>\<^verbatim>\<open>OpenTarget\<close>; the boolean of the open call is the flag \<^verbatim>\<open>O_EXCL\<close>.\<close>

definition OpenTarget ::
  "observer \<Rightarrow> gostring \<Rightarrow> mode \<Rightarrow> target_identity \<Rightarrow> world \<Rightarrow> device res \<times> world" where
  "OpenTarget observer path mode expected w =
     (let excl = (mode = ModeRescue)
      in case syscall (\<lambda>k n. k_open k n path excl) w of
           (Inl err, w1) \<Rightarrow> (Inl (Errorf ''open block target: %w'' [] err), w1)
         | (Inr fd, w1) \<Rightarrow>
             (case syscall (\<lambda>k n. fd_stat fd n) (emit (EOpen path excl) w1) of
                (Inl err, w2) \<Rightarrow>
                  (Inl (Errorf ''stat block target: %w'' [] err), emit (ECloseDescriptor path) w2)
              | (Inr (block, rdev), w2) \<Rightarrow>
                  (if \<not> block
                   then (Inl (Errorf ''%w: target descriptor is not a block device'' []
                                (Sentinel ErrInvalidBlockDevice)), emit (ECloseDescriptor path) w2)
                   else case validateOpenedTarget observer fd expected w2 of
                          (Some err, w3) \<Rightarrow> (Inl err, emit (ECloseDescriptor path) w3)
                        | (None, w3) \<Rightarrow> (Inr (fd_device fd), w3))))"

section \<open>system.go: writing, flushing and rebooting\<close>

definition WriteVerified ::
  "goctx option \<Rightarrow> verified option \<Rightarrow> device \<Rightarrow> int \<Rightarrow> bool \<Rightarrow> world
   \<Rightarrow> (int \<times> goerr option) \<times> progress list \<times> verified option \<times> device \<times> world" where
  "WriteVerified ctx source target expectedBytes progress w =
     (let out = image_Write (zstd_NewReader (w_kernel w)) ctx source (Some target) expectedBytes progress
      in ((wo_WrittenBytes out, wo_err out), wo_progress out, wo_source out,
          the (wo_destination out), w))"

definition Fdatasync :: "device \<Rightarrow> world \<Rightarrow> goerr option \<times> device \<times> world" where
  "Fdatasync target w =
     (case syscall k_fdatasync w of
        (err, w1) \<Rightarrow>
          (map_option (Errorf ''fdatasync target: %w'' []) err,
           target\<lparr>d_log := d_log target @ [DevFdatasync]\<rparr>, w1))"

definition FlushBlock :: "device \<Rightarrow> world \<Rightarrow> goerr option \<times> device \<times> world" where
  "FlushBlock target w =
     (case syscall k_flush w of
        (err, w1) \<Rightarrow>
          (map_option (Errorf ''flush block buffers: %w'' []) err,
           target\<lparr>d_log := d_log target @ [DevFlush]\<rparr>, w1))"

definition SysRqSync :: "observer \<Rightarrow> world \<Rightarrow> goerr option \<times> world" where
  "SysRqSync observer = writeControl (filepath_Join [o_ProcRoot observer, ''sysrq-trigger'']) ''s''"

definition SysRqReboot :: "observer \<Rightarrow> world \<Rightarrow> goerr option \<times> world" where
  "SysRqReboot observer = writeControl (filepath_Join [o_ProcRoot observer, ''sysrq-trigger'']) ''b''"

text \<open>Closing a target and a verified source leaves them with the world.\<close>

definition close_target :: "device \<Rightarrow> world \<Rightarrow> goerr option \<times> world" where
  "close_target target w =
     (case syscall k_close w of
        (err, w1) \<Rightarrow>
          (err, w1\<lparr>w_targets := w_targets w1 @ [target\<lparr>d_log := d_log target @ [DevClose]\<rparr>]\<rparr>))"

definition close_verified :: "verified option \<Rightarrow> world \<Rightarrow> goerr option \<times> world" where
  "close_verified v w =
     (case Verified_Close v of (err, v') \<Rightarrow> (err, w\<lparr>w_sources := w_sources w @ [v']\<rparr>))"

definition System :: "observer \<Rightarrow> (world, device) boundary" where
  "System observer =
     \<lparr>b_Inspect = System_Inspect observer, b_VerifyImage = VerifyImage, b_Confirm = Confirm,
      b_Mlockall = Mlockall, b_Swapoff = Swapoff observer, b_EnableSysRq = EnableSysRq observer,
      b_RemountReadOnly = RemountReadOnly observer, b_SysRqSync = SysRqSync observer,
      b_SysRqReboot = SysRqReboot observer, b_OpenTarget = OpenTarget observer,
      b_WriteVerified = WriteVerified, b_Fdatasync = Fdatasync, b_FlushBlock = FlushBlock,
      b_CloseTarget = close_target, b_CloseVerified = close_verified\<rparr>"

definition DefaultSystem :: "(world, device) boundary" where
  "DefaultSystem = System \<lparr>o_ProcRoot = ''/proc'', o_SysRoot = ''/sys''\<rparr>"


section \<open>Confirmation\<close>

lemma xor_eq_0: "a XOR b = 0 \<longleftrightarrow> a = (b :: 8 word)"
proof
  assume "a XOR b = 0"
  then have "(a XOR b) XOR b = b"
    by simp
  then show "a = b"
    unfolding xor.assoc by simp
qed simp

lemma byte_of_char_inject: "(of_char c :: 8 word) = of_char d \<longleftrightarrow> c = d"
proof -
  have small: "(of_char x :: nat) < 2 ^ LENGTH(8)" for x
    using nat_of_char_less_256 [of x] by simp
  have "(of_char c :: 8 word) = of_char d \<longleftrightarrow> word_of_nat (of_char c) = (word_of_nat (of_char d) :: 8 word)"
    by (simp add: of_nat_of_char)
  also have "\<dots> \<longleftrightarrow> (of_char c :: nat) = of_char d"
    unfolding word_of_nat_eq_iff using small by (simp add: take_bit_nat_eq_self)
  finally show ?thesis
    by simp
qed

lemma fold_difference:
  "fold (\<lambda>(a, b) v. v OR (a XOR b)) ps (v :: 8 word) = 0 \<longleftrightarrow> v = 0 \<and> (\<forall>(a, b) \<in> set ps. a = b)"
  by (induction ps arbitrary: v) (auto simp: or_eq_0_iff xor_eq_0)

lemma zip_all_equal:
  "length x = length y \<Longrightarrow> (\<forall>(a, b) \<in> set (zip x y). a = b) \<longleftrightarrow> x = y"
  by (induction x y rule: list_induct2) auto

lemma inj_map_of_char: "map (of_char :: char \<Rightarrow> 8 word) x = map of_char y \<longleftrightarrow> x = y"
  using byte_of_char_inject by (metis inj_map_eq_map injI)

text \<open>The constant-time comparison decides equality.\<close>

lemma ConstantTimeCompare_eq: "ConstantTimeCompare x y = 1 \<longleftrightarrow> x = y"
  using zip_all_equal [of "map of_char x :: 8 word list" "map of_char y"]
  by (auto simp: ConstantTimeCompare_def fold_difference inj_map_of_char)

lemma Confirm_None: "Confirm p e w = (None, w') \<longleftrightarrow> p = e \<and> w' = w"
  by (auto simp: Confirm_def ConstantTimeCompare_eq)

section \<open>What an accepted inspection has seen\<close>

text \<open>What the kernel shows to the k-th observation from now.\<close>

definition view_at :: "world \<Rightarrow> nat \<Rightarrow> snapshot" where
  "view_at w k = k_view (w_kernel w) (w_tick w + k)"

lemma observe_eq: "observe f w = (f (view_at w 0), tick w)"
  by (simp add: observe_def view_at_def)

lemma tick_simps [simp]:
  "view_at (tick w) k = view_at w (Suc k)" "w_kernel (tick w) = w_kernel w" "w_effects (tick w) = w_effects w"
  "w_targets (tick w) = w_targets w" "w_sources (tick w) = w_sources w"
  by (simp_all add: view_at_def tick_def)

lemma System_Inspect_Inr:
  assumes "System_Inspect observer ctx q w = (Inr n, w')"
  obtains t mounted swaps fs backing info host where
    "Target observer (view_at w 0) (q_TargetPath q) = Inr t"
    "MountedDevices observer (view_at w 1) = Inr mounted"
    "SwapDevices observer (view_at w 2) = Inr swaps"
    "Source observer (view_at w 3) (q_ImagePath q) = Inr (fs, backing)"
    "s_stat (view_at w 4) (q_ImagePath q) = Inr info"
    "h_EUID host = k_euid (w_kernel w)" "h_MountedDevices host = mounted" "h_SwapDevices host = swaps"
    "h_SourceFilesystem host = fs" "h_SourceBackingDevices host = backing"
    "q_Mode q = ModeLive \<Longrightarrow>
       RootDisk observer (view_at w 5) = Inr (h_RootDisk host)
       \<and> MemoryAvailableBytes observer (view_at w 6) = Inr (h_MemoryAvailableBytes host)
       \<and> SysRqTriggerAvailable observer (view_at w 7) = Inr (h_SysRqTriggerAvailable host)"
    "Inspect (q_Mode q) t
       \<lparr>i_Path = q_ImagePath q, i_SHA256 = q_SHA256 q, i_Format = '''',
        i_CompressedBytes = fi_size info, i_UncompressedBytes = q_ExpectedBytes q\<rparr> host = Inr n"
proof -
  have nums: "Suc (Suc 0) = 2" "Suc 2 = 3" "Suc 3 = 4" "Suc 4 = 5" "Suc 5 = 6" "Suc 6 = 7"
    by simp_all
  obtain t where t: "Target observer (view_at w 0) (q_TargetPath q) = Inr t"
    using assms by (auto simp: System_Inspect_def observe_eq split: sum.splits)
  obtain m where m: "MountedDevices observer (view_at w 1) = Inr m"
    using assms t by (auto simp: System_Inspect_def observe_eq split: sum.splits)
  obtain s where s: "SwapDevices observer (view_at w 2) = Inr s"
    using assms t m by (auto simp: System_Inspect_def observe_eq nums split: sum.splits)
  obtain fs b where b: "Source observer (view_at w 3) (q_ImagePath q) = Inr (fs, b)"
    using assms t m s by (auto simp: System_Inspect_def observe_eq nums split: sum.splits)
  obtain info where info: "s_stat (view_at w 4) (q_ImagePath q) = Inr info"
    using assms t m s b by (auto simp: System_Inspect_def observe_eq nums split: sum.splits)
  let ?host = "\<lparr>h_EUID = k_euid (w_kernel w), h_RootDisk = '''', h_MountedDevices = m,
      h_SwapDevices = s, h_SourceFilesystem = fs, h_SourceBackingDevices = b,
      h_MemoryAvailableBytes = 0, h_SysRqTriggerAvailable = False\<rparr>"
  let ?img = "\<lparr>i_Path = q_ImagePath q, i_SHA256 = q_SHA256 q, i_Format = '''',
        i_CompressedBytes = fi_size info, i_UncompressedBytes = q_ExpectedBytes q\<rparr>"
  note seen = t m s b info
  show thesis
  proof (cases "q_Mode q = ModeLive")
    case False
    have "Inspect (q_Mode q) t ?img ?host = Inr n"
      using assms seen False by (simp add: System_Inspect_def observe_eq nums)
    with that [OF seen, of ?host] False show thesis
      by simp
  next
    case True
    obtain host w2 where l: "observeLive observer ?host (tick (tick (tick (tick (tick w))))) = (Inr host, w2)"
      and ok: "Inspect (q_Mode q) t ?img host = Inr n"
      using assms seen True
      by (auto simp: System_Inspect_def observe_eq nums split: prod.splits sum.splits)
    from l obtain rd mem sys where live: "RootDisk observer (view_at w 5) = Inr rd"
      "MemoryAvailableBytes observer (view_at w 6) = Inr mem"
      "SysRqTriggerAvailable observer (view_at w 7) = Inr sys"
      and host: "host = ?host\<lparr>h_RootDisk := rd, h_MemoryAvailableBytes := mem, h_SysRqTriggerAvailable := sys\<rparr>"
      by (auto simp: observeLive_def observe_eq nums split: sum.splits)
    from ok live show thesis
      unfolding host by (intro that [OF seen]) simp_all
  qed
qed


text \<open>
  C5. A disk in use is never accepted in rescue mode. When an inspection of the system accepts, the target
  is the identity read first, and none of its descendants, itself included, is among the devices that any
  mounted block device rests on at the moment the mounts were read, nor among those that any swap
  partition rests on at the moment the swaps were read, nor among those that back the source.
\<close>

theorem rescue_inspection_unused:
  assumes "System_Inspect observer ctx q w = (Inr n, w')" and "q_Mode q = ModeRescue"
    and "d \<in> set (t_Descendants (n_Target n))" and "d \<noteq> ''''"
  shows "Target observer (view_at w 0) (q_TargetPath q) = Inr (n_Target n)
    \<and> (\<exists>ms. mounts observer (view_at w 1) = Inr ms
         \<and> (\<forall>name \<in> mounted_names observer (view_at w 1) ms. d \<notin> reach observer (view_at w 1) name))
    \<and> (\<exists>ss. readSwapRecords (o_ProcRoot observer) (view_at w 2) = Inr ss
         \<and> (\<forall>r \<in> set ss. w_kind r = ''partition'' \<longrightarrow>
               d \<notin> reach observer (view_at w 2) (filepath_Base (w_source r))))
    \<and> (\<exists>fs backing. Source observer (view_at w 3) (q_ImagePath q) = Inr (fs, backing) \<and> d \<notin> set backing)"
  using assms(1)
proof (cases rule: System_Inspect_Inr)
  case (1 t mounted swaps fs backing info host)
  have acc: "n_Target n = t" "rescue_ok t host" "\<forall>x \<in> set backing. \<not> owned_by t x"
    using Inspect_accepted [OF 1(12)] 1(10) assms(2) by simp_all
  have own: "owned_by t d"
    using assms(3,4) acc(1) by (auto simp: owned_by_def set_deviceNames)
  obtain ms where ms: "mounts observer (view_at w 1) = Inr ms"
      "active mounted = (\<Union>name \<in> mounted_names observer (view_at w 1) ms. reach observer (view_at w 1) name)"
    using MountedDevices_active [OF 1(2)] by blast
  obtain ss where ss: "readSwapRecords (o_ProcRoot observer) (view_at w 2) = Inr ss"
    using 1(3) by (auto simp: SwapDevices_def split: sum.splits)
  have no: "d \<notin> active mounted" "d \<notin> active swaps" "d \<notin> set backing"
    using acc(2,3) own 1(7,8) by (auto simp: rescue_ok_def)
  have "d \<notin> reach observer (view_at w 2) (filepath_Base (w_source r))"
    if "r \<in> set ss" "w_kind r = ''partition''" for r
    using SwapDevices_partition [OF 1(3) ss that] no(2) by blast
  then show ?thesis
    using 1(1,4) acc(1) ms ss no by blast
qed

text \<open>
  C16. What a live inspection has established: the target is the disk under the root file system, the
  source lies on a tmpfs, at least 512 MiB of memory are available, the SysRq trigger is writable, the
  caller is root and the source is not backed by the target.
\<close>

theorem live_inspection_gates:
  assumes "System_Inspect observer ctx q w = (Inr n, w')" and "q_Mode q = ModeLive"
  shows "k_euid (w_kernel w) = 0
    \<and> (\<exists>root. RootDisk observer (view_at w 5) = Inr root \<and> filepath_Clean root = t_CanonicalPath (n_Target n))
    \<and> (\<exists>backing. Source observer (view_at w 3) (q_ImagePath q) = Inr (''tmpfs'', backing)
         \<and> (\<forall>x \<in> set backing. \<not> owned_by (n_Target n) x))
    \<and> (\<exists>memory. MemoryAvailableBytes observer (view_at w 6) = Inr memory \<and> 536870912 \<le> memory)
    \<and> SysRqTriggerAvailable observer (view_at w 7) = Inr True"
  using assms(1)
proof (cases rule: System_Inspect_Inr)
  case (1 t mounted swaps fs backing info host)
  have acc: "n_Target n = t" "live_ok t host" "\<forall>x \<in> set backing. \<not> owned_by t x" "h_EUID host = 0"
    using Inspect_accepted [OF 1(12)] 1(10) assms(2) by simp_all
  then show ?thesis
    using 1(4,6,9) 1(11) [OF assms(2)] by (auto simp: live_ok_def)
qed

section \<open>Opening the target\<close>

lemma syscall_eq: "syscall f w = (f (w_kernel w) (w_tick w), tick w)"
  by (simp add: syscall_def)

lemma emit_simps [simp]:
  "w_kernel (emit e w) = w_kernel w" "w_tick (emit e w) = w_tick w" "view_at (emit e w) k = view_at w k"
  "w_effects (emit e w) = w_effects w @ [e]" "w_targets (emit e w) = w_targets w" "w_sources (emit e w) = w_sources w"
  by (simp_all add: emit_def view_at_def)

lemma w_tick_tick [simp]: "w_tick (tick w) = Suc (w_tick w)"
  by (simp add: tick_def)

lemma sameTarget_eq: "sameTarget a b \<longleftrightarrow> a = b"
  by (cases a; cases b) (auto simp: sameTarget_def)

lemma validateOpenedTarget_None:
  assumes "validateOpenedTarget observer fd t w = (None, w')"
  shows "Target observer (view_at w 0) (t_CanonicalPath t) = Inr t"
    and "\<exists>block rdev. fd_stat fd (w_tick w + 2) = Inr (block, rdev)
      \<and> deviceNumber observer (view_at w 1) (t_KName t)
        = Inr (unix_Major (w_kernel w) rdev, unix_Minor (w_kernel w) rdev)"
proof -
  show same: "Target observer (view_at w 0) (t_CanonicalPath t) = Inr t"
    using assms
    by (cases "Target observer (view_at w 0) (t_CanonicalPath t)")
       (simp_all add: validateOpenedTarget_def observe_eq sameTarget_eq split: if_splits)
  obtain major minor where num: "deviceNumber observer (view_at w 1) (t_KName t) = Inr (major, minor)"
    using assms same
    by (cases "deviceNumber observer (view_at w 1) (t_KName t)")
       (auto simp: validateOpenedTarget_def observe_eq sameTarget_eq)
  obtain block rdev where st: "fd_stat fd (w_tick w + 2) = Inr (block, rdev)"
    using assms same num
    by (cases "fd_stat fd (w_tick w + 2)")
       (auto simp: validateOpenedTarget_def observe_eq syscall_eq sameTarget_eq)
  show "\<exists>block rdev. fd_stat fd (w_tick w + 2) = Inr (block, rdev)
      \<and> deviceNumber observer (view_at w 1) (t_KName t)
        = Inr (unix_Major (w_kernel w) rdev, unix_Minor (w_kernel w) rdev)"
    using assms same num st
    by (simp add: validateOpenedTarget_def observe_eq syscall_eq sameTarget_eq split: if_splits)
qed

lemma validateOpenedTarget_effects:
  "validateOpenedTarget observer fd t w = (e, w') \<Longrightarrow> w_effects w' = w_effects w"
  by (auto simp: validateOpenedTarget_def observe_eq syscall_eq split: sum.splits if_splits)

text \<open>
  C6. \<^verbatim>\<open>OpenTarget\<close> returns a descriptor only for the confirmed disk: it was opened once, exclusively
  in rescue mode, it is a block device, the identity read from sysfs after the open is still the expected
  one in every field, and the descriptor's device number is the one sysfs gives for that disk.
  On every failure after the open the descriptor is closed; nothing else is done to the system.
\<close>

theorem OpenTarget_validated:
  "case OpenTarget observer path mode expected w of
     (Inr target, w') \<Rightarrow>
       (\<exists>fd rdev rdev' block. k_open (w_kernel w) (w_tick w) path (mode = ModeRescue) = Inr fd
          \<and> target = fd_device fd \<and> fd_stat fd (w_tick w + 1) = Inr (True, rdev)
          \<and> Target observer (view_at w 2) (t_CanonicalPath expected) = Inr expected
          \<and> fd_stat fd (w_tick w + 4) = Inr (block, rdev')
          \<and> deviceNumber observer (view_at w 3) (t_KName expected)
            = Inr (unix_Major (w_kernel w) rdev', unix_Minor (w_kernel w) rdev')
          \<and> w_effects w' = w_effects w @ [EOpen path (mode = ModeRescue)])
   | (Inl err, w') \<Rightarrow>
       w_effects w' = w_effects w
       \<or> w_effects w' = w_effects w @ [EOpen path (mode = ModeRescue), ECloseDescriptor path]"
proof -
  let ?excl = "mode = ModeRescue"
  show ?thesis
  proof (cases "k_open (w_kernel w) (w_tick w) path ?excl")
    case (Inl err)
    then show ?thesis
      by (simp add: OpenTarget_def Let_def syscall_eq)
  next
    case (Inr fd)
    let ?w1 = "tick (emit (EOpen path ?excl) (tick w))"
    obtain e w3 where v: "validateOpenedTarget observer fd expected ?w1 = (e, w3)"
      by fastforce
    note eff = validateOpenedTarget_effects [OF v]
    consider err where "fd_stat fd (Suc (w_tick w)) = Inl err"
      | rdev where "fd_stat fd (Suc (w_tick w)) = Inr (False, rdev)"
      | rdev where "fd_stat fd (Suc (w_tick w)) = Inr (True, rdev)"
      by (cases "fd_stat fd (Suc (w_tick w))") auto
    then show ?thesis
    proof cases
      case (3 rdev)
      show ?thesis
      proof (cases e)
        case (Some x)
        with Inr 3 v eff show ?thesis
          by (simp add: OpenTarget_def Let_def syscall_eq)
      next
        case None
        note ok = validateOpenedTarget_None [OF v [unfolded None]]
        from ok(2) obtain block rdev' where "fd_stat fd (w_tick w + 4) = Inr (block, rdev')"
          "deviceNumber observer (view_at w 3) (t_KName expected)
            = Inr (unix_Major (w_kernel w) rdev', unix_Minor (w_kernel w) rdev')"
          by (auto simp: eval_nat_numeral)
        with Inr 3 v None eff ok(1) show ?thesis
          by (simp add: OpenTarget_def Let_def syscall_eq eval_nat_numeral)
      qed
    qed (use Inr in \<open>simp_all add: OpenTarget_def Let_def syscall_eq\<close>)
  qed
qed

end
