(* ===== verification/System_Run.thy ===== *)
theory System_Run
  imports System
begin

text \<open>
  What the steps of internal/linux/system.go do when they succeed, that the system meets what the
  destructive sequence relies on, and what a successful execution on the system has delivered.
\<close>

section \<open>Kernel controls\<close>

lemma writeControl_None:
  assumes "writeControl path value w = (None, w')"
  shows "w' = tick (tick (emit (EControl path value) (tick w)))"
  using assms by (auto simp: writeControl_def syscall_eq split: option.splits)

lemma remount_poll_None:
  assumes "remount_poll attempts observer w = (None, w')"
  shows "\<exists>k < attempts. BlockMountsReadOnly observer (view_at w k) = Inr True
    \<and> w_tick w' = w_tick w + k + 1 \<and> w_effects w' = w_effects w"
  using assms
proof (induction attempts arbitrary: w)
  case (Suc attempts)
  show ?case
  proof (cases "BlockMountsReadOnly observer (view_at w 0) = Inr True")
    case True
    with Suc.prems have "w' = tick w"
      by (simp add: observe_eq)
    with True show ?thesis
      by (intro exI [of _ 0]) simp
  next
    case False
    then have "remount_poll attempts observer (tick w) = (None, w')"
      using Suc.prems by (auto simp: observe_eq split: sum.splits if_splits)
    from Suc.IH [OF this] obtain k where "k < attempts"
      "BlockMountsReadOnly observer (view_at w (Suc k)) = Inr True"
      "w_tick w' = w_tick w + Suc k + 1" "w_effects w' = w_effects w"
      by auto
    then show ?thesis
      by (intro exI [of _ "Suc k"]) simp
  qed
qed simp

text \<open>
  C29. When \<^verbatim>\<open>RemountReadOnly\<close> succeeds, it has written the SysRq command \<^verbatim>\<open>u\<close>, and within 600 polls
  the mounts were found read-only; that observation is the last thing it did, so nothing was overlooked
  between it and the return.
\<close>

theorem RemountReadOnly_proved:
  assumes "RemountReadOnly observer w = (None, w')"
  shows "\<exists>k < 600. BlockMountsReadOnly observer (view_at w (3 + k)) = Inr True
    \<and> w_tick w' = w_tick w + 3 + k + 1
    \<and> w_effects w' = w_effects w @ [EControl (filepath_Join [o_ProcRoot observer, ''sysrq-trigger'']) ''u'']"
proof -
  let ?p = "filepath_Join [o_ProcRoot observer, ''sysrq-trigger'']"
  obtain w1 where c: "writeControl ?p ''u'' w = (None, w1)"
    and r: "remount_poll remountPollAttempts observer w1 = (None, w')"
    using assms by (auto simp: RemountReadOnly_def split: prod.splits option.splits)
  note w1 = writeControl_None [OF c]
  from remount_poll_None [OF r] obtain k where k: "k < 600"
    "BlockMountsReadOnly observer (view_at w1 k) = Inr True"
    "w_tick w' = w_tick w1 + k + 1" "w_effects w' = w_effects w1"
    by (auto simp: remountPollAttempts_def)
  show ?thesis
    using k by (intro exI [of _ k]) (simp add: w1 eval_nat_numeral)
qed

section \<open>Swap\<close>

lemma swapoff_loop_None:
  assumes "swapoff_loop records w = (None, w')"
  shows "w_effects w' = w_effects w @ map (\<lambda>r. ESwapoff (w_source r)) records
    \<and> (\<forall>i < length records. k_swapoff (w_kernel w) (w_tick w + i) (w_source (records ! i)) = None)"
  using assms
proof (induction records arbitrary: w)
  case (Cons r records)
  let ?w = "tick (emit (ESwapoff (w_source r)) w)"
  have "swapoff_loop records ?w = (None, w')"
    and ok: "k_swapoff (w_kernel w) (w_tick w) (w_source r) = None"
    using Cons.prems by (auto simp: swapoff_def syscall_eq split: if_splits option.splits)
  from Cons.IH [OF this(1)] have
    eff: "w_effects w' = w_effects w @ map (\<lambda>r. ESwapoff (w_source r)) (r # records)" and
    rest: "\<And>i. i < length records \<Longrightarrow>
      k_swapoff (w_kernel w) (Suc (w_tick w) + i) (w_source (records ! i)) = None"
    by simp_all
  have "k_swapoff (w_kernel w) (w_tick w + i) (w_source ((r # records) ! i)) = None"
    if "i < length (r # records)" for i
    using that ok rest by (cases i) simp_all
  with eff show ?case
    by blast
qed simp

text \<open>
  C30. When \<^verbatim>\<open>Swapoff\<close> succeeds, every swap area that procfs listed was switched off, in that order, and
  the kernel accepted each one.
\<close>

theorem Swapoff_complete:
  assumes "Swapoff observer w = (None, w')"
  shows "\<exists>records. readSwapRecords (o_ProcRoot observer) (view_at w 0) = Inr records
    \<and> w_effects w' = w_effects w @ map (\<lambda>r. ESwapoff (w_source r)) records
    \<and> (\<forall>i < length records. k_swapoff (w_kernel w) (w_tick w + 1 + i) (w_source (records ! i)) = None)"
proof -
  obtain records where r: "readSwapRecords (o_ProcRoot observer) (view_at w 0) = Inr records"
    "swapoff_loop records (tick w) = (None, w')"
    using assms by (auto simp: Swapoff_def observe_eq split: sum.splits)
  from swapoff_loop_None [OF r(2)] r(1) show ?thesis
    by simp
qed

section \<open>The system as a boundary\<close>

lemma System_sel [simp]:
  "b_Inspect (System observer) = System_Inspect observer" "b_VerifyImage (System observer) = VerifyImage"
  "b_Confirm (System observer) = Confirm" "b_Mlockall (System observer) = Mlockall"
  "b_Swapoff (System observer) = Swapoff observer" "b_EnableSysRq (System observer) = EnableSysRq observer"
  "b_RemountReadOnly (System observer) = RemountReadOnly observer"
  "b_SysRqSync (System observer) = SysRqSync observer" "b_SysRqReboot (System observer) = SysRqReboot observer"
  "b_OpenTarget (System observer) = OpenTarget observer" "b_WriteVerified (System observer) = WriteVerified"
  "b_Fdatasync (System observer) = Fdatasync" "b_FlushBlock (System observer) = FlushBlock"
  "b_CloseTarget (System observer) = close_target" "b_CloseVerified (System observer) = close_verified"
  by (simp_all add: System_def)

interpretation sys: guarded_boundary "System observer" for observer
proof
  show "b_Confirm (System observer) p e w = (None, w') \<Longrightarrow> p = e" for p e w w'
    by (simp add: Confirm_None)
next
  fix ctx q w n w'
  assume "b_Inspect (System observer) ctx q w = (Inr n, w')"
  then have "System_Inspect observer ctx q w = (Inr n, w')"
    by simp
  then show "token_target_ok (n_Target n) \<and> digest_ok (i_SHA256 (n_Image n))
      \<and> n_ConfirmationToken n = token_text (n_Target n) (n_Image n)"
  proof (cases rule: System_Inspect_Inr)
    case (1 t mounted swaps fs backing info host)
    from Inspect_accepted [OF 1(12)] show ?thesis
      by simp
  qed
qed

text \<open>
  C3. On the system, the target is not even opened unless the operator's confirmation is the token of
  what was inspected: the identity read from the host for exactly the requested path, and an image with
  exactly the requested path, SHA-256 and expanded size.
\<close>

theorem opened_only_if_confirmed:
  assumes "Execute ctx q (recorded (System observer)) progress (w, []) = (result, calls, w', tr)"
    and "COpenTarget \<in> fst ` set tr"
  shows "\<exists>n w1. System_Inspect observer ctx q w = (Inr n, w1)
    \<and> q_Confirmation q = token_text (n_Target n) (n_Image n)
    \<and> token_target_ok (n_Target n) \<and> digest_ok (q_SHA256 q)
    \<and> t_CanonicalPath (n_Target n) = q_TargetPath q \<and> i_Path (n_Image n) = q_ImagePath q
    \<and> i_SHA256 (n_Image n) = q_SHA256 q \<and> i_UncompressedBytes (n_Image n) = q_ExpectedBytes q"
  using sys.opened_is_confirmed [OF assms] by simp


section \<open>What an execution leaves alone\<close>

definition keeps :: "world \<Rightarrow> world \<Rightarrow> bool" where
  "keeps w w' \<longleftrightarrow> w_kernel w' = w_kernel w \<and> w_targets w' = w_targets w \<and> w_sources w' = w_sources w"

lemma keeps_refl [simp]: "keeps w w"
  by (simp add: keeps_def)

lemma keeps_tick [simp]: "keeps w (tick v) = keeps w v" "keeps w (emit e v) = keeps w v"
    "keeps (tick v) w = keeps v w" "keeps (emit e v) w = keeps v w"
  by (simp_all add: keeps_def)

lemma keeps_trans: "keeps u v \<Longrightarrow> keeps v w \<Longrightarrow> keeps u w"
  by (simp add: keeps_def)

lemma keeps_control: "writeControl p x w = (e, w') \<Longrightarrow> keeps w w'"
  by (auto simp: writeControl_def syscall_eq split: option.splits)

lemma keeps_Mlockall: "Mlockall w = (e, w') \<Longrightarrow> keeps w w'"
  by (auto simp: Mlockall_def syscall_eq split: sum.splits option.splits)

lemma keeps_swapoff_loop: "swapoff_loop rs w = (e, w') \<Longrightarrow> keeps w w'"
proof (induction rs arbitrary: w)
  case (Cons r rs)
  then show ?case
    by (fastforce simp: swapoff_def syscall_eq split: if_splits option.splits)
qed simp

lemma keeps_Swapoff: "Swapoff observer w = (e, w') \<Longrightarrow> keeps w w'"
  by (auto simp: Swapoff_def observe_eq split: sum.splits dest: keeps_swapoff_loop)

lemma keeps_poll: "remount_poll k observer w = (e, w') \<Longrightarrow> keeps w w'"
proof (induction k arbitrary: w)
  case (Suc k)
  then show ?case
    by (fastforce simp: observe_eq split: sum.splits if_splits)
qed simp

lemma keeps_Remount: "RemountReadOnly observer w = (e, w') \<Longrightarrow> keeps w w'"
  by (auto simp: RemountReadOnly_def split: prod.splits option.splits
      dest!: keeps_control keeps_poll intro: keeps_trans)

lemma keeps_prepareLive:
  assumes "prepareLive m (System observer) w = (None, w')"
  shows "keeps w w'"
proof (cases "m = ModeLive")
  case True
  with assms obtain w1 w2 w3 where "Mlockall w = (None, w1)" "Swapoff observer w1 = (None, w2)"
    "EnableSysRq observer w2 = (None, w3)" "RemountReadOnly observer w3 = (None, w')"
    by (auto simp: prepareLive_def split: prod.splits option.splits)
  then show ?thesis
    unfolding EnableSysRq_def
    by (meson keeps_Mlockall keeps_Swapoff keeps_control keeps_Remount keeps_trans)
qed (use assms in \<open>simp add: prepareLive_def\<close>)

lemma keeps_rebootLive:
  assumes "rebootLive m (System observer) w = (None, w')"
  shows "keeps w w'"
  using assms
  by (auto simp: rebootLive_def SysRqSync_def SysRqReboot_def split: if_splits prod.splits option.splits
      dest!: keeps_control intro: keeps_trans)

lemma keeps_observeLive: "observeLive observer host w = (r, w') \<Longrightarrow> keeps w w'"
  by (auto simp: observeLive_def observe_eq split: sum.splits)

lemma keeps_Inspect:
  assumes "System_Inspect observer ctx q w = (Inr n, w')"
  shows "keeps w w'"
  using assms
  by (auto simp: System_Inspect_def observe_eq Let_def split: sum.splits prod.splits if_splits
      dest!: keeps_observeLive)

lemma keeps_validate: "validateOpenedTarget observer fd t w = (e, w') \<Longrightarrow> keeps w w'"
  by (auto simp: validateOpenedTarget_def observe_eq syscall_eq split: sum.splits if_splits)

lemma OpenTarget_Inr:
  assumes "OpenTarget observer path mode t w = (Inr d, w')"
  shows "keeps w w'" and "\<exists>fd. k_open (w_kernel w) (w_tick w) path (mode = ModeRescue) = Inr fd \<and> d = fd_device fd"
proof -
  obtain fd where fd: "k_open (w_kernel w) (w_tick w) path (mode = ModeRescue) = Inr fd"
    using assms by (auto simp: OpenTarget_def Let_def syscall_eq split: sum.splits)
  let ?w1 = "tick (emit (EOpen path (mode = ModeRescue)) (tick w))"
  obtain e w3 where v: "validateOpenedTarget observer fd t ?w1 = (e, w3)"
    by fastforce
  have "e = None" "w' = w3" "d = fd_device fd"
    using assms fd v by (auto simp: OpenTarget_def Let_def syscall_eq split: sum.splits if_splits option.splits)
  with keeps_validate [OF v] fd show "keeps w w'"
    "\<exists>fd. k_open (w_kernel w) (w_tick w) path (mode = ModeRescue) = Inr fd \<and> d = fd_device fd"
    using keeps_trans [of w ?w1 w3] by auto
qed

text \<open>
  What \<^verbatim>\<open>VerifyImage\<close> returns for the file it opened: after verification a descriptor was read once for its
  digest and once for its format, and rewound each time and at the end.
\<close>

definition held_image :: "osfile \<Rightarrow> gostring \<Rightarrow> gostring \<Rightarrow> verified" where
  "held_image f path digest =
     \<lparr>v_Path = path, v_SHA256 = digest,
      v_Format = (if take 4 (script_data (f_pass f (f_seeks f + 1))) = zstdMagic then FormatZstd else FormatRaw),
      v_CompressedBytes = int (length (script_data (f_pass f (f_seeks f)))),
      v_file = Some (f\<lparr>f_stats := Suc (f_stats f), f_seeks := f_seeks f + 3, f_rest := f_pass f (f_seeks f + 2)\<rparr>)\<rparr>"

lemma VerifyImage_Inr:
  assumes "VerifyImage path digest w = (Inr v, w')"
  obtains f where "k_image (w_kernel w) (w_tick w) path = Inr f" "v = Some (held_image f path digest)"
    "hex_EncodeToString (sha256 (script_data (f_pass f (f_seeks f)))) = digest" "w' = tick w"
proof -
  obtain f u f' where f: "k_image (w_kernel w) (w_tick w) path = Inr f" "verifyDescriptor f path digest = (Inr u, f')"
      "v = Some u" "w' = tick w"
    using assms
    by (auto simp: VerifyImage_def Verify_def image_validateDigest_Inr split: sum.splits prod.splits)
  have "u = held_image f path digest"
    using verifyDescriptor_Inr(4,5) [OF f(2)] by (simp add: held_image_def)
  with f(3) have "v = Some (held_image f path digest)"
    by simp
  from that [OF f(1) this verifyDescriptor_Inr(3) [OF f(2), symmetric] f(4)] show thesis .
qed

text \<open>
  What a successful execution on the system has delivered: the confirmation was the token of the
  inspected target and image; the file that the requested image path opened right after the inspection
  had the requested SHA-256, and had it again when its complete content was re-read from the held
  descriptor; the one target that was opened received, in order, exactly the expanded stream of the
  pass over that same descriptor that followed, of exactly the expected size, then was synchronised,
  data-synchronised, flushed and closed; and the source was closed.
\<close>

lemma Execute_delivers:
  assumes "Execute ctx q (System observer) progress w = ((m, None), calls, w')"
  shows "\<exists>n w1 f fd moment d' expanded ps.
      System_Inspect observer ctx q w = (Inr n, w1)
      \<and> q_Confirmation q = token_text (n_Target n) (n_Image n)
      \<and> t_CanonicalPath (n_Target n) = q_TargetPath q
      \<and> k_open (w_kernel w) moment (q_TargetPath q) (q_Mode q = ModeRescue) = Inr fd
      \<and> w_targets w' = w_targets w @ [d']
      \<and> d_log d' = d_log (fd_device fd) @ map DevWrite ps @ [DevSync, DevFdatasync, DevFlush, DevClose]
      \<and> concat ps = script_data expanded \<and> int (length (concat ps)) = q_ExpectedBytes q
      \<and> m = q_ExpectedBytes q \<and> (q_Mode q = ModeLive \<longrightarrow> q_Reboot q)
      \<and> k_image (w_kernel w) (w_tick w1) (q_ImagePath q) = Inr f
      \<and> hex_EncodeToString (sha256 (script_data (f_pass f (f_seeks f)))) = q_SHA256 q
      \<and> hex_EncodeToString (sha256 (script_data (f_pass f (f_seeks f + 3)))) = q_SHA256 q
      \<and> script_end (f_pass f (f_seeks f + 3)) = EOF
      \<and> expanded_stream (zstd_NewReader (w_kernel w)) (held_image f (q_ImagePath q) (q_SHA256 q))
          (f_pass f (f_seeks f + 4)) expanded
      \<and> w_sources w' = w_sources w @ [Some ((held_image f (q_ImagePath q) (q_SHA256 q))\<lparr>v_file := None\<rparr>)]"
  using assms
proof (cases rule: Execute_success)
  case (1 n v w1 w2 w3 w4 t w5 v' t1 w6 t2 w7 t3 w8 w9)
  have ins: "System_Inspect observer ctx q w = (Inr n, w1)"
    using 1(1) by simp
  obtain f where f: "k_image (w_kernel w1) (w_tick w1) (q_ImagePath q) = Inr f"
      "v = Some (held_image f (q_ImagePath q) (q_SHA256 q))"
      "hex_EncodeToString (sha256 (script_data (f_pass f (f_seeks f)))) = q_SHA256 q" "w2 = tick w1"
    using VerifyImage_Inr 1(2) by (metis System_sel(2))
  have w12: "keeps w w1" "keeps w1 w2" "w3 = w2" "q_Confirmation q = n_ConfirmationToken n"
    using keeps_Inspect [OF ins] 1(4) f(4) by (auto simp: Confirm_None)
  have op: "OpenTarget observer (q_TargetPath q) (q_Mode q) (n_Target n) w4 = (Inr t, w5)"
    using 1(7) by simp
  note opened = OpenTarget_Inr [OF op]
  have k4: "keeps w w4"
    using w12 keeps_prepareLive [OF 1(6)] keeps_trans by blast
  have k5: "keeps w w5"
    using k4 opened(1) keeps_trans by blast
  let ?out = "image_Write (zstd_NewReader (w_kernel w)) ctx v (Some t) (q_ExpectedBytes q) progress"
  have wr: "wo_err ?out = None" "m = wo_WrittenBytes ?out" "v' = wo_source ?out"
      "t1 = the (wo_destination ?out)" "w6 = w5"
    using 1(8) k5 by (auto simp: WriteVerified_def Let_def keeps_def)
  let ?h = "held_image f (q_ImagePath q) (q_SHA256 q)"
  obtain s g d d' expanded ps where s: "v = Some s" "v_file s = Some g" "d = t" "t1 = d'"
      "hex_EncodeToString (sha256 (script_data (f_pass g (f_seeks g)))) = v_SHA256 s"
      "script_end (f_pass g (f_seeks g)) = EOF"
      "expanded_stream (zstd_NewReader (w_kernel w)) s (f_pass g (f_seeks g + 1)) expanded"
      "d_log d' = d_log d @ map DevWrite ps @ [DevSync]" "concat ps = script_data expanded"
      "int (length (concat ps)) = q_ExpectedBytes q" "m = q_ExpectedBytes q"
    using image_Write_success [OF refl wr(1)] wr(2,4) by (metis option.sel)
  have h: "s = ?h" "f_pass g = f_pass f" "f_seeks g = f_seeks f + 3" "f_seeks g + 1 = f_seeks f + 4"
    using s(1,2) f(2) by (auto simp: held_image_def)
  obtain f' where v': "v' = Some (s\<lparr>v_file := Some f'\<rparr>)"
    using image_Write_source [OF wr(1) [unfolded s(1)]] wr(3) s(1) by auto
  have t3: "t3 = t1\<lparr>d_log := d_log t1 @ [DevFdatasync, DevFlush]\<rparr>" "keeps w5 w8"
    using 1(9,10) wr(5) by (auto simp: Fdatasync_def FlushBlock_def syscall_eq)
  have k9: "keeps w w9"
    using k5 t3(2) keeps_rebootLive [OF 1(11)] keeps_trans by blast
  have fin: "w_targets w' = w_targets w @ [t3\<lparr>d_log := d_log t3 @ [DevClose]\<rparr>]"
      "w_sources w' = w_sources w @ [Some (?h\<lparr>v_file := None\<rparr>)]"
    using 1(12) k9 by (auto simp: close_target_def close_verified_def Verified_Close_def syscall_eq keeps_def v' h(1))
  obtain fd where fd: "k_open (w_kernel w) (w_tick w4) (q_TargetPath q) (q_Mode q = ModeRescue) = Inr fd"
      "t = fd_device fd"
    using opened(2) k4 by (auto simp: keeps_def)
  have same: "t_CanonicalPath (n_Target n) = q_TargetPath q"
    using 1(3) s(1) by (simp add: sameIdentity_def)
  have digest: "v_SHA256 ?h = q_SHA256 q"
    by (simp add: held_image_def)
  have tok: "n_ConfirmationToken n = token_text (n_Target n) (n_Image n)"
    using sys.inspect_law [of observer ctx q w n w1] ins by simp
  have log: "d_log (t3\<lparr>d_log := d_log t3 @ [DevClose]\<rparr>)
      = d_log (fd_device fd) @ map DevWrite ps @ [DevSync, DevFdatasync, DevFlush, DevClose]"
    using s(3,4,8) by (simp add: t3 fd(2))
  have img: "k_image (w_kernel w) (w_tick w1) (q_ImagePath q) = Inr f"
    using f(1) w12(1) by (simp add: keeps_def)
  show ?thesis
    using ins w12(4) tok same fd(1) fin(1) log s(9,10,11) 1(5) img f(3) s(5,6,7) [unfolded h digest] fin(2)
    by (intro exI [of _ n] exI [of _ w1] exI [of _ f] exI [of _ fd] exI [of _ "w_tick w4"]
        exI [of _ "t3\<lparr>d_log := d_log t3 @ [DevClose]\<rparr>"] exI [of _ expanded] exI [of _ ps] conjI)
       (simp_all add: h(1) add.commute)
qed


section \<open>Success on a machine without faults\<close>

text \<open>
  What the sequence needs of the machine, at every moment: the source opens and keeps its content; the
  target keeps its identity and device number, opens on a descriptor with that number, and its
  device takes what it is given; in live mode the preparing calls succeed and the mounts are seen
  read-only within 600 observations.
\<close>

definition holds_image :: "kernel \<Rightarrow> gostring \<Rightarrow> bytes \<Rightarrow> bool" where
  "holds_image k path img \<longleftrightarrow> (\<forall>n. \<exists>f. k_image k n path = Inr f \<and> holds_content f img)"

definition writable_target :: "observer \<Rightarrow> kernel \<Rightarrow> request \<Rightarrow> target_identity \<Rightarrow> device \<Rightarrow> bool" where
  "writable_target observer k q t d \<longleftrightarrow> accepting d \<and> (\<exists>rdev. \<forall>n.
     (\<exists>fd. k_open k n (q_TargetPath q) (q_Mode q = ModeRescue) = Inr fd \<and> fd_device fd = d
        \<and> (\<forall>m. fd_stat fd m = Inr (True, rdev)))
     \<and> Target observer (k_view k n) (t_CanonicalPath t) = Inr t
     \<and> deviceNumber observer (k_view k n) (t_KName t) = Inr (unix_Major k rdev, unix_Minor k rdev)
     \<and> k_fdatasync k n = None \<and> k_flush k n = None)"

definition live_service :: "observer \<Rightarrow> kernel \<Rightarrow> bool" where
  "live_service observer k \<longleftrightarrow> (\<forall>n.
     (\<exists>limits. k_getrlimit k n = Inr limits) \<and> (\<forall>l. k_setrlimit k n l = None) \<and> k_mlockall k n = None
     \<and> (\<forall>p. k_swapoff k n p = None \<and> k_ctl_open k n p = None \<and> k_ctl_close k n p = None
            \<and> (\<forall>x. k_ctl_write k n p x = None))
     \<and> (\<exists>rs. readSwapRecords (o_ProcRoot observer) (k_view k n) = Inr rs
            \<and> (\<forall>r \<in> set rs. CHR 0x00 \<notin> set (w_source r)))
     \<and> (\<exists>b. BlockMountsReadOnly observer (k_view k n) = Inr b)
     \<and> (\<exists>j < 600. BlockMountsReadOnly observer (k_view k (n + j)) = Inr True))"

lemma control_completes: "live_service observer (w_kernel w) \<Longrightarrow> \<exists>w'. writeControl p x w = (None, w')"
  by (simp add: writeControl_def syscall_eq live_service_def)

lemma Mlockall_completes:
  assumes "live_service observer (w_kernel w)"
  shows "\<exists>w'. Mlockall w = (None, w')"
proof -
  obtain cur hard where "k_getrlimit (w_kernel w) (w_tick w) = Inr (cur, hard)"
    using assms unfolding live_service_def by fast
  with assms show ?thesis
    by (simp add: Mlockall_def syscall_eq live_service_def)
qed

lemma swapoff_loop_completes:
  assumes "live_service observer (w_kernel w)" "\<forall>r \<in> set rs. CHR 0x00 \<notin> set (w_source r)"
  shows "\<exists>w'. swapoff_loop rs w = (None, w')"
  using assms
proof (induction rs arbitrary: w)
  case (Cons r rs)
  have "swapoff (w_source r) w = (None, tick (emit (ESwapoff (w_source r)) w))"
    using Cons.prems by (simp add: swapoff_def syscall_eq live_service_def)
  with Cons show ?case
    by simp
qed simp

lemma Swapoff_completes:
  assumes "live_service observer (w_kernel w)"
  shows "\<exists>w'. Swapoff observer w = (None, w')"
proof -
  obtain rs where "readSwapRecords (o_ProcRoot observer) (view_at w 0) = Inr rs"
      "\<forall>r \<in> set rs. CHR 0x00 \<notin> set (w_source r)"
    using assms unfolding live_service_def view_at_def by blast
  with swapoff_loop_completes [of observer "tick w" rs] assms show ?thesis
    by (simp add: Swapoff_def observe_eq)
qed

lemma remount_poll_completes:
  assumes "\<And>j. \<exists>b. BlockMountsReadOnly observer (view_at w j) = Inr b"
    and "j < a" "BlockMountsReadOnly observer (view_at w j) = Inr True"
  shows "\<exists>w'. remount_poll a observer w = (None, w')"
  using assms
proof (induction a arbitrary: w j)
  case (Suc a)
  obtain b where b: "BlockMountsReadOnly observer (view_at w 0) = Inr b"
    using Suc.prems(1) by blast
  show ?case
  proof (cases b)
    case False
    with b Suc.prems(2,3) obtain i where "j = Suc i" "i < a"
      by (cases j) auto
    with Suc.IH [of "tick w" i] Suc.prems(1,3) b False show ?thesis
      by (simp add: observe_eq)
  qed (use b in \<open>simp add: observe_eq\<close>)
qed simp

lemma RemountReadOnly_completes:
  assumes "live_service observer (w_kernel w)"
  shows "\<exists>w'. RemountReadOnly observer w = (None, w')"
proof -
  obtain v where v: "writeControl (filepath_Join [o_ProcRoot observer, ''sysrq-trigger'']) ''u'' w = (None, v)"
    using control_completes [OF assms] by blast
  then have "live_service observer (w_kernel v)"
    using assms keeps_control [OF v] by (simp add: keeps_def)
  then have "\<exists>b. BlockMountsReadOnly observer (view_at v j) = Inr b"
    "\<exists>j < 600. BlockMountsReadOnly observer (view_at v j) = Inr True" for j
    unfolding live_service_def view_at_def by blast+
  with remount_poll_completes [of observer v _ 600] v show ?thesis
    by (auto simp: RemountReadOnly_def remountPollAttempts_def)
qed

lemma prepareLive_completes:
  assumes "m = ModeLive \<Longrightarrow> live_service observer (w_kernel w)"
  shows "\<exists>w'. prepareLive m (System observer) w = (None, w')"
proof (cases "m = ModeLive")
  case True
  then have k: "live_service observer (w_kernel v)" if "keeps w v" for v
    using assms that by (simp add: keeps_def)
  obtain w1 where w1: "Mlockall w = (None, w1)" "keeps w w1"
    using Mlockall_completes [OF k] keeps_Mlockall by fastforce
  obtain w2 where w2: "Swapoff observer w1 = (None, w2)" "keeps w w2"
    using Swapoff_completes [OF k, OF w1(2)] keeps_Swapoff keeps_trans w1(2) by metis
  obtain w3 where w3: "EnableSysRq observer w2 = (None, w3)"
    using control_completes [OF k, OF w2(2)] unfolding EnableSysRq_def by blast
  then have "keeps w2 w3"
    unfolding EnableSysRq_def by (rule keeps_control)
  note k3 = k [OF keeps_trans [OF w2(2) this]]
  obtain w4 where "RemountReadOnly observer w3 = (None, w4)"
    using RemountReadOnly_completes [OF k3] by blast
  with True w1 w2 w3 show ?thesis
    by (simp add: prepareLive_def)
qed (simp add: prepareLive_def)

lemma rebootLive_completes:
  assumes "m = ModeLive \<Longrightarrow> live_service observer (w_kernel w)"
  shows "\<exists>w'. rebootLive m (System observer) w = (None, w')"
proof (cases "m = ModeLive")
  case True
  obtain w1 where w1: "SysRqSync observer w = (None, w1)"
    using control_completes [OF assms [OF True]] unfolding SysRqSync_def by blast
  then have "keeps w w1"
    unfolding SysRqSync_def by (rule keeps_control)
  with assms [OF True] have "live_service observer (w_kernel w1)"
    by (simp add: keeps_def)
  from control_completes [OF this] obtain w2 where "SysRqReboot observer w1 = (None, w2)"
    unfolding SysRqReboot_def by blast
  with True w1 show ?thesis
    by (simp add: rebootLive_def)
qed (simp add: rebootLive_def)

lemma VerifyImage_completes:
  assumes "holds_image (w_kernel w) path img" "take 4 img \<noteq> zstdMagic"
  obtains v f where "VerifyImage path (hex_EncodeToString (sha256 img)) w = (Inr (Some v), tick w)"
    "v = \<lparr>v_Path = path, v_SHA256 = hex_EncodeToString (sha256 img), v_Format = FormatRaw,
          v_CompressedBytes = int (length img), v_file = Some f\<rparr>" "holds_content f img"
    "\<exists>f0. k_image (w_kernel w) (w_tick w) path = Inr f0 \<and> f_close f = f_close f0"
proof -
  let ?d = "hex_EncodeToString (sha256 img)"
  obtain f0 where f0: "k_image (w_kernel w) (w_tick w) path = Inr f0" "holds_content f0 img"
    using assms(1) by (auto simp: holds_image_def)
  obtain v f where v: "verifyDescriptor f0 path ?d = (Inr v, f)"
    using verifyDescriptor_content [OF f0(2)] by blast
  have "image_validateDigest ?d = Inr ?d"
    using hex_Encode_digest [of "sha256 img"] by (simp add: image_validateDigest_Inr)
  with v f0(1) have run: "VerifyImage path ?d w = (Inr (Some v), tick w)"
    by (simp add: VerifyImage_def Verify_def)
  have pass: "script_data (f_pass f0 k) = img" for k
    using f0(2) by (simp add: holds_content_def)
  have "holds_content f img" "f_close f = f_close f0"
    unfolding verifyDescriptor_Inr(4) [OF v] using f0(2) by simp_all
  with that run verifyDescriptor_Inr(5) [OF v] assms(2) f0(1) show thesis
    by (simp add: pass)
qed

lemma OpenTarget_completes:
  assumes "writable_target observer (w_kernel w) q t d"
  shows "\<exists>w'. OpenTarget observer (q_TargetPath q) (q_Mode q) t w = (Inr d, w') \<and> keeps w w'"
proof -
  from assms obtain rdev fd where fd: "k_open (w_kernel w) (w_tick w) (q_TargetPath q) (q_Mode q = ModeRescue) = Inr fd"
      "fd_device fd = d" "\<And>m. fd_stat fd m = Inr (True, rdev)"
    and view: "\<And>k. Target observer (view_at w k) (t_CanonicalPath t) = Inr t"
      "\<And>k. deviceNumber observer (view_at w k) (t_KName t)
        = Inr (unix_Major (w_kernel w) rdev, unix_Minor (w_kernel w) rdev)"
    unfolding writable_target_def view_at_def by blast
  have "\<exists>w'. OpenTarget observer (q_TargetPath q) (q_Mode q) t w = (Inr d, w')"
    by (simp add: OpenTarget_def Let_def syscall_eq fd validateOpenedTarget_def observe_eq view sameTarget_eq)
  then show ?thesis
    using OpenTarget_Inr(1) by blast
qed

lemma System_Inspect_request:
  assumes "System_Inspect observer ctx q w = (Inr n, w')"
  shows "n_Mode n = q_Mode q" "i_Path (n_Image n) = q_ImagePath q" "i_SHA256 (n_Image n) = q_SHA256 q"
    "i_UncompressedBytes (n_Image n) = q_ExpectedBytes q"
proof -
  obtain t size host where acc: "Inspect (q_Mode q) t \<lparr>i_Path = q_ImagePath q, i_SHA256 = q_SHA256 q,
      i_Format = '''', i_CompressedBytes = size, i_UncompressedBytes = q_ExpectedBytes q\<rparr> host = Inr n"
    using assms by (elim System_Inspect_Inr) blast
  show "n_Mode n = q_Mode q" "i_Path (n_Image n) = q_ImagePath q" "i_SHA256 (n_Image n) = q_SHA256 q"
    "i_UncompressedBytes (n_Image n) = q_ExpectedBytes q"
    using Inspect_accepted(1,3) [OF acc] by simp_all
qed

text \<open>
  On such a machine an accepted inspection, confirmed by its token, of a raw image is executed to the end,
  and the target receives the image.
\<close>

lemma Execute_completes:
  assumes ins: "System_Inspect observer (Some c) q w = (Inr n, w1)" "ctx_left c = None"
    and conf: "q_Confirmation q = n_ConfirmationToken n"
    and img: "q_SHA256 q = hex_EncodeToString (sha256 img)" "q_ExpectedBytes q = int (length img)" "img \<noteq> []"
      "take 4 img \<noteq> zstdMagic" "holds_image (w_kernel w) (q_ImagePath q) img"
    and same: "i_CompressedBytes (n_Image n) = int (length img)" "t_CanonicalPath (n_Target n) = q_TargetPath q"
    and target: "writable_target observer (w_kernel w) q (n_Target n) d"
    and live: "q_Mode q = ModeLive \<Longrightarrow> q_Reboot q \<and> live_service observer (w_kernel w)"
  shows "\<exists>calls w' d'. Execute (Some c) q (System observer) progress w = ((int (length img), None), calls, w')
    \<and> w_targets w' = w_targets w @ [d'] \<and> device_data d' = device_data d @ img"
proof -
  have k1: "keeps w w1"
    by (rule keeps_Inspect [OF ins(1)])
  then have img1: "holds_image (w_kernel w1) (q_ImagePath q) img"
    using img(5) by (simp add: keeps_def)
  obtain v f where v: "VerifyImage (q_ImagePath q) (q_SHA256 q) w1 = (Inr (Some v), tick w1)"
    "v = \<lparr>v_Path = q_ImagePath q, v_SHA256 = q_SHA256 q, v_Format = FormatRaw,
          v_CompressedBytes = int (length img), v_file = Some f\<rparr>" "holds_content f img"
    by (rule VerifyImage_completes [OF img1 img(4), folded img(1)])
  have id: "sameIdentity q n (Some v)"
    using same System_Inspect_request [OF ins(1)] by (simp add: sameIdentity_def v(2))
  obtain w4 where w4: "prepareLive (q_Mode q) (System observer) (tick w1) = (None, w4)"
    using prepareLive_completes [of "q_Mode q" observer "tick w1"] live k1 by (auto simp: keeps_def)
  have k4: "keeps w w4"
    using k1 keeps_prepareLive [OF w4] keeps_trans by fastforce
  obtain w5 where w5: "OpenTarget observer (q_TargetPath q) (q_Mode q) (n_Target n) w4 = (Inr d, w5)" "keeps w w5"
    using OpenTarget_completes [of observer w4 q "n_Target n" d] target k4 keeps_trans by (auto simp: keeps_def)
  let ?out = "image_Write (zstd_NewReader (w_kernel w)) (Some c) (Some v) (Some d) (q_ExpectedBytes q) progress"
  obtain d1 where d1: "wo_err ?out = None" "wo_destination ?out = Some d1" "device_data d1 = device_data d @ img"
    using write_completes [of v f img c d "zstd_NewReader (w_kernel w)" progress] v(2,3) img ins(2) target
    by (auto simp: writable_target_def)
  have "wo_WrittenBytes ?out = q_ExpectedBytes q"
    by (rule image_Write_success [OF refl d1(1)])
  then have wr: "WriteVerified (Some c) (Some v) d (q_ExpectedBytes q) progress w5
      = ((int (length img), None), wo_progress ?out, wo_source ?out, d1, w5)"
    using d1 w5(2) img(2) by (simp add: WriteVerified_def Let_def keeps_def)
  let ?w8 = "tick (tick w5)" and ?d3 = "d1\<lparr>d_log := d_log d1 @ [DevFdatasync, DevFlush]\<rparr>"
  have sync: "Fdatasync d1 w5 = (None, d1\<lparr>d_log := d_log d1 @ [DevFdatasync]\<rparr>, tick w5)"
    "FlushBlock (d1\<lparr>d_log := d_log d1 @ [DevFdatasync]\<rparr>) (tick w5) = (None, ?d3, ?w8)"
    using target w5(2) by (auto simp: Fdatasync_def FlushBlock_def syscall_eq writable_target_def keeps_def)
  obtain w9 where w9: "rebootLive (q_Mode q) (System observer) ?w8 = (None, w9)"
    using rebootLive_completes [of "q_Mode q" observer ?w8] live w5(2) by (auto simp: keeps_def)
  have k9: "keeps w w9"
    using w5(2) keeps_rebootLive [OF w9] keeps_trans by fastforce
  let ?w' = "snd (close_verified (wo_source ?out) (snd (close_target ?d3 w9)))"
  have "Execute (Some c) q (System observer) progress w = ((int (length img), None), wo_progress ?out, ?w')"
    using Execute_runs [of "System observer" "Some c" q w n w1 "Some v" "tick w1" "tick w1" w4 d w5 progress]
      ins(1) v(1) id conf live w4 w5(1) wr sync w9 by (simp add: Confirm_None)
  moreover have "w_targets ?w' = w_targets w @ [?d3\<lparr>d_log := d_log ?d3 @ [DevClose]\<rparr>]"
    using k9 by (simp add: close_verified_def close_target_def syscall_eq keeps_def split: prod.split)
  ultimately show ?thesis
    using d1(3) by (intro exI conjI) (assumption, assumption, simp)
qed

section \<open>A concrete run\<close>

text \<open>
  The host of theory \<^verbatim>\<open>Sysfs\<close> with a kernel that answers every call, and a request to write a raw image
  of 4096 bytes from the tmpfs to the unused disk.
\<close>

definition example_bytes :: bytes where
  "example_bytes = replicate 4096 (CHR ''a'')"

definition example_descriptor :: descriptor where
  "example_descriptor = \<lparr>fd_stat = (\<lambda>_. Inr (True, 0xFC10)), fd_device = example_device\<rparr>"

definition example_kernel :: kernel where
  "example_kernel =
     \<lparr>k_view = (\<lambda>_. example_snapshot), k_euid = 0, k_image = (\<lambda>_ _. Inr (steady_file example_bytes)),
      k_getrlimit = (\<lambda>_. Inr (65536, 8388608)), k_setrlimit = (\<lambda>_ _. None), k_mlockall = (\<lambda>_. None),
      k_swapoff = (\<lambda>_ _. None), k_ctl_open = (\<lambda>_ _. None), k_ctl_write = (\<lambda>_ _ _. None),
      k_ctl_close = (\<lambda>_ _. None), k_open = (\<lambda>_ _ _. Inr example_descriptor),
      k_fdatasync = (\<lambda>_. None), k_flush = (\<lambda>_. None), k_close = (\<lambda>_. None),
      unix_Major = (\<lambda>d. uint (drop_bit 8 d AND 0xFFF)), unix_Minor = (\<lambda>d. uint (d AND 0xFF)),
      zstd_NewReader = no_zstd\<rparr>"

definition example_world :: world where
  "example_world =
     \<lparr>w_kernel = example_kernel, w_tick = 0, w_effects = [], w_targets = [], w_sources = []\<rparr>"

definition run_image :: image_identity where
  "run_image =
     \<lparr>i_Path = ''/run/image.raw'', i_SHA256 = hex_EncodeToString (sha256 example_bytes), i_Format = '''',
      i_CompressedBytes = 4096, i_UncompressedBytes = 4096\<rparr>"

definition run_request :: request where
  "run_request =
     \<lparr>q_Mode = ModeRescue, q_TargetPath = ''/dev/vdb'', q_ImagePath = ''/run/image.raw'',
      q_SHA256 = hex_EncodeToString (sha256 example_bytes), q_ExpectedBytes = 4096,
      q_Confirmation = token_text example_target run_image, q_Reboot = False\<rparr>"

definition run_inspection :: "mode \<Rightarrow> inspection" where
  "run_inspection m =
     \<lparr>n_Mode = m, n_Target = example_target, n_Image = run_image,
      n_ConfirmationToken = token_text example_target run_image\<rparr>"

lemma example_views [simp]: "view_at example_world k = example_snapshot"
    "w_kernel example_world = example_kernel" "k_euid example_kernel = 0"
  by (simp_all add: view_at_def example_world_def example_kernel_def)

lemma example_stat: "s_stat example_snapshot ''/run/image.raw'' = Inr \<lparr>fi_size = 4096, fi_perm = 0x124\<rparr>"
  by (simp add: example_snapshot_def)

lemma run_Inspect:
  "System_Inspect example_observer ctx run_request example_world
   = (Inr (run_inspection ModeRescue), tick (tick (tick (tick (tick example_world)))))"
proof -
  let ?h = "\<lparr>h_EUID = 0, h_RootDisk = '''', h_MountedDevices = [(''dm-0'', True), (''vda'', True), (''vda1'', True)],
      h_SwapDevices = [], h_SourceFilesystem = ''tmpfs'', h_SourceBackingDevices = [],
      h_MemoryAvailableBytes = 0, h_SysRqTriggerAvailable = False\<rparr>"
  have names: "set (deviceNames example_target) = {''vdb'', ''vdb1''}"
    by code_simp
  have base: "filepath_Base ''dm-0'' = ''dm-0''" "filepath_Base ''vda'' = ''vda''" "filepath_Base ''vda1'' = ''vda1''"
    by code_simp+
  have ok: "rescue_ok example_target ?h"
    by (auto simp: rescue_ok_def owned_by_def names active_def base)
  have tok: "ConfirmationToken example_target run_image = Inr (token_text example_target run_image)"
    using example_token hex_Encode_digest [of "sha256 example_bytes"]
    by (simp add: ConfirmationToken_Inr run_image_def digest_ok_def)
  have "Inspect ModeRescue example_target run_image ?h = Inr (run_inspection ModeRescue)"
    unfolding Inspect_Inr_iff
    using ok tok by (simp add: run_inspection_def run_image_def example_target_def)
  then show ?thesis
    by (simp add: System_Inspect_def observe_eq run_request_def example_Target example_MountedDevices
        example_SwapDevices example_Source example_stat Let_def run_image_def)
qed

lemma example_raw: "take 4 example_bytes \<noteq> zstdMagic" "length example_bytes = 4096" "example_bytes \<noteq> []"
  by (simp_all add: example_bytes_def zstdMagic_def take_replicate numeral_eq_Suc)

lemma example_holds_image: "holds_image example_kernel path example_bytes"
  by (simp add: holds_image_def example_kernel_def steady_file_content)

lemma example_writable:
  "writable_target example_observer example_kernel run_request example_target example_device"
proof -
  have num: "deviceNumber example_observer example_snapshot ''vdb'' = Inr (252, 16)"
    by code_simp
  have dev: "uint (drop_bit 8 (0xFC10 :: 64 word) AND 0xFFF) = 252" "uint ((0xFC10 :: 64 word) AND 0xFF) = 16"
    by code_simp+
  have t: "t_CanonicalPath example_target = ''/dev/vdb''" "t_KName example_target = ''vdb''"
    by (simp_all add: example_target_def)
  show ?thesis
    unfolding writable_target_def
    by (intro conjI exI [of _ "0xFC10"])
       (simp_all add: example_kernel_def example_descriptor_def t example_Target num dev)
qed

abbreviation inspected_world :: world where
  "inspected_world \<equiv> tick (tick (tick (tick (tick example_world))))"

lemma run_Prepare:
  obtains v f where
    "Prepare ctx run_request (System example_observer) example_world
      = (Inr (run_inspection ModeRescue, Some v), tick inspected_world)"
    "v_SHA256 v = hex_EncodeToString (sha256 example_bytes)" "v_CompressedBytes v = 4096"
    "v_Format v = FormatRaw" "v_file v = Some f" "holds_content f example_bytes"
    "f_close f = None"
proof -
  have "holds_image (w_kernel inspected_world) ''/run/image.raw'' example_bytes"
    by (simp add: example_holds_image)
  from VerifyImage_completes [OF this example_raw(1)] obtain v f where
    run: "VerifyImage ''/run/image.raw'' (hex_EncodeToString (sha256 example_bytes)) inspected_world
      = (Inr (Some v), tick inspected_world)"
    and v: "v = \<lparr>v_Path = ''/run/image.raw'', v_SHA256 = hex_EncodeToString (sha256 example_bytes),
      v_Format = FormatRaw, v_CompressedBytes = 4096, v_file = Some f\<rparr>" "holds_content f example_bytes"
      "f_close f = f_close (steady_file example_bytes)"
    by (auto simp: example_raw(2) example_kernel_def)
  have same: "sameIdentity run_request (run_inspection ModeRescue) (Some v)"
    by (simp add: sameIdentity_def run_request_def run_inspection_def run_image_def example_target_def v)
  have "Prepare ctx run_request (System example_observer) example_world
      = (Inr (run_inspection ModeRescue, Some v), tick inspected_world)"
    using same run by (simp add: Prepare_def run_Inspect) (simp add: run_request_def)
  with that v show thesis
    by (simp add: steady_file_def)
qed

lemma run_Execute:
  "\<exists>calls w'. Execute (Some background) run_request (System example_observer) progress example_world
     = ((4096, None), calls, w')"
proof -
  have q: "q_Confirmation run_request = n_ConfirmationToken (run_inspection ModeRescue)"
    "q_SHA256 run_request = hex_EncodeToString (sha256 example_bytes)" "q_ExpectedBytes run_request = 4096"
    "i_CompressedBytes (n_Image (run_inspection ModeRescue)) = 4096"
    "t_CanonicalPath (n_Target (run_inspection ModeRescue)) = q_TargetPath run_request"
    "n_Target (run_inspection ModeRescue) = example_target" "q_Mode run_request \<noteq> ModeLive"
    by (simp_all add: run_request_def run_inspection_def run_image_def example_target_def ModeRescue_def ModeLive_def)
  show ?thesis
    using Execute_completes [OF run_Inspect, of background example_bytes example_device progress]
      example_raw example_holds_image example_writable q
    by (auto simp: background_def)
qed

theorem opened_only_if_confirmed_witness:
  "q_Confirmation run_request = token_text example_target run_image"
proof -
  obtain res calls w' tr where rec:
    "Execute (Some background) run_request (recorded (System example_observer)) False (example_world, [])
      = (res, calls, w', tr)"
    by (metis prod_cases4)
  then have "snd res = None"
    using Execute_same [OF rec] run_Execute [of False] by auto
  then have "COpenTarget \<in> fst ` set tr"
    using orderly_success [of "q_Mode run_request" "q_Reboot run_request" tr] Execute_orderly [OF rec]
    by (auto simp: plan_def)
  from opened_only_if_confirmed [OF rec this] show ?thesis
    by (auto simp: run_Inspect run_inspection_def)
qed

theorem rescue_inspection_unused_witness:
  "\<exists>ms. mounts example_observer example_snapshot = Inr ms
     \<and> (\<forall>name \<in> mounted_names example_observer example_snapshot ms.
          ''vdb1'' \<notin> reach example_observer example_snapshot name)"
  using rescue_inspection_unused [OF run_Inspect, of "''vdb1''"]
  by (simp add: run_request_def run_inspection_def example_target_def)

text \<open>The same host asked to overwrite its root disk in live mode.\<close>

definition live_target :: target_identity where
  "live_target =
     \<lparr>t_CanonicalPath = ''/dev/vda'', t_Serial = '''', t_WWN = '''', t_SizeBytes = 2147483648,
      t_KName = ''vda'', t_IsPartition = False, t_Descendants = [''vda'', ''vda1'']\<rparr>"

definition live_request :: request where
  "live_request = run_request\<lparr>q_Mode := ModeLive, q_TargetPath := ''/dev/vda'', q_Reboot := True\<rparr>"

lemma live_Target: "Target example_observer example_snapshot ''/dev/vda'' = Inr live_target"
  by code_simp

lemma example_RootDisk: "RootDisk example_observer example_snapshot = Inr ''/dev/vda''"
proof -
  have paths: "blockPath example_observer example_snapshot ''dm-0'' = Inr ''/sys/class/block/dm-0''"
    "blockPath example_observer example_snapshot ''vda'' = Inr ''/sys/class/block/vda''"
    "blockPath example_observer example_snapshot ''vda1'' = Inr ''/sys/class/block/vda1''"
    by code_simp+
  have slaves: "sortedEntries example_snapshot (filepath_Join [''/sys/class/block/dm-0'', ''slaves'']) = Inr [''vda1'']"
    "sortedEntries example_snapshot (filepath_Join [''/sys/class/block/vda'', ''slaves'']) = Inr []"
    "sortedEntries example_snapshot (filepath_Join [''/sys/class/block/vda1'', ''slaves'']) = Inr []"
    by code_simp+
  have part: "stat_ok example_snapshot (filepath_Join [''/sys/class/block/vda1'', ''partition''])"
    "\<not> stat_ok example_snapshot (filepath_Join [''/sys/class/block/vda'', ''partition''])"
    by code_simp+
  have dev: "filepath_Join [deviceRoot, ''vda''] = ''/dev/vda''"
    by code_simp
  show ?thesis
    by (simp add: RootDisk_def example_mounts physicalRootDisk_def example_names example_related
        paths slaves part dev)
qed

lemma live_Inspect:
  "\<exists>w'. System_Inspect example_observer ctx live_request example_world
    = (Inr \<lparr>n_Mode = ModeLive, n_Target = live_target, n_Image = run_image,
            n_ConfirmationToken = token_text live_target run_image\<rparr>, w')"
proof -
  let ?h = "\<lparr>h_EUID = 0, h_RootDisk = ''/dev/vda'', h_MountedDevices = [(''dm-0'', True), (''vda'', True), (''vda1'', True)],
      h_SwapDevices = [], h_SourceFilesystem = ''tmpfs'', h_SourceBackingDevices = [],
      h_MemoryAvailableBytes = 1073741824, h_SysRqTriggerAvailable = True\<rparr>"
  have clean: "filepath_Clean ''/dev/vda'' = ''/dev/vda''"
    by code_simp
  then have live: "live_ok live_target ?h"
    by (simp add: live_ok_def live_target_def)
  have "\<exists>cs. t_CanonicalPath live_target = abs_path (''dev'' # cs) \<and> cs \<noteq> []
      \<and> (\<forall>c \<in> set cs. ordinary c) \<and> ValidLabel (last cs)"
    by (rule exI [of _ "[''vda'']"]) code_simp
  then have "token_target_ok live_target"
    by (simp add: token_target_ok_def live_target_def validIdentityText_def)
  then have tok: "ConfirmationToken live_target run_image = Inr (token_text live_target run_image)"
    using hex_Encode_digest [of "sha256 example_bytes"]
    by (simp add: ConfirmationToken_Inr run_image_def digest_ok_def)
  have "Inspect ModeLive live_target run_image ?h = Inr \<lparr>n_Mode = ModeLive, n_Target = live_target,
      n_Image = run_image, n_ConfirmationToken = token_text live_target run_image\<rparr>"
    unfolding Inspect_Inr_iff
    using live tok by (simp add: run_image_def live_target_def ModeRescue_def ModeLive_def)
  then show ?thesis
    by (simp add: System_Inspect_def observeLive_def observe_eq live_request_def run_request_def live_Target
        example_MountedDevices example_SwapDevices example_Source example_stat example_RootDisk
        example_live Let_def run_image_def)
qed

theorem live_inspection_gates_witness:
  "\<exists>root. RootDisk example_observer example_snapshot = Inr root
     \<and> filepath_Clean root = t_CanonicalPath live_target"
proof -
  obtain w' where "System_Inspect example_observer None live_request example_world
    = (Inr \<lparr>n_Mode = ModeLive, n_Target = live_target, n_Image = run_image,
            n_ConfirmationToken = token_text live_target run_image\<rparr>, w')"
    using live_Inspect by blast
  from live_inspection_gates [OF this] show ?thesis
    by (simp add: live_request_def)
qed

theorem RemountReadOnly_proved_witness:
  "\<exists>k < 600. BlockMountsReadOnly example_observer
      (view_at (example_world\<lparr>w_kernel := example_kernel\<lparr>k_view := \<lambda>_. example_ro_snapshot\<rparr>\<rparr>) (3 + k)) = Inr True"
proof -
  let ?w = "example_world\<lparr>w_kernel := example_kernel\<lparr>k_view := \<lambda>_. example_ro_snapshot\<rparr>\<rparr>"
  have view: "view_at ?w k = example_ro_snapshot" for k
    by (simp add: view_at_def)
  have ctl: "k_ctl_open example_kernel n p = None" "k_ctl_write example_kernel n p x = None"
      "k_ctl_close example_kernel n p = None" for n p x
    by (simp_all add: example_kernel_def)
  have poll: "fst (remount_poll (Suc k) example_observer v) = None" if "\<And>k. view_at v k = example_ro_snapshot" for k v
    by (simp add: observe_eq that example_BlockMountsReadOnly)
  have "fst (remount_poll remountPollAttempts example_observer
      (tick (tick (emit e (tick ?w))))) = None" for e
    using poll [of "tick (tick (emit e (tick ?w)))" 599] view by (simp add: remountPollAttempts_def)
  then have "fst (RemountReadOnly example_observer ?w) = None"
    by (simp add: RemountReadOnly_def writeControl_def syscall_eq ctl)
  then obtain w' where "RemountReadOnly example_observer ?w = (None, w')"
    by (metis prod.collapse)
  from RemountReadOnly_proved [OF this] show ?thesis
    by blast
qed

text \<open>A host with two swap areas, a partition and a file with a space in its name.\<close>

definition swap_snapshot :: snapshot where
  "swap_snapshot = example_snapshot
     \<lparr>s_open := (\<lambda>p. if p = ''/proc/swaps''
        then Inr (text_lines [''Filename Type Size Used Priority'', ''/dev/vda1 partition 1048572 0 -2'',
                              ''/var/my'' @ [CHR 0x5C] @ ''040swap file 524284 0 -3''], None)
        else s_open example_snapshot p)\<rparr>"

theorem Swapoff_complete_witness:
  "\<exists>w'. Swapoff example_observer (example_world\<lparr>w_kernel := example_kernel\<lparr>k_view := \<lambda>_. swap_snapshot\<rparr>\<rparr>) = (None, w')
    \<and> w_effects w' = [ESwapoff ''/dev/vda1'', ESwapoff ''/var/my swap'']"
proof -
  let ?w = "example_world\<lparr>w_kernel := example_kernel\<lparr>k_view := \<lambda>_. swap_snapshot\<rparr>\<rparr>"
  have "map w_source (projr (readSwapRecords (o_ProcRoot example_observer) swap_snapshot))
      = [''/dev/vda1'', ''/var/my swap''] \<and> \<not> isl (readSwapRecords (o_ProcRoot example_observer) swap_snapshot)"
    by code_simp
  then obtain rs where rs: "readSwapRecords (o_ProcRoot example_observer) swap_snapshot = Inr rs"
      "map w_source rs = [''/dev/vda1'', ''/var/my swap'']"
    by (cases "readSwapRecords (o_ProcRoot example_observer) swap_snapshot") auto
  have view: "view_at ?w 0 = swap_snapshot" "w_effects ?w = []"
    by (simp_all add: view_at_def example_world_def)
  have "fst (swapoff_loop rs (tick ?w)) = None"
    using rs(2) by (auto simp: map_eq_Cons_conv swapoff_def syscall_eq example_kernel_def)
  then obtain w' where run: "Swapoff example_observer ?w = (None, w')"
    using rs(1) by (cases "swapoff_loop rs (tick ?w)") (auto simp: Swapoff_def observe_eq view)
  have "w_effects w' = map ESwapoff (map w_source rs)"
    using Swapoff_complete [OF run] rs(1) view by auto
  with run rs(2) show ?thesis
    by simp
qed

end
