(* ===== verification/Go_Os.thy ===== *)
theory Go_Os
  imports Verified Go_Path
begin

text \<open>
  The calls of package os that staging makes, on a store. The store separates what a process sees
  (names, contents, modes) from what has reached the disk (the contents last synchronised per inode, and
  the entries last synchronised per directory, of files and of directories), and counts the open
  descriptors, directories and response bodies. The record \<open>os_kernel\<close> holds the answers of the kernel, each of which may be any
  error at any time. Umask and the ownership of files are left out.
\<close>

section \<open>The store and the kernel\<close>

record store =
  st_dirs :: "gostring \<rightharpoonup> int"
  st_names :: "gostring \<rightharpoonup> nat"
  st_data :: "nat \<Rightarrow> bytes"
  st_mode :: "nat \<Rightarrow> int"
  st_next :: nat
  st_synced :: "nat \<Rightarrow> bytes"
  st_synced_names :: "gostring \<rightharpoonup> nat"
  st_synced_dirs :: "gostring \<Rightarrow> bool"
  st_open :: nat
  st_open_dirs :: nat
  st_bodies :: nat

text \<open>
  \<open>a_random\<close> is the n-th random number of \<^verbatim>\<open>os.CreateTemp\<close>; \<open>a_write\<close> the count and the error of
  the n-th write; \<open>a_pass\<close> what the n-th pass over a file with the given content reads.
\<close>

record os_kernel =
  a_mkdir :: "gostring \<Rightarrow> goerr option"
  a_random :: "nat \<Rightarrow> nat"
  a_create :: "gostring \<Rightarrow> goerr option"
  a_chmod :: "goerr option"
  a_write :: "nat \<Rightarrow> bytes \<Rightarrow> int \<times> goerr option"
  a_fsync :: "goerr option"
  a_pass :: "nat \<Rightarrow> bytes \<Rightarrow> script"
  a_seek :: "nat \<Rightarrow> goerr option"
  a_stat :: "nat \<Rightarrow> goerr option"
  a_close :: "goerr option"
  a_rename :: "goerr option"
  a_remove :: "goerr option"
  a_opendir :: "goerr option"
  a_syncdir :: "goerr option"
  a_closedir :: "goerr option"

section \<open>Directories and temporary files\<close>

definition os_exists :: "store \<Rightarrow> gostring \<Rightarrow> bool" where
  "os_exists s name \<longleftrightarrow> st_names s name \<noteq> None \<or> st_dirs s name \<noteq> None"

text \<open>The path itself and, before it, each ancestor below the root.\<close>

definition path_prefixes :: "gostring \<Rightarrow> gostring list" where
  "path_prefixes p =
     map (\<lambda>n. take n p) (filter (\<lambda>n. n = length p \<or> 0 < n \<and> p ! n = slash) [0..<Suc (length p)])"

text \<open>
  \<^verbatim>\<open>os.MkdirAll\<close>, on a path followed by its ancestors: nothing for a directory that exists; otherwise first
  the ancestors, then the path itself. A new directory is not on the disk before the directory that
  holds its entry is synchronised.
\<close>

fun mkdir_each :: "os_kernel \<Rightarrow> int \<Rightarrow> gostring list \<Rightarrow> store \<Rightarrow> goerr option \<times> store" where
  "mkdir_each k perm [] s = (None, s)"
| "mkdir_each k perm (p # ps) s =
     (if st_dirs s p \<noteq> None then (None, s)
      else if st_names s p \<noteq> None then (Some (Opaque ''not a directory''), s)
      else case mkdir_each k perm ps s of
             (Some err, s1) \<Rightarrow> (Some err, s1)
           | (None, s1) \<Rightarrow>
               (case a_mkdir k p of
                  Some err \<Rightarrow> (Some err, s1)
                | None \<Rightarrow> (None, s1\<lparr>st_dirs := (st_dirs s1)(p \<mapsto> perm)\<rparr>)))"

definition os_MkdirAll :: "os_kernel \<Rightarrow> gostring \<Rightarrow> int \<Rightarrow> store \<Rightarrow> goerr option \<times> store" where
  "os_MkdirAll k path perm s = mkdir_each k perm (rev (path_prefixes path)) s"

text \<open>
  \<^verbatim>\<open>os.CreateTemp\<close>: the last star of the pattern becomes a random number, a name that exists is
  skipped, and after 10000 names the call gives up. The result is the name and the new inode.
\<close>

definition star :: char where
  "star = CHR ''*''"

definition prefixAndSuffix :: "gostring \<Rightarrow> (gostring \<times> gostring) res" where
  "prefixAndSuffix pattern =
     (if slash \<in> set pattern then Inl (Opaque ''pattern contains path separator'')
      else if star \<in> set pattern
      then Inr (rev (tl (dropWhile (\<lambda>c. c \<noteq> star) (rev pattern))),
                rev (takeWhile (\<lambda>c. c \<noteq> star) (rev pattern)))
      else Inr (pattern, ''''))"

definition joinPath :: "gostring \<Rightarrow> gostring \<Rightarrow> gostring" where
  "joinPath dir name =
     (if dir \<noteq> '''' \<and> last dir = slash then dir @ name else dir @ slash # name)"

fun create_loop ::
  "os_kernel \<Rightarrow> gostring \<Rightarrow> gostring \<Rightarrow> nat \<Rightarrow> nat \<Rightarrow> store \<Rightarrow> (gostring \<times> nat) res \<times> store" where
  "create_loop k prefix suffix n 0 s = (Inl (Opaque ''file exists''), s)"
| "create_loop k prefix suffix n (Suc left) s =
     (let name = prefix @ int_digits (int (a_random k n)) @ suffix
      in if os_exists s name then create_loop k prefix suffix (Suc n) left s
         else case a_create k name of
                Some err \<Rightarrow> (Inl err, s)
              | None \<Rightarrow>
                  (let i = st_next s
                   in (Inr (name, i),
                       s\<lparr>st_names := (st_names s)(name \<mapsto> i), st_data := (st_data s)(i := []),
                         st_mode := (st_mode s)(i := 384), st_synced := (st_synced s)(i := []),
                         st_next := Suc i, st_open := Suc (st_open s)\<rparr>)))"

definition os_CreateTemp ::
  "os_kernel \<Rightarrow> gostring \<Rightarrow> gostring \<Rightarrow> store \<Rightarrow> (gostring \<times> nat) res \<times> store" where
  "os_CreateTemp k dir pattern s =
     (case prefixAndSuffix pattern of
        Inl err \<Rightarrow> (Inl err, s)
      | Inr (prefix, suffix) \<Rightarrow> create_loop k (joinPath dir prefix) suffix 0 10000 s)"

section \<open>Open files\<close>

definition file_Chmod :: "os_kernel \<Rightarrow> nat \<Rightarrow> int \<Rightarrow> store \<Rightarrow> goerr option \<times> store" where
  "file_Chmod k i mode s =
     (case a_chmod k of
        Some err \<Rightarrow> (Some err, s)
      | None \<Rightarrow> (None, s\<lparr>st_mode := (st_mode s)(i := mode)\<rparr>))"

definition file_Write :: "os_kernel \<Rightarrow> nat \<Rightarrow> nat \<Rightarrow> bytes \<Rightarrow> store \<Rightarrow> (int \<times> goerr option) \<times> store" where
  "file_Write k n i p s =
     (case a_write k n p of
        (count, err) \<Rightarrow>
          (let m = max 0 count
           in ((m, case err of
                     Some e \<Rightarrow> Some e
                   | None \<Rightarrow> (if m \<noteq> int (length p) then Some (Sentinel IoErrShortWrite) else None)),
               s\<lparr>st_data := (st_data s)(i := st_data s i @ take (nat m) p)\<rparr>)))"

definition file_Sync :: "os_kernel \<Rightarrow> nat \<Rightarrow> store \<Rightarrow> goerr option \<times> store" where
  "file_Sync k i s =
     (case a_fsync k of
        Some err \<Rightarrow> (Some err, s)
      | None \<Rightarrow> (None, s\<lparr>st_synced := (st_synced s)(i := st_data s i)\<rparr>))"

text \<open>The descriptor of a regular file, at its end, with the content it has in the store.\<close>

definition opened_file :: "os_kernel \<Rightarrow> nat \<Rightarrow> store \<Rightarrow> osfile" where
  "opened_file k i s =
     \<lparr>f_pass = (\<lambda>n. a_pass k n (st_data s i)), f_seek = a_seek k,
      f_stat = (\<lambda>n. case a_stat k n of
                      Some err \<Rightarrow> Inl err
                    | None \<Rightarrow> Inr (True, int (length (st_data s i)))),
      f_close = a_close k, f_seeks = 0, f_stats = 0, f_rest = []\<rparr>"

definition file_Close :: "store \<Rightarrow> store" where
  "file_Close s = s\<lparr>st_open := st_open s - 1\<rparr>"

section \<open>Names\<close>

definition os_Rename :: "os_kernel \<Rightarrow> gostring \<Rightarrow> gostring \<Rightarrow> store \<Rightarrow> goerr option \<times> store" where
  "os_Rename k old new s =
     (case st_names s old of
        None \<Rightarrow> (Some (Sentinel OsErrNotExist), s)
      | Some i \<Rightarrow>
          (if st_dirs s new \<noteq> None then (Some (Opaque ''file exists''), s)
           else case a_rename k of
             Some err \<Rightarrow> (Some err, s)
           | None \<Rightarrow> (None, s\<lparr>st_names := (st_names s)(old := None, new := Some i)\<rparr>)))"

definition os_Remove :: "os_kernel \<Rightarrow> gostring \<Rightarrow> store \<Rightarrow> goerr option \<times> store" where
  "os_Remove k name s =
     (if st_names s name = None then (Some (Sentinel OsErrNotExist), s)
      else case a_remove k of
             Some err \<Rightarrow> (Some err, s)
           | None \<Rightarrow> (None, s\<lparr>st_names := (st_names s)(name := None)\<rparr>))"

text \<open>
  Synchronising a directory puts its entries on the disk, those of files and those of directories; its
  own entry is one of its parent.
\<close>

definition dir_names :: "gostring \<Rightarrow> (gostring \<rightharpoonup> nat) \<Rightarrow> (gostring \<rightharpoonup> nat) \<Rightarrow> gostring \<rightharpoonup> nat" where
  "dir_names path current durable =
     (\<lambda>name. if filepath_Dir name = path then current name else durable name)"

definition dir_dirs :: "gostring \<Rightarrow> (gostring \<rightharpoonup> int) \<Rightarrow> (gostring \<Rightarrow> bool) \<Rightarrow> gostring \<Rightarrow> bool" where
  "dir_dirs path current durable =
     (\<lambda>dir. durable dir \<or> filepath_Dir dir = path \<and> current dir \<noteq> None)"

definition dir_synced :: "gostring \<Rightarrow> store \<Rightarrow> store" where
  "dir_synced path s =
     s\<lparr>st_synced_names := dir_names path (st_names s) (st_synced_names s),
       st_synced_dirs := dir_dirs path (st_dirs s) (st_synced_dirs s)\<rparr>"

definition dir_Sync :: "os_kernel \<Rightarrow> gostring \<Rightarrow> store \<Rightarrow> goerr option \<times> store" where
  "dir_Sync k path s =
     (case a_syncdir k of
        Some err \<Rightarrow> (Some err, s)
      | None \<Rightarrow> (None, dir_synced path s))"

end
