(* ===== verification/Stage.thy ===== *)
theory Stage
  imports Go_Os Image_Write
begin

text \<open>
  internal/image/stage.go: a bounded download into a partial file beside the destination, published
  by a rename once it is complete, has the expected digest and is on the disk. The HTTP transport is
  described by its answers: whether a URL makes a request, and what \<^verbatim>\<open>client.Do\<close> returns; the body of
  a response is a script of reads.
\<close>

section \<open>The transport\<close>

record http_response =
  r_StatusCode :: int
  r_ContentLength :: int
  r_Body :: script

text \<open>A client is its total timeout in nanoseconds; \<open>net_Do\<close> may depend on it.\<close>

record http_client =
  c_Timeout :: int

record network =
  net_NewRequest :: "gostring \<Rightarrow> goerr option"
  net_Do :: "http_client \<Rightarrow> gostring \<Rightarrow> http_response res"

section \<open>stage.go\<close>

text \<open>\<^verbatim>\<open>0o755\<close> and \<^verbatim>\<open>0o600\<close>.\<close>

definition destinationDirectoryMode :: int where
  "destinationDirectoryMode = 493"

definition stagedImageMode :: int where
  "stagedImageMode = 384"

definition validateStageInputs ::
  "goctx option \<Rightarrow> http_client option \<Rightarrow> gostring \<Rightarrow> int \<Rightarrow> (gostring \<times> http_client) res" where
  "validateStageInputs ctx client expectedSHA256 maximumBytes =
     (case ctx of
        None \<Rightarrow> Inl (Errorf ''%w: context is required'' [] (Sentinel ErrInvalidArgument))
      | Some c \<Rightarrow>
          (case fst (ctx_Err c) of
             Some err \<Rightarrow> Inl err
           | None \<Rightarrow>
               (case client of
                  None \<Rightarrow> Inl (Errorf ''%w: HTTP client is required'' [] (Sentinel ErrInvalidArgument))
                | Some cl \<Rightarrow>
                    (if maximumBytes \<le> 0 \<or> maximumBytes = max_int64
                     then Inl (Errorf ''%w: maximum download size must be positive and bounded'' []
                                 (Sentinel ErrInvalidArgument))
                     else case image_validateDigest expectedSHA256 of
                            Inl err \<Rightarrow> Inl err
                          | Inr expected \<Rightarrow> Inr (expected, cl)))))"

definition download :: "network \<Rightarrow> http_client \<Rightarrow> gostring \<Rightarrow> store \<Rightarrow> http_response res \<times> store" where
  "download net client sourceURL s =
     (case net_NewRequest net sourceURL of
        Some err \<Rightarrow> (Inl (Errorf ''create download request: %w'' [] err), s)
      | None \<Rightarrow>
          (case net_Do net client sourceURL of
             Inl err \<Rightarrow> (Inl (Errorf ''download image: %w'' [] err), s)
           | Inr response \<Rightarrow> (Inr response, s\<lparr>st_bodies := Suc (st_bodies s)\<rparr>)))"

definition validateResponse :: "http_response \<Rightarrow> int \<Rightarrow> goerr option" where
  "validateResponse response maximumBytes =
     (if r_StatusCode response < 200 \<or> r_StatusCode response \<ge> 300
      then Some (Errorf ''%w: HTTP status %d'' [FInt (r_StatusCode response)] (Sentinel ErrDownloadRejected))
      else if r_ContentLength response > maximumBytes
      then Some (Errorf ''%w: download exceeds %d bytes'' [FInt maximumBytes] (Sentinel ErrSizeMismatch))
      else None)"

text \<open>
  \<^verbatim>\<open>io.MultiWriter(partial, hasher)\<close>: the hasher sees a buffer only after the partial file took all of
  it. The state has the store, the inode of the partial file, the number of writes and the bytes hashed.
\<close>

record stage_writer =
  sw_store :: store
  sw_inode :: nat
  sw_writes :: nat
  sw_hashed :: bytes

definition stage_Write :: "os_kernel \<Rightarrow> stage_writer \<Rightarrow> bytes \<Rightarrow> (int \<times> goerr option) \<times> stage_writer" where
  "stage_Write k w p =
     (case file_Write k (sw_writes w) (sw_inode w) p (sw_store w) of
        ((n, err), s) \<Rightarrow>
          (let w1 = w\<lparr>sw_store := s, sw_writes := Suc (sw_writes w)\<rparr>
           in case err of
                Some e \<Rightarrow> ((n, Some e), w1)
              | None \<Rightarrow>
                  (if n \<noteq> int (length p) then ((n, Some (Sentinel IoErrShortWrite)), w1)
                   else case hasher_Write (sw_hashed w1) p of
                          ((m, herr), h) \<Rightarrow> ((m, herr), w1\<lparr>sw_hashed := h\<rparr>))))"

text \<open>The buffer \<^verbatim>\<open>io.Copy\<close> allocates for a limited reader.\<close>

definition limited_buffer :: "int \<Rightarrow> nat" where
  "limited_buffer left =
     (if int ioCopyBytes > left then (if left < 1 then 1 else nat left) else ioCopyBytes)"

definition syncDirectory :: "os_kernel \<Rightarrow> gostring \<Rightarrow> store \<Rightarrow> goerr option \<times> store" where
  "syncDirectory k path s =
     (case a_opendir k of
        Some err \<Rightarrow> (Some (Errorf ''open destination directory: %w'' [] err), s)
      | None \<Rightarrow>
          (let s1 = s\<lparr>st_open_dirs := Suc (st_open_dirs s)\<rparr>
           in case dir_Sync k path s1 of
                (Some err, s2) \<Rightarrow>
                  (Some (Errorf ''sync destination directory: %w'' [] err),
                   s2\<lparr>st_open_dirs := st_open_dirs s2 - 1\<rparr>)
              | (None, s2) \<Rightarrow>
                  (let s3 = s2\<lparr>st_open_dirs := st_open_dirs s2 - 1\<rparr>
                   in case a_closedir k of
                        Some err \<Rightarrow> (Some (Errorf ''close destination directory: %w'' [] err), s3)
                      | None \<Rightarrow> (None, s3))))"

text \<open>
  \<^verbatim>\<open>publishResponse\<close> in scopes: filling and checking the partial file, from the change of its mode to
  its verification; publishing it; and the whole function with the deferred cleanup. \<open>keepOpen\<close> is set
  just before the only successful return.
\<close>

definition fill_partial ::
  "os_kernel \<Rightarrow> script \<Rightarrow> int \<Rightarrow> gostring \<Rightarrow> gostring \<Rightarrow> int \<Rightarrow> nat \<Rightarrow> store \<Rightarrow> verified res \<times> store" where
  "fill_partial k body contentLength destination expectedSHA256 maximumBytes i s =
     (case file_Chmod k i stagedImageMode s of
        (Some chmodErr, s1) \<Rightarrow> (Inl (Errorf ''set partial image permissions: %w'' [] chmodErr), s1)
      | (None, s1) \<Rightarrow>
          (let limit = wrap64 (maximumBytes + 1)
           in case copy_loop (stage_Write k) (limited_buffer limit)
                     (io_LimitReader (plain_reader body) limit)
                     \<lparr>sw_store = s1, sw_inode = i, sw_writes = 0, sw_hashed = []\<rparr> 0 of
             (written, Some err, r, w) \<Rightarrow> (Inl (Errorf ''download image: %w'' [] err), sw_store w)
           | (written, None, r, w) \<Rightarrow>
               (if written > maximumBytes
                then (Inl (Errorf ''%w: download exceeds %d bytes'' [FInt maximumBytes]
                             (Sentinel ErrSizeMismatch)), sw_store w)
                else if contentLength \<ge> 0 \<and> written \<noteq> contentLength
                then (Inl (Errorf ''%w: download length mismatch: got %d, want %d''
                             [FInt written, FInt contentLength] (Sentinel ErrSizeMismatch)), sw_store w)
                else
                  let actual = hex_EncodeToString (sha256 (sw_hashed w))
                  in if actual \<noteq> expectedSHA256
                     then (Inl (Errorf ''%w: got %s'' [FStr actual] (Sentinel ErrDigestMismatch)),
                           sw_store w)
                     else case file_Sync k i (sw_store w) of
                       (Some syncErr, s2) \<Rightarrow> (Inl (Errorf ''sync partial image: %w'' [] syncErr), s2)
                     | (None, s2) \<Rightarrow>
                         (fst (verifyDescriptor (opened_file k i s2) destination expectedSHA256), s2))))"

definition publish_partial ::
  "os_kernel \<Rightarrow> script \<Rightarrow> int \<Rightarrow> gostring \<Rightarrow> gostring \<Rightarrow> gostring \<Rightarrow> int \<Rightarrow> gostring \<Rightarrow> nat \<Rightarrow> store
   \<Rightarrow> verified res \<times> store" where
  "publish_partial k body contentLength directory destination expectedSHA256 maximumBytes partialPath i s =
     (case fill_partial k body contentLength destination expectedSHA256 maximumBytes i s of
        (Inl err, s1) \<Rightarrow> (Inl err, s1)
      | (Inr verified, s1) \<Rightarrow>
          (case os_Rename k partialPath destination s1 of
             (Some renameErr, s2) \<Rightarrow> (Inl (Errorf ''publish staged image: %w'' [] renameErr), s2)
           | (None, s2) \<Rightarrow>
               (case syncDirectory k directory s2 of
                  (Some syncErr, s3) \<Rightarrow> (Inl syncErr, s3)
                | (None, s3) \<Rightarrow> (Inr verified, s3))))"

definition publish_cleanup :: "os_kernel \<Rightarrow> bool \<Rightarrow> gostring \<Rightarrow> store \<Rightarrow> store" where
  "publish_cleanup k keepOpen partialPath s =
     snd (os_Remove k partialPath (if \<not> keepOpen then file_Close s else s))"

definition publishResponse ::
  "os_kernel \<Rightarrow> script \<Rightarrow> int \<Rightarrow> gostring \<Rightarrow> gostring \<Rightarrow> int \<Rightarrow> store \<Rightarrow> verified res \<times> store" where
  "publishResponse k body contentLength destination expectedSHA256 maximumBytes s =
     (let directory = filepath_Dir destination
      in case os_MkdirAll k directory destinationDirectoryMode s of
           (Some mkdirErr, s1) \<Rightarrow> (Inl (Errorf ''create destination directory: %w'' [] mkdirErr), s1)
         | (None, s1) \<Rightarrow>
             (case os_CreateTemp k directory (''.'' @ filepath_Base destination @ ''.partial-*'') s1 of
                (Inl err, s2) \<Rightarrow> (Inl (Errorf ''create partial image: %w'' [] err), s2)
              | (Inr (partialPath, i), s2) \<Rightarrow>
                  (case publish_partial k body contentLength directory destination expectedSHA256
                          maximumBytes partialPath i s2 of
                     (result, s3) \<Rightarrow>
                       (result, publish_cleanup k (\<not> isl result) partialPath s3))))"

definition Stage ::
  "os_kernel \<Rightarrow> network \<Rightarrow> goctx option \<Rightarrow> http_client option \<Rightarrow> gostring \<Rightarrow> gostring \<Rightarrow> gostring \<Rightarrow> int
   \<Rightarrow> store \<Rightarrow> verified res \<times> store" where
  "Stage k net ctx client sourceURL destination expectedSHA256 maximumBytes s =
     (case validateStageInputs ctx client expectedSHA256 maximumBytes of
        Inl err \<Rightarrow> (Inl err, s)
      | Inr (expected, cl) \<Rightarrow>
          (case download net cl sourceURL s of
             (Inl err, s1) \<Rightarrow> (Inl err, s1)
           | (Inr response, s1) \<Rightarrow>
               (case validateResponse response maximumBytes of
                  Some err \<Rightarrow> (Inl err, s1\<lparr>st_bodies := st_bodies s1 - 1\<rparr>)
                | None \<Rightarrow>
                    (case publishResponse k (r_Body response) (r_ContentLength response) destination
                            expected maximumBytes s1 of
                       (result, s2) \<Rightarrow> (result, s2\<lparr>st_bodies := st_bodies s2 - 1\<rparr>)))))"


section \<open>The copy into the partial file\<close>

lemma file_Write_result:
  assumes "file_Write k n i p s = ((count, err), s')"
  shows "s' = s\<lparr>st_data := (st_data s)(i := st_data s i @ take (nat count) p)\<rparr>"
  using assms by (auto simp: file_Write_def Let_def split: prod.splits)

lemma stage_Write_store:
  assumes "stage_Write k w p = ((count, err), w')"
  shows "sw_inode w' = sw_inode w"
    and "sw_store w' = (sw_store w)\<lparr>st_data := (st_data (sw_store w))
           (sw_inode w := st_data (sw_store w) (sw_inode w) @ take (nat count) p)\<rparr>"
    and "err = None \<Longrightarrow> sw_hashed w' = sw_hashed w @ p \<and> count = int (length p)"
proof -
  obtain n e s where fw: "file_Write k (sw_writes w) (sw_inode w) p (sw_store w) = ((n, e), s)"
    by (metis surj_pair)
  note s = file_Write_result [OF fw]
  have "sw_inode w' = sw_inode w \<and> sw_store w' = s \<and> take (nat n) p = take (nat count) p
      \<and> (err = None \<longrightarrow> sw_hashed w' = sw_hashed w @ p \<and> count = int (length p))"
    using assms fw
    by (auto simp: stage_Write_def Let_def hasher_Write_def split: option.splits if_splits)
  then show "sw_inode w' = sw_inode w"
    and "sw_store w' = (sw_store w)\<lparr>st_data := (st_data (sw_store w))
           (sw_inode w := st_data (sw_store w) (sw_inode w) @ take (nat count) p)\<rparr>"
    and "err = None \<Longrightarrow> sw_hashed w' = sw_hashed w @ p \<and> count = int (length p)"
    using s by simp_all
qed

interpretation stage_sink: byte_sink "stage_Write k" "\<lambda>w. st_data (sw_store w) (sw_inode w)" for k
proof
  fix w p count werr w'
  assume "stage_Write k w p = ((count, werr), w')"
  from stage_Write_store(1,2) [OF this]
  show "st_data (sw_store w') (sw_inode w') = st_data (sw_store w) (sw_inode w) @ take (nat count) p"
    by simp
qed

text \<open>Only the content of inode \<open>i\<close> changes.\<close>

definition only_data :: "nat \<Rightarrow> store \<Rightarrow> store \<Rightarrow> bool" where
  "only_data i s s' \<longleftrightarrow> s' = s\<lparr>st_data := (st_data s)(i := st_data s' i)\<rparr>"

lemma only_data_refl [simp]: "only_data i s s"
  by (simp add: only_data_def)

definition fresh_writer :: "store \<Rightarrow> nat \<Rightarrow> stage_writer" where
  "fresh_writer s i = \<lparr>sw_store = s, sw_inode = i, sw_writes = 0, sw_hashed = []\<rparr>"

lemma limited_buffer_pos [simp]: "0 < limited_buffer left"
  by (auto simp: limited_buffer_def ioCopyBytes_def)

lemma stage_copy_frame:
  assumes "copy_loop (stage_Write k) (limited_buffer left) r (fresh_writer s i) 0 = (n, err, r', w)"
  shows "sw_inode w = i \<and> only_data i s (sw_store w)"
  using assms limited_buffer_pos
proof (rule copy_invariant)
  show "sw_inode (fresh_writer s i) = i \<and> only_data i s (sw_store (fresh_writer s i))"
    by (simp add: fresh_writer_def)
next
  fix w :: stage_writer and p
  assume "sw_inode w = i \<and> only_data i s (sw_store w)"
  then obtain d where i: "sw_inode w = i" and s: "sw_store w = s\<lparr>st_data := (st_data s)(i := d)\<rparr>"
    by (auto simp: only_data_def)
  obtain count err w' where w': "stage_Write k w p = ((count, err), w')"
    by (metis surj_pair)
  have "sw_store w' = s\<lparr>st_data := (st_data s)(i := d @ take (nat count) p)\<rparr>"
    unfolding stage_Write_store(2) [OF w'] i by (simp add: s)
  then have "only_data i s (sw_store w')"
    by (simp add: only_data_def)
  then show "sw_inode (snd (stage_Write k w p)) = i
      \<and> only_data i s (sw_store (snd (stage_Write k w p)))"
    using stage_Write_store(1) [OF w'] i w' by simp
qed

lemma stage_copy_hashed:
  assumes "copy_loop (stage_Write k) (limited_buffer left) r (fresh_writer s i) 0 = (n, None, r', w)"
    and "st_data s i = []"
  shows "sw_hashed w = st_data (sw_store w) (sw_inode w)"
  using assms(1) limited_buffer_pos
proof (rule copy_success_invariant)
  show "sw_hashed (fresh_writer s i) = st_data (sw_store (fresh_writer s i)) (sw_inode (fresh_writer s i))"
    using assms(2) by (simp add: fresh_writer_def)
next
  fix w p and w1 :: stage_writer
  assume "sw_hashed w = st_data (sw_store w) (sw_inode w)"
    and "stage_Write k w p = ((int (length p), None), w1)"
  with stage_Write_store [of k w p "int (length p)" None w1]
  show "sw_hashed w1 = st_data (sw_store w1) (sw_inode w1)"
    by simp
qed

text \<open>What a copy of a body within the limit \<open>left\<close> leaves in the partial file.\<close>

lemma stage_copy:
  assumes "copy_loop (stage_Write k) (limited_buffer left) (io_LimitReader (plain_reader body) left)
      (fresh_writer s i) 0 = (n, err, r', w)"
    and "st_data s i = []"
  shows "only_data i s (sw_store w)"
    and "\<exists>q. take (nat left) (script_data body) = st_data (sw_store w) i @ q"
    and "err = None \<Longrightarrow> st_data (sw_store w) i = take (nat left) (script_data body)
      \<and> sw_hashed w = st_data (sw_store w) i \<and> n = int (length (st_data (sw_store w) i))
      \<and> (n < left \<longrightarrow> st_data (sw_store w) i = script_data body \<and> script_end body = EOF)"
proof -
  note f = stage_copy_frame [OF assms(1)]
  have 0: "st_data (sw_store (fresh_writer s i)) (sw_inode (fresh_writer s i)) = []"
    using assms(2) by (simp add: fresh_writer_def)
  show "only_data i s (sw_store w)"
    using f by blast
  show "\<exists>q. take (nat left) (script_data body) = st_data (sw_store w) i @ q"
    using stage_sink.copy_accepts_prefix [OF assms(1) limited_buffer_pos] f 0 by auto
  assume err: "err = None"
  note c = stage_sink.copy_success [OF assms(1) [unfolded err] limited_buffer_pos]
  from c f 0 have data: "st_data (sw_store w) i = take (nat left) (script_data body)"
    and n: "n = int (length (take (nat left) (script_data body)))"
    by auto
  show "st_data (sw_store w) i = take (nat left) (script_data body)
      \<and> sw_hashed w = st_data (sw_store w) i \<and> n = int (length (st_data (sw_store w) i))
      \<and> (n < left \<longrightarrow> st_data (sw_store w) i = script_data body \<and> script_end body = EOF)"
    using stage_copy_hashed [OF assms(1) [unfolded err] assms(2)] f data n c
    by (auto simp: exhausted_def split: if_splits)
qed


lemma stage_copy_length:
  assumes "copy_loop (stage_Write k) (limited_buffer left) (io_LimitReader (plain_reader body) left)
      (fresh_writer s i) 0 = (n, err, r', w)"
    and "st_data s i = []" "0 \<le> left"
  shows "int (length (st_data (sw_store w) i)) \<le> left"
proof -
  obtain q where q: "take (nat left) (script_data body) = st_data (sw_store w) i @ q"
    using stage_copy(2) [OF assms(1,2)] by blast
  have "length (take (nat left) (script_data body)) \<le> nat left"
    by simp
  then show ?thesis
    unfolding q using assms(3) by simp
qed

section \<open>The outcomes of publication\<close>

text \<open>A body worth publishing: it ends properly, fits, has the announced length and the digest.\<close>

definition acceptable :: "script \<Rightarrow> int \<Rightarrow> gostring \<Rightarrow> int \<Rightarrow> bool" where
  "acceptable body contentLength expectedSHA256 maximumBytes \<longleftrightarrow>
     script_end body = EOF \<and> int (length (script_data body)) \<le> maximumBytes
     \<and> (0 \<le> contentLength \<longrightarrow> int (length (script_data body)) = contentLength)
     \<and> hex_EncodeToString (sha256 (script_data body)) = expectedSHA256"

definition bounded :: "int \<Rightarrow> bool" where
  "bounded maximumBytes \<longleftrightarrow> 0 < maximumBytes \<and> maximumBytes < max_int64"

lemma bounded_wrap: "bounded m \<Longrightarrow> wrap64 (m + 1) = m + 1"
  by (simp add: bounded_def max_int64_def wrap64_id in_int64_def)

text \<open>The store with the state of inode \<open>i\<close> set.\<close>

definition set_inode :: "nat \<Rightarrow> bytes \<Rightarrow> bytes \<Rightarrow> int \<Rightarrow> store \<Rightarrow> store" where
  "set_inode i d y m s =
     s\<lparr>st_data := (st_data s)(i := d), st_synced := (st_synced s)(i := y),
       st_mode := (st_mode s)(i := m)\<rparr>"

lemma set_inode_sel [simp]:
  "st_names (set_inode i d y m s) = st_names s" "st_dirs (set_inode i d y m s) = st_dirs s"
  "st_synced_names (set_inode i d y m s) = st_synced_names s"
  "st_synced_dirs (set_inode i d y m s) = st_synced_dirs s"
  "st_data (set_inode i d y m s) = (st_data s)(i := d)"
  "st_synced (set_inode i d y m s) = (st_synced s)(i := y)"
  "st_mode (set_inode i d y m s) = (st_mode s)(i := m)"
  "st_next (set_inode i d y m s) = st_next s" "st_open (set_inode i d y m s) = st_open s"
  "st_open_dirs (set_inode i d y m s) = st_open_dirs s" "st_bodies (set_inode i d y m s) = st_bodies s"
  by (simp_all add: set_inode_def)

lemma set_inode_id: "s = set_inode i (st_data s i) (st_synced s i) (st_mode s i) s"
  by (simp add: set_inode_def)

lemma set_inode_twice [simp]: "set_inode i d y m (set_inode i d' y' m' s) = set_inode i d y m s"
  by (simp add: set_inode_def)

lemma file_Chmod_ok: "file_Chmod k i m s = (None, s') \<Longrightarrow> s' = set_inode i (st_data s i) (st_synced s i) m s"
  by (auto simp: file_Chmod_def set_inode_def split: option.splits)

lemma file_Chmod_failed: "file_Chmod k i m s = (Some e, s') \<Longrightarrow> s' = s"
  by (auto simp: file_Chmod_def split: option.splits)

lemma only_data_set_inode: "only_data i s s' \<longleftrightarrow> s' = set_inode i (st_data s' i) (st_synced s i) (st_mode s i) s"
  by (simp add: only_data_def set_inode_def)

lemma file_Sync_ok: "file_Sync k i s = (None, s') \<Longrightarrow> s' = set_inode i (st_data s i) (st_data s i) (st_mode s i) s"
  by (auto simp: file_Sync_def set_inode_def split: option.splits)

lemma file_Sync_failed: "file_Sync k i s = (Some e, s') \<Longrightarrow> s' = s"
  by (auto simp: file_Sync_def split: option.splits)

lemma os_Rename_failed: "os_Rename k old new s = (Some e, s') \<Longrightarrow> s' = s"
  by (auto simp: os_Rename_def split: option.splits if_splits)

lemma os_Rename_ok:
  "os_Rename k old new s = (None, s') \<Longrightarrow> st_names s old = Some i \<Longrightarrow>
   s' = s\<lparr>st_names := (st_names s)(old := None, new := Some i)\<rparr> \<and> st_dirs s new = None"
  by (auto simp: os_Rename_def split: option.splits if_splits)

lemma syncDirectory_store:
  assumes "syncDirectory k path s = (err, s')"
  shows "s' = s \<or> s' = dir_synced path s"
    and "err = None \<Longrightarrow> s' = dir_synced path s"
proof -
  have "s\<lparr>st_open_dirs := st_open_dirs s\<rparr> = s"
    by simp
  then have "(s' = s \<or> s' = dir_synced path s)
      \<and> (err = None \<longrightarrow> s' = dir_synced path s)"
    using assms
    by (auto simp: syncDirectory_def dir_Sync_def dir_synced_def Let_def split: option.splits)
  then show "s' = s \<or> s' = dir_synced path s"
    and "err = None \<Longrightarrow> s' = dir_synced path s"
    by blast+
qed


text \<open>
  How filling the partial file ends. It never holds more than one byte more than the maximum, and when
  filling succeeds, the body was acceptable, is complete in the partial file and on the disk.
\<close>

lemma fill_partial_cases:
  assumes run: "fill_partial k body contentLength destination expected maximum i s = (result, s')"
    and empty: "st_data s i = []" and m: "bounded maximum"
  obtains
    (failed) e d y mode where "result = Inl e" "s' = set_inode i d y mode s" "int (length d) \<le> maximum + 1"
  | (filled) v f where "result = Inr v" "acceptable body contentLength expected maximum"
      "s' = set_inode i (script_data body) (script_data body) stagedImageMode s"
      "verifyDescriptor (opened_file k i s') destination expected = (Inr v, f)"
proof -
  obtain ce s1 where ch: "file_Chmod k i stagedImageMode s = (ce, s1)"
    by fastforce
  show thesis
  proof (cases ce)
    case (Some e)
    with run ch show ?thesis
      using file_Chmod_failed [of k i stagedImageMode s e s1] set_inode_id [of s i] empty m
      by (intro failed [of _ "[]" "st_synced s i" "st_mode s i"]) (auto simp: fill_partial_def bounded_def)
  next
    case None
    then have s1: "s1 = set_inode i [] (st_synced s i) stagedImageMode s"
      using file_Chmod_ok ch empty by metis
    obtain written err r w where copy: "copy_loop (stage_Write k) (limited_buffer (maximum + 1))
        (io_LimitReader (plain_reader body) (maximum + 1)) (fresh_writer s1 i) 0 = (written, err, r, w)"
      by (metis prod_cases4)
    note C = stage_copy [OF copy]
    have w: "sw_store w = set_inode i (st_data (sw_store w) i) (st_synced s i) stagedImageMode s"
      and len: "int (length (st_data (sw_store w) i)) \<le> maximum + 1"
      using C(1) stage_copy_length [OF copy] m by (simp_all add: only_data_set_inode s1 bounded_def)
    note fp = fill_partial_def ch None copy [unfolded fresh_writer_def] bounded_wrap [OF m] Let_def
    obtain se s2 where sy: "file_Sync k i (sw_store w) = (se, s2)"
      by fastforce
    show ?thesis
    proof (cases "err = None \<and> written \<le> maximum \<and> (0 \<le> contentLength \<longrightarrow> written = contentLength)
        \<and> hex_EncodeToString (sha256 (sw_hashed w)) = expected \<and> se = None")
      case False
      then obtain e where "result = Inl e" "s' = sw_store w"
        using run sy file_Sync_failed [of k i "sw_store w"]
        by (cases err; cases se) (auto simp: fp split: if_splits)
      with w len show ?thesis
        by (intro failed) auto
    next
      case True
      then have body: "st_data (sw_store w) i = script_data body" "script_end body = EOF"
          "sw_hashed w = script_data body" "written = int (length (script_data body))"
        using C(3) by (auto simp: s1)
      have s2: "s2 = set_inode i (script_data body) (script_data body) stagedImageMode s"
        using file_Sync_ok [of k i "sw_store w" s2] sy True w body(1) by simp
      have "result = fst (verifyDescriptor (opened_file k i s2) destination expected)" "s' = s2"
        using run True sy by (auto simp: fp)
      then show ?thesis
        using failed [of _ "script_data body" "script_data body" stagedImageMode] filled s2 len body True
        by (cases result; cases "verifyDescriptor (opened_file k i s2) destination expected")
           (auto simp: acceptable_def)
    qed
  qed
qed

definition published :: "nat \<Rightarrow> bytes \<Rightarrow> gostring \<Rightarrow> gostring \<Rightarrow> store \<Rightarrow> store" where
  "published i d partialPath destination s =
     (set_inode i d d stagedImageMode s)
       \<lparr>st_names := (st_names s)(partialPath := None, destination := Some i)\<rparr>"

text \<open>Either the names are as before, or the destination is the name of the complete, synchronised file.\<close>

lemma publish_partial_cases:
  assumes run: "publish_partial k body contentLength directory destination expected maximum partialPath i s
      = (result, s')"
    and empty: "st_data s i = []" and m: "bounded maximum"
    and partialPath: "st_names s partialPath = Some i"
  obtains
    (unpublished) e d y mode where "result = Inl e" "s' = set_inode i d y mode s"
      "int (length d) \<le> maximum + 1"
  | (renamed) p e where "result = Inl e" "acceptable body contentLength expected maximum"
      "p = published i (script_data body) partialPath destination s"
      "s' = p \<or> s' = dir_synced directory p"
  | (synced) p v f where "result = Inr v" "acceptable body contentLength expected maximum"
      "p = published i (script_data body) partialPath destination s"
      "s' = dir_synced directory p"
      "verifyDescriptor (opened_file k i (set_inode i (script_data body) (script_data body)
         stagedImageMode s)) destination expected = (Inr v, f)"
proof -
  obtain fr s1 where fill: "fill_partial k body contentLength destination expected maximum i s = (fr, s1)"
    by fastforce
  from fill empty m show thesis
  proof (cases rule: fill_partial_cases)
    case (failed e d y mode)
    with run fill show ?thesis
      by (intro unpublished) (auto simp: publish_partial_def)
  next
    case (filled v f)
    obtain re s2 where rn: "os_Rename k partialPath destination s1 = (re, s2)"
      by fastforce
    show ?thesis
    proof (cases re)
      case (Some e)
      then have "s' = s1" "\<exists>e. result = Inl e"
        using run fill filled(1) rn os_Rename_failed [of k partialPath destination s1]
        by (auto simp: publish_partial_def)
      with filled(2,3) show ?thesis
        by (auto simp: acceptable_def intro: unpublished)
    next
      case None
      then have s2: "s2 = published i (script_data body) partialPath destination s"
        using os_Rename_ok [OF rn [unfolded None], of i] partialPath filled(3)
        by (simp add: published_def)
      obtain de s3 where sd: "syncDirectory k directory s2 = (de, s3)"
        by fastforce
      have "result = (case de of None \<Rightarrow> Inr v | Some e \<Rightarrow> Inl e)" "s' = s3"
        using run fill filled(1) rn None sd by (auto simp: publish_partial_def split: option.splits)
      with syncDirectory_store [OF sd] filled s2 show ?thesis
        by (cases de) (auto intro: renamed synced)
    qed
  qed
qed


section \<open>Directories and names\<close>

lemma same_dirs: "\<exists>D. s = s\<lparr>st_dirs := D\<rparr>"
  by (intro exI [of _ "st_dirs s"]) simp

lemma mkdir_each_store: "mkdir_each k perm ps s = (err, s') \<Longrightarrow> \<exists>D. s' = s\<lparr>st_dirs := D\<rparr>"
proof (induction k perm ps s arbitrary: err s' rule: mkdir_each.induct)
  case (2 k perm p ps s)
  obtain e s1 where m: "mkdir_each k perm ps s = (e, s1)"
    by fastforce
  show ?case
  proof (cases "st_dirs s p = None \<and> st_names s p = None")
    case True
    with 2(1) m obtain D where "s1 = s\<lparr>st_dirs := D\<rparr>"
      by auto
    with True 2(2) m show ?thesis
      by (auto split: option.splits)
  next
    case False
    with 2(2) show ?thesis
      using same_dirs by (auto split: if_splits)
  qed
qed (auto intro: same_dirs)

lemma os_MkdirAll_store: "os_MkdirAll k path perm s = (err, s') \<Longrightarrow> \<exists>D. s' = s\<lparr>st_dirs := D\<rparr>"
  unfolding os_MkdirAll_def by (rule mkdir_each_store)

text \<open>The store with a new, empty, open file.\<close>

definition with_file :: "gostring \<Rightarrow> store \<Rightarrow> store" where
  "with_file name s =
     (set_inode (st_next s) [] [] 384 s)
       \<lparr>st_names := (st_names s)(name \<mapsto> st_next s), st_next := Suc (st_next s), st_open := Suc (st_open s)\<rparr>"

lemma create_loop_result:
  assumes "create_loop k prefix suffix n left s = (result, s')"
  shows "(\<exists>e. result = Inl e \<and> s' = s)
    \<or> (\<exists>j. let name = prefix @ int_digits (int (a_random k j)) @ suffix
           in result = Inr (name, st_next s) \<and> \<not> os_exists s name \<and> s' = with_file name s)"
  using assms
proof (induction k prefix suffix n left s rule: create_loop.induct)
  case (2 k prefix suffix n left s)
  let ?name = "prefix @ int_digits (int (a_random k n)) @ suffix"
  show ?case
  proof (cases "os_exists s ?name")
    case True
    with 2 show ?thesis
      by (simp add: Let_def)
  next
    case False
    with 2 show ?thesis
      by (cases "a_create k ?name") (auto simp: Let_def with_file_def set_inode_def intro!: exI [of _ n])
  qed
qed auto

lemma prefixAndSuffix_partial:
  "prefixAndSuffix (''.'' @ b @ ''.partial-*'') =
     (if slash \<in> set b then Inl (Opaque ''pattern contains path separator'')
      else Inr (''.'' @ b @ ''.partial-'', ''''))"
  by (auto simp: prefixAndSuffix_def star_def)

lemma joinPath_slash: "\<exists>a. joinPath dir name = a @ slash # name"
proof (cases "dir \<noteq> '''' \<and> last dir = slash")
  case True
  then have "dir @ name = butlast dir @ slash # name"
    by (metis append_butlast_last_id append_Cons append_Nil append_assoc)
  with True show ?thesis
    by (auto simp: joinPath_def)
next
  case False
  then have "joinPath dir name = dir @ slash # name"
    unfolding joinPath_def by (rule if_not_P)
  then show ?thesis
    by blast
qed

lemma slash_not_digit: "slash \<notin> set (int_digits (int n))"
proof
  assume "slash \<in> set (int_digits (int n))"
  then have "decimal_digit slash"
    using pos_digits_decimal [of "int n"] by (simp add: int_digits_def)
  then show False
    by (simp add: decimal_digit_def)
qed

text \<open>A partial file is a new file beside the destination, with a name of its own.\<close>

lemma os_CreateTemp_partial:
  assumes "os_CreateTemp k dir (''.'' @ filepath_Base destination @ ''.partial-*'') s = (result, s')"
  shows "(\<exists>e. result = Inl e \<and> s' = s)
    \<or> (\<exists>name. result = Inr (name, st_next s) \<and> st_names s name = None \<and> name \<noteq> destination
        \<and> s' = with_file name s)"
proof (cases "slash \<in> set (filepath_Base destination)")
  case True
  with assms show ?thesis
    by (simp only: os_CreateTemp_def prefixAndSuffix_partial) auto
next
  case False
  let ?p = "''.'' @ filepath_Base destination @ ''.partial-''"
  from assms False have "create_loop k (joinPath dir ?p) '''' 0 10000 s = (result, s')"
    by (simp only: os_CreateTemp_def prefixAndSuffix_partial) simp
  from create_loop_result [OF this] consider "\<exists>e. result = Inl e \<and> s' = s"
    | j name where "name = joinPath dir ?p @ int_digits (int (a_random k j))"
      "result = Inr (name, st_next s)" "\<not> os_exists s name" "s' = with_file name s"
    by (auto simp: Let_def)
  then show ?thesis
  proof cases
    case 2
    obtain a where a: "name = a @ slash # ?p @ int_digits (int (a_random k j))"
      using joinPath_slash [of dir ?p] 2(1) by auto
    have "filepath_Base name = ?p @ int_digits (int (a_random k j))"
      unfolding a by (rule Base_append_slash) (use False slash_not_digit in auto)
    then have "length (filepath_Base destination) < length (filepath_Base name)"
      by simp
    then have "name \<noteq> destination"
      by blast
    with 2 show ?thesis
      by (auto simp: os_exists_def)
  qed simp
qed


section \<open>The outcomes of staging\<close>

text \<open>
  The store after one new inode: its content, what of it is on the disk, its mode, the names, the
  names and the directories on the disk, the directories and the number of open descriptors.
\<close>

definition staged ::
  "bytes \<Rightarrow> bytes \<Rightarrow> int \<Rightarrow> (gostring \<rightharpoonup> nat) \<Rightarrow> (gostring \<rightharpoonup> nat) \<times> (gostring \<Rightarrow> bool) \<Rightarrow> (gostring \<rightharpoonup> int) \<Rightarrow> nat
   \<Rightarrow> store \<Rightarrow> store" where
  "staged d y m N T D n s =
     (set_inode (st_next s) d y m s)
       \<lparr>st_dirs := D, st_names := N, st_next := Suc (st_next s), st_synced_names := fst T,
        st_synced_dirs := snd T, st_open := n\<rparr>"

abbreviation on_disk :: "store \<Rightarrow> (gostring \<rightharpoonup> nat) \<times> (gostring \<Rightarrow> bool)" where
  "on_disk s \<equiv> (st_synced_names s, st_synced_dirs s)"

text \<open>What is on the disk after the directory of the published name was synchronised.\<close>

abbreviation with_dir :: "gostring \<Rightarrow> (gostring \<rightharpoonup> nat) \<Rightarrow> (gostring \<rightharpoonup> int) \<Rightarrow> store
   \<Rightarrow> (gostring \<rightharpoonup> nat) \<times> (gostring \<Rightarrow> bool)" where
  "with_dir path N D s \<equiv> (dir_names path N (st_synced_names s), dir_dirs path D (st_synced_dirs s))"

lemma staged_sel [simp]:
  "st_names (staged d y m N T D n s) = N" "st_dirs (staged d y m N T D n s) = D"
  "st_synced_names (staged d y m N T D n s) = fst T" "st_synced_dirs (staged d y m N T D n s) = snd T"
  "st_data (staged d y m N T D n s) = (st_data s)(st_next s := d)"
  "st_synced (staged d y m N T D n s) = (st_synced s)(st_next s := y)"
  "st_mode (staged d y m N T D n s) = (st_mode s)(st_next s := m)"
  "st_next (staged d y m N T D n s) = Suc (st_next s)" "st_open (staged d y m N T D n s) = n"
  "st_open_dirs (staged d y m N T D n s) = st_open_dirs s" "st_bodies (staged d y m N T D n s) = st_bodies s"
  by (simp_all add: staged_def)

lemma set_inode_with_file:
  "set_inode (st_next s) d y m (with_file name (s\<lparr>st_dirs := D\<rparr>))
     = staged d y m ((st_names s)(name \<mapsto> st_next s)) (on_disk s) D (Suc (st_open s)) s"
  by (simp add: staged_def with_file_def set_inode_def)

lemma published_with_file:
  assumes "st_names s name = None" "name \<noteq> destination"
  shows "published (st_next s) d name destination (with_file name (s\<lparr>st_dirs := D\<rparr>))
     = staged d d stagedImageMode ((st_names s)(destination \<mapsto> st_next s)) (on_disk s) D
         (Suc (st_open s)) s"
proof -
  have "(st_names s)(name := None) = st_names s"
    using assms(1) by auto
  then show ?thesis
    using assms(2)
    by (simp add: published_def staged_def with_file_def set_inode_def fun_upd_twist)
qed

lemma dir_synced_staged:
  "dir_synced path (staged d y m N T D n s)
     = staged d y m N (dir_names path N (fst T), dir_dirs path D (snd T)) D n s"
  by (simp add: staged_def dir_synced_def set_inode_def)

lemma publish_cleanup_staged:
  "publish_cleanup k keepOpen name (staged d y m N T D n s) =
     staged d y m (if a_remove k = None then N(name := None) else N) T D (if keepOpen then n else n - 1) s"
proof -
  have "N name = None \<Longrightarrow> N(name := None) = N"
    by auto
  then show ?thesis
    by (auto simp: publish_cleanup_def os_Remove_def file_Close_def staged_def set_inode_def
        split: option.split)
qed

text \<open>Until the partial file exists only directories can have been made.\<close>

lemma publishResponse_created:
  assumes run: "publishResponse k body contentLength destination expected maximum s = (result, s')"
  obtains
    (untouched) e D where "result = Inl e" "s' = s\<lparr>st_dirs := D\<rparr>"
  | (created) name D s3 where "st_names s name = None" "name \<noteq> destination"
      "publish_partial k body contentLength (filepath_Dir destination) destination expected maximum
         name (st_next s) (with_file name (s\<lparr>st_dirs := D\<rparr>)) = (result, s3)"
      "s' = publish_cleanup k (\<not> isl result) name s3"
proof -
  let ?dir = "filepath_Dir destination"
  obtain me s1 where mk: "os_MkdirAll k ?dir destinationDirectoryMode s = (me, s1)"
    by fastforce
  then obtain D where s1: "s1 = s\<lparr>st_dirs := D\<rparr>"
    using os_MkdirAll_store by blast
  obtain tr s2 where ct: "os_CreateTemp k ?dir (''.'' @ filepath_Base destination @ ''.partial-*'') s1
      = (tr, s2)"
    by fastforce
  show thesis
  proof (cases "me = None \<and> \<not> isl tr")
    case False
    have "\<exists>e. result = Inl e \<and> s' = s1"
      using run mk ct False os_CreateTemp_partial [OF ct]
      by (cases me; cases tr) (auto simp: publishResponse_def Let_def)
    with s1 show ?thesis
      by (auto intro: untouched)
  next
    case True
    with os_CreateTemp_partial [OF ct] s1 obtain name where
      tr: "tr = Inr (name, st_next s)" "st_names s name = None" "name \<noteq> destination"
      and s2: "s2 = with_file name (s\<lparr>st_dirs := D\<rparr>)"
      by auto
    obtain r s3 where pp: "publish_partial k body contentLength ?dir destination expected maximum
        name (st_next s) s2 = (r, s3)"
      by fastforce
    then have "result = r" "s' = publish_cleanup k (\<not> isl r) name s3"
      using run mk True ct tr by (auto simp: publishResponse_def Let_def)
    with tr pp s2 show ?thesis
      by (intro created) simp_all
  qed
qed

lemma publishResponse_cases:
  assumes run: "publishResponse k body contentLength destination expected maximum s = (result, s')"
    and m: "bounded maximum"
  defines "directory \<equiv> filepath_Dir destination" and "N \<equiv> (st_names s)(destination \<mapsto> st_next s)"
  obtains
    (untouched) e D where "result = Inl e" "s' = s\<lparr>st_dirs := D\<rparr>"
  | (withdrawn) e d y mode D name where "result = Inl e" "st_names s name = None" "name \<noteq> destination"
      "int (length d) \<le> maximum + 1"
      "s' = staged d y mode (if a_remove k = None then st_names s else (st_names s)(name \<mapsto> st_next s))
              (on_disk s) D (st_open s) s"
  | (renamed) e D T where "result = Inl e" "acceptable body contentLength expected maximum"
      "T = on_disk s \<or> T = with_dir directory N D s"
      "s' = staged (script_data body) (script_data body) stagedImageMode N T D (st_open s) s"
  | (synced) v D f s1 where "result = Inr v" "acceptable body contentLength expected maximum"
      "s' = staged (script_data body) (script_data body) stagedImageMode N
              (with_dir directory N D s) D (Suc (st_open s)) s"
      "st_data s1 (st_next s) = script_data body"
      "verifyDescriptor (opened_file k (st_next s) s1) destination expected = (Inr v, f)"
proof -
  from run show thesis
  proof (cases rule: publishResponse_created)
    case (untouched e D)
    then show ?thesis
      by (rule that(1))
  next
    case (created name D s3)
    note tr = created(1,2) and fin = created(4) and pp = created(3) [folded directory_def]
    let ?s2 = "with_file name (s\<lparr>st_dirs := D\<rparr>)"
    have new: "st_data ?s2 (st_next s) = []" "st_names ?s2 name = Some (st_next s)"
      by (simp_all add: with_file_def)
    have N: "(if a_remove k = None then N(name := None) else N) = N"
      "((st_names s)(name \<mapsto> st_next s))(name := None) = st_names s"
      using tr by (auto simp: N_def)
    note pub = published_with_file [OF tr, folded N_def]
    from pp new(1) m new(2) show ?thesis
    proof (cases rule: publish_partial_cases)
      case (unpublished e d y mode)
      then have "s' = staged d y mode (if a_remove k = None then st_names s
          else (st_names s)(name \<mapsto> st_next s)) (on_disk s) D (st_open s) s"
        using fin N(2) by (simp add: set_inode_with_file publish_cleanup_staged)
      with unpublished(1,3) tr show ?thesis
        by (intro that(2) [of e name d y mode D]) simp_all
    next
      case (renamed p e)
      then have "s' = publish_cleanup k False name p
          \<or> s' = publish_cleanup k False name (dir_synced directory p)"
        using fin by auto
      then obtain T where "T = on_disk s \<or> T = with_dir directory N D s"
        "s' = staged (script_data body) (script_data body) stagedImageMode N T D (st_open s) s"
        using renamed(3) N(1) by (auto simp: pub dir_synced_staged publish_cleanup_staged)
      with renamed(1,2) show ?thesis
        by (intro that(3)) auto
    next
      case (synced p v f)
      then have "s' = staged (script_data body) (script_data body) stagedImageMode N
              (with_dir directory N D s) D (Suc (st_open s)) s"
        using fin N(1) by (simp add: pub dir_synced_staged publish_cleanup_staged)
      with synced show ?thesis
        by (intro that(4) [OF _ _ _ _ synced(5)]) auto
    qed
  qed
qed


section \<open>Staging as an atomic publication\<close>

text \<open>
  What a store shows: the content of each name, as a process sees it and as it would be found after a
  crash: the entry of the name must be on the disk, and those of all directories on the way to it. In a
  sound store every name refers to an inode in use.
\<close>

definition content :: "store \<Rightarrow> gostring \<rightharpoonup> bytes" where
  "content s name = map_option (st_data s) (st_names s name)"

definition dir_durable :: "store \<Rightarrow> gostring \<Rightarrow> bool" where
  "dir_durable s dir \<longleftrightarrow> list_all (\<lambda>p. p = ''/'' \<or> st_synced_dirs s p) (path_prefixes dir)"

definition durable :: "store \<Rightarrow> gostring \<rightharpoonup> bytes" where
  "durable s name =
     (if dir_durable s (filepath_Dir name) then map_option (st_synced s) (st_synced_names s name) else None)"

definition store_ok :: "store \<Rightarrow> bool" where
  "store_ok s \<longleftrightarrow>
     (\<forall>name i. st_names s name = Some i \<or> st_synced_names s name = Some i \<longrightarrow> i < st_next s)"

lemma content_simps [simp]:
  "content (s\<lparr>st_dirs := D\<rparr>) = content s" "content (s\<lparr>st_bodies := n\<rparr>) = content s"
  "durable (s\<lparr>st_dirs := D\<rparr>) = durable s" "durable (s\<lparr>st_bodies := n\<rparr>) = durable s"
  "store_ok (s\<lparr>st_dirs := D\<rparr>) = store_ok s" "store_ok (s\<lparr>st_bodies := n\<rparr>) = store_ok s"
  by (auto simp: content_def durable_def dir_durable_def store_ok_def fun_eq_iff)

lemma store_ok_less: "store_ok s \<Longrightarrow> st_names s name = Some i \<Longrightarrow> i \<noteq> st_next s"
  "store_ok s \<Longrightarrow> st_synced_names s name = Some i \<Longrightarrow> i \<noteq> st_next s"
  by (auto simp: store_ok_def)

lemma content_staged:
  assumes "store_ok s"
  shows "N = st_names s \<Longrightarrow> content (staged d y m N T D n s) = content s"
    and "N = (st_names s)(name \<mapsto> st_next s) \<Longrightarrow> content (staged d y m N T D n s) = (content s)(name \<mapsto> d)"
    and "T = on_disk s \<Longrightarrow> durable (staged d y m N T D n s) = durable s"
  using store_ok_less [OF assms]
  by (auto simp: content_def durable_def dir_durable_def fun_eq_iff map_option_case split: option.split)

lemma dir_durable_synced:
  "dir_durable s dir \<Longrightarrow> dir_durable (staged d y m N (with_dir path N D s) D n s) dir"
  by (auto simp: dir_durable_def dir_dirs_def list_all_iff)

text \<open>Once its directory is synchronised a name is durable, or its directory was not and is not.\<close>

lemma durable_staged:
  assumes "N name = Some (st_next s)" and t_def: "t = staged d y m N (with_dir (filepath_Dir name) N D s) D n s"
  shows "dir_durable s (filepath_Dir name) \<Longrightarrow> durable t name = Some y"
    and "durable t name = durable s name \<or> durable t name = Some y"
proof -
  have y: "durable t name = (if dir_durable t (filepath_Dir name) then Some y else None)"
    using assms(1) by (simp add: t_def durable_def dir_names_def)
  have "dir_durable s (filepath_Dir name) \<Longrightarrow> dir_durable t (filepath_Dir name)"
    unfolding t_def by (rule dir_durable_synced)
  then show "dir_durable s (filepath_Dir name) \<Longrightarrow> durable t name = Some y"
    unfolding y by simp
  then show "durable t name = durable s name \<or> durable t name = Some y"
    unfolding y by (auto simp: durable_def)
qed

lemma store_ok_staged:
  assumes "store_ok s" "N = st_names s \<or> N = (st_names s)(name \<mapsto> st_next s)"
    and "T = on_disk s \<or> T = with_dir path N D s"
  shows "store_ok (staged d y m N T D n s)"
  using assms unfolding store_ok_def dir_names_def
  by (fastforce split: if_splits simp: less_Suc_eq)

text \<open>How a call of \<^verbatim>\<open>Stage\<close> ends, with the response it worked on.\<close>

lemma validateStageInputs_Inr:
  assumes "validateStageInputs ctx client digest maximum = Inr (expected, cl)" "in_int64 maximum"
  shows "client = Some cl" "expected = digest" "bounded maximum"
proof -
  obtain c where c: "ctx = Some c"
    using assms(1) by (cases ctx) (auto simp: validateStageInputs_def)
  have "fst (ctx_Err c) = None"
    using assms(1) c by (cases "fst (ctx_Err c)") (auto simp: validateStageInputs_def)
  then show "client = Some cl" "expected = digest" "bounded maximum"
    using assms c
    by (auto simp: validateStageInputs_def bounded_def in_int64_def max_int64_def image_validateDigest_Inr
        split: option.splits if_splits sum.splits)
qed

lemma Stage_cases:
  assumes run: "Stage k net ctx client url destination digest maximum s = (result, s')"
    and max: "in_int64 maximum"
  obtains
    (refused) e where "result = Inl e" "s' = s"
  | (fetched) cl response s1 where "client = Some cl" "net_Do net cl url = Inr response" "bounded maximum"
      "validateResponse response maximum = None" "s' = s1\<lparr>st_bodies := st_bodies s\<rparr>"
      "publishResponse k (r_Body response) (r_ContentLength response) destination digest maximum
         (s\<lparr>st_bodies := Suc (st_bodies s)\<rparr>) = (result, s1)" "st_bodies s1 = Suc (st_bodies s)"
proof (cases "validateStageInputs ctx client digest maximum")
  case (Inl e)
  with run show thesis
    by (intro refused [of e]) (auto simp: Stage_def)
next
  case (Inr x)
  then obtain cl where v: "validateStageInputs ctx client digest maximum = Inr (digest, cl)"
    using validateStageInputs_Inr(2) [OF _ max] by (cases x) auto
  note in_ok = validateStageInputs_Inr [OF v max]
  obtain dr s0 where d: "download net cl url s = (dr, s0)"
    by fastforce
  show thesis
  proof (cases dr)
    case (Inl e)
    with run v d show ?thesis
      by (intro refused [of e]) (auto simp: Stage_def download_def split: option.splits sum.splits)
  next
    case (Inr response)
    then have get: "net_Do net cl url = Inr response" and s0: "s0 = s\<lparr>st_bodies := Suc (st_bodies s)\<rparr>"
      using d by (auto simp: download_def split: option.splits sum.splits)
    show ?thesis
    proof (cases "validateResponse response maximum")
      case (Some e)
      with run v d Inr s0 show ?thesis
        by (intro refused [of e]) (auto simp: Stage_def)
    next
      case None
      obtain r s1 where p: "publishResponse k (r_Body response) (r_ContentLength response) destination
          digest maximum s0 = (r, s1)"
        by fastforce
      then have b: "st_bodies s1 = Suc (st_bodies s)"
        using in_ok(3) by (cases rule: publishResponse_cases) (auto simp: s0)
      have "result = r" "s' = s1\<lparr>st_bodies := st_bodies s\<rparr>"
        using run v d Inr None p b by (auto simp: Stage_def)
      with fetched in_ok get None p b s0 show ?thesis
        by blast
    qed
  qed
qed


text \<open>
  The abstract operation: the content of all names stays as it is, or the one name gets, in one step,
  a content of at most the maximal size with the given digest. Only if files cannot be removed (\<open>stuck\<close>)
  may a third thing happen: a partial file, of at most one byte more than the maximal size, stays under a
  name that was not in use.
\<close>

inductive publication ::
  "bool \<Rightarrow> gostring \<Rightarrow> gostring \<Rightarrow> int \<Rightarrow> (gostring \<rightharpoonup> bytes) \<Rightarrow> (gostring \<rightharpoonup> bytes) \<Rightarrow> bool"
  for stuck destination digest maximum where
  kept: "publication stuck destination digest maximum m m"
| replaced: "hex_EncodeToString (sha256 d) = digest \<Longrightarrow> int (length d) \<le> maximum \<Longrightarrow>
    publication stuck destination digest maximum m (m(destination \<mapsto> d))"
| left_behind: "stuck \<Longrightarrow> m name = None \<Longrightarrow> name \<noteq> destination \<Longrightarrow> int (length d) \<le> maximum + 1 \<Longrightarrow>
    publication stuck destination digest maximum m (m(name \<mapsto> d))"

lemma publication_names:
  assumes "publication stuck destination digest maximum m m'" "m name = Some d"
  shows "\<exists>d'. m' name = Some d' \<and> (d' = d \<or> name = destination \<and> hex_EncodeToString (sha256 d') = digest)"
  using assms by (cases rule: publication.cases) auto

lemma Stage_content:
  assumes "Stage k net ctx client url destination digest maximum s = (result, s')"
    and "in_int64 maximum" "store_ok s"
  shows "store_ok s' \<and> publication (a_remove k \<noteq> None) destination digest maximum (content s) (content s')"
  using assms(1,2)
proof (cases rule: Stage_cases)
  case refused
  then show ?thesis
    using assms(3) by (simp add: kept)
next
  case (fetched cl response s1)
  let ?s = "s\<lparr>st_bodies := Suc (st_bodies s)\<rparr>"
  have ok: "store_ok ?s"
    using assms(3) by simp
  note sel = content_staged [OF ok]
  from fetched(6,3) show ?thesis
  proof (cases rule: publishResponse_cases)
    case (untouched e D)
    then show ?thesis
      using fetched(5) assms(3) by (simp add: kept)
  next
    case (withdrawn e d y mode D name)
    then have "content s name = None"
      by (simp add: content_def)
    then show ?thesis
      using withdrawn fetched(5) ok
      by (cases "a_remove k") (auto simp: sel kept intro: left_behind store_ok_staged)
  next
    case (renamed e D T)
    then show ?thesis
      using fetched(5) sel ok by (auto simp: acceptable_def intro: replaced store_ok_staged)
  next
    case (synced v D f s2)
    then show ?thesis
      using fetched(5) sel ok by (auto simp: acceptable_def intro: replaced store_ok_staged)
  qed
qed

text \<open>The destination on the disk, and what is left open.\<close>

lemma Stage_durable:
  assumes "Stage k net ctx client url destination digest maximum s = (result, s')"
    and "in_int64 maximum" "store_ok s"
  shows "(durable s' destination = durable s destination
       \<or> durable s' destination = content s' destination \<and> content s' destination \<noteq> None)
    \<and> st_open_dirs s' = st_open_dirs s \<and> st_bodies s' = st_bodies s
    \<and> st_open s' = st_open s + (if isl result then 0 else 1)"
  using assms(1,2)
proof (cases rule: Stage_cases)
  case (fetched cl response s1)
  let ?s = "s\<lparr>st_bodies := Suc (st_bodies s)\<rparr>"
  have ok: "store_ok ?s"
    using assms(3) by simp
  note sel = content_staged [OF ok]
  let ?N = "(st_names s)(destination \<mapsto> st_next s)"
  have pub: "durable (staged d d m ?N (with_dir (filepath_Dir destination) ?N D ?s) D n ?s) destination
      = durable ?s destination
    \<or> durable (staged d d m ?N (with_dir (filepath_Dir destination) ?N D ?s) D n ?s) destination = Some d" for d m D n
    using durable_staged(2) [OF _ refl, of ?N destination ?s d d m D n] by simp
  from fetched(6,3) show ?thesis
  proof (cases rule: publishResponse_cases)
    case (renamed e D T)
    then show ?thesis
      using fetched(5) pub by (elim disjE) (simp_all add: sel)
  next
    case (synced v D f s2)
    then show ?thesis
      using fetched(5) pub by (simp add: sel)
  qed (use fetched(5) in \<open>simp_all add: sel\<close>)
qed simp

text \<open>
  C8. Staging is atomic. Whatever the server sends and whatever call of the operating system fails,
  \<^verbatim>\<open>Stage\<close> either leaves the content of every name as it was or replaces the content of the destination,
  as a whole, by bytes of at most the maximal size whose SHA-256 is the expected digest. Only if the removal
  of the partial file fails may that file stay, under a name that was not in use, with every other
  name as it was. What a crash would leave of the destination is what it would have left before, or
  the complete new content; the store stays sound, and on an error no descriptor, directory or response
  body is left open.
\<close>

theorem Stage_atomic:
  assumes "Stage k net ctx client url destination digest maximum s = (result, s')"
    and "in_int64 maximum" "store_ok s"
  shows "publication (a_remove k \<noteq> None) destination digest maximum (content s) (content s')
    \<and> (durable s' destination = durable s destination
       \<or> durable s' destination = content s' destination \<and> content s' destination \<noteq> None)
    \<and> store_ok s' \<and> st_open_dirs s' = st_open_dirs s \<and> st_bodies s' = st_bodies s
    \<and> st_open s' = st_open s + (if isl result then 0 else 1)"
  using Stage_content [OF assms] Stage_durable [OF assms] by auto

text \<open>Any number of calls, each with its own kernel, network and arguments.\<close>

inductive stagings :: "(gostring \<times> gostring) list \<Rightarrow> store \<Rightarrow> store \<Rightarrow> bool" where
  stagings_none: "stagings [] s s"
| stagings_one: "stagings calls s t
    \<Longrightarrow> Stage k net ctx client url destination digest maximum t = (result, u) \<Longrightarrow> in_int64 maximum
    \<Longrightarrow> stagings (calls @ [(destination, digest)]) s u"

text \<open>
  C20. No sequence of stagings damages a file. After any number of calls of \<^verbatim>\<open>Stage\<close>, successful or not,
  on any kernels and networks, a name that had a content still has one: the same, or one whose SHA-256
  is a digest that was requested for that very name; it is never removed, truncated or half written.
\<close>

theorem stagings_integrity:
  assumes "stagings calls s t" "store_ok s" "content s name = Some d"
  shows "store_ok t \<and> (\<exists>d'. content t name = Some d'
    \<and> (d' = d \<or> (name, hex_EncodeToString (sha256 d')) \<in> set calls))"
  using assms
proof (induction rule: stagings.induct)
  case (stagings_one calls s t k net ctx client url destination digest maximum result u)
  then obtain d' where t: "store_ok t" "content t name = Some d'"
    "d' = d \<or> (name, hex_EncodeToString (sha256 d')) \<in> set calls"
    by blast
  have "store_ok u" "publication (a_remove k \<noteq> None) destination digest maximum (content t) (content u)"
    using Stage_content [OF stagings_one.hyps(2,3) t(1)] by blast+
  with publication_names [of _ _ _ _ _ _ name d'] t(2,3) show ?case
    by fastforce
qed auto

lemma opened_file_verified:
  assumes "verifyDescriptor (opened_file k i s) destination digest = (Inr v, f)"
  shows "v_Path v = destination" "v_SHA256 v = digest" "v_file v = Some f" "f_close f = a_close k"
  using verifyDescriptor_Inr(4,5) [OF assms] by (simp_all add: opened_file_def)

lemma Stage_descriptor:
  assumes "Stage k net ctx client url destination digest maximum s = (Inr v, s')" "in_int64 maximum"
  shows "\<exists>f. v_file v = Some f \<and> f_close f = a_close k"
  using assms
proof (cases rule: Stage_cases)
  case (fetched cl response s1)
  from fetched(6,3) show ?thesis
    by (cases rule: publishResponse_cases) (auto dest: opened_file_verified(3,4))
qed simp

text \<open>
  What a successful \<^verbatim>\<open>Stage\<close> has done: the server answered with a 2xx status and a body that ended
  properly, fits the limit, has the announced length if one was announced, and hashes to the digest;
  exactly the destination now has that content, with mode 0600; its bytes and its entry in its directory
  are on the disk, so that it would be found after a crash if its directory would have been before;
  and the returned value names the destination and the digest and holds one open descriptor.
\<close>

lemma Stage_success:
  assumes "Stage k net ctx client url destination digest maximum s = (Inr v, s')"
    and "in_int64 maximum" "store_ok s"
  shows "\<exists>cl response i. client = Some cl \<and> net_Do net cl url = Inr response
    \<and> 200 \<le> r_StatusCode response \<and> r_StatusCode response < 300
    \<and> acceptable (r_Body response) (r_ContentLength response) digest maximum
    \<and> content s' = (content s)(destination \<mapsto> script_data (r_Body response))
    \<and> st_names s' destination = Some i \<and> st_mode s' i = stagedImageMode
    \<and> st_synced_names s' destination = Some i \<and> st_synced s' i = script_data (r_Body response)
    \<and> (dir_durable s (filepath_Dir destination) \<longrightarrow> durable s' destination = Some (script_data (r_Body response)))
    \<and> v_Path v = destination \<and> v_SHA256 v = digest \<and> v_file v \<noteq> None"
  using assms(1,2)
proof (cases rule: Stage_cases)
  case (fetched cl response s1)
  let ?s = "s\<lparr>st_bodies := Suc (st_bodies s)\<rparr>"
  have status: "200 \<le> r_StatusCode response" "r_StatusCode response < 300"
    using fetched(4) by (auto simp: validateResponse_def split: if_splits)
  from fetched(6,3) show ?thesis
  proof (cases rule: publishResponse_cases)
    case (synced w D f s2)
    have "content s1 = (content ?s)(destination \<mapsto> script_data (r_Body response))"
      unfolding synced(3) using assms(3) by (subst content_staged(2)) auto
    moreover have "st_names s1 destination = Some (st_next s)" "st_mode s1 (st_next s) = stagedImageMode"
      "st_synced_names s1 destination = Some (st_next s)" "st_synced s1 (st_next s) = script_data (r_Body response)"
      unfolding synced(3) by (simp_all add: dir_names_def)
    moreover have "dir_durable ?s (filepath_Dir destination)
        \<Longrightarrow> durable s1 destination = Some (script_data (r_Body response))"
      by (rule durable_staged(1) [OF _ synced(3)]) simp_all
    then have "dir_durable s (filepath_Dir destination)
        \<Longrightarrow> durable s1 destination = Some (script_data (r_Body response))"
      by (simp add: dir_durable_def)
    ultimately show ?thesis
      using fetched(1,2,5) status synced(1,2) opened_file_verified [OF synced(5)]
      by (intro exI [of _ cl] exI [of _ response] exI [of _ "st_next s"]) simp
  qed simp_all
qed simp


section \<open>Staging on a kernel without faults\<close>

text \<open>No call fails, except perhaps those on the directory after the rename; reads return the content.\<close>

definition obedient :: "os_kernel \<Rightarrow> bool" where
  "obedient k \<longleftrightarrow>
     (\<forall>name. a_mkdir k name = None \<and> a_create k name = None) \<and> a_chmod k = None
     \<and> (\<forall>n p. a_write k n p = (int (length p), None)) \<and> a_fsync k = None
     \<and> (\<forall>n d. script_data (a_pass k n d) = d \<and> script_end (a_pass k n d) = EOF)
     \<and> (\<forall>n. a_seek k n = None \<and> a_stat k n = None) \<and> a_rename k = None"

interpretation stage_total: total_sink "stage_Write k" "\<lambda>w. st_data (sw_store w) (sw_inode w)"
  "\<lambda>w. \<forall>n p. a_write k n p = (int (length p), None)" for k
  by unfold_locales (simp_all add: stage_Write_def file_Write_def hasher_Write_def Let_def)

lemma mkdir_each_complete:
  assumes "obedient k" "\<forall>p \<in> set ps. st_names s p = None"
  shows "\<exists>D. mkdir_each k perm ps s = (None, s\<lparr>st_dirs := D\<rparr>) \<and> (\<forall>p. D p = st_dirs s p \<or> p \<in> set ps)"
  using assms(2)
proof (induction ps)
  case (Cons p ps)
  then obtain D where "mkdir_each k perm ps s = (None, s\<lparr>st_dirs := D\<rparr>)" "\<forall>q. D q = st_dirs s q \<or> q \<in> set ps"
    by auto
  with assms(1) Cons.prems show ?case
    using exI [of "\<lambda>E. s\<lparr>st_dirs := D(p \<mapsto> perm)\<rparr> = s\<lparr>st_dirs := E\<rparr> \<and> (\<forall>q. E q = st_dirs s q \<or> q = p \<or> q \<in> set ps)"
        "D(p \<mapsto> perm)"]
    by (cases "st_dirs s p") (auto simp: obedient_def intro: exI [of _ "st_dirs s"])
qed (auto intro!: exI [of _ "st_dirs s"])

lemma path_prefixes_length: "p \<in> set (path_prefixes dir) \<Longrightarrow> length p \<le> length dir"
  by (auto simp: path_prefixes_def)

lemma opened_file_content:
  "obedient k \<Longrightarrow> holds_content (opened_file k i s) (st_data s i)"
  by (simp add: obedient_def holds_content_def opened_file_def)

lemma stage_copy_complete:
  assumes "\<forall>n p. a_write k n p = (int (length p), None)" "script_end body = EOF"
    and "int (length (script_data body)) < left" "st_data s i = []"
  shows "\<exists>r w. copy_loop (stage_Write k) (limited_buffer left) (io_LimitReader (plain_reader body) left)
      (fresh_writer s i) 0 = (int (length (script_data body)), None, r, w)
    \<and> only_data i s (sw_store w) \<and> st_data (sw_store w) i = script_data body
    \<and> sw_hashed w = script_data body"
proof -
  have "steady (io_LimitReader (plain_reader body) left)"
    using assms(2) by (simp add: steady_def uncancelled_def io_LimitReader_def plain_reader_def)
  then obtain n r w where run: "copy_loop (stage_Write k) (limited_buffer left)
      (io_LimitReader (plain_reader body) left) (fresh_writer s i) 0 = (n, None, r, w)"
    using stage_total.copy_never_fails [OF limited_buffer_pos _ assms(1)] by blast
  note c = stage_copy [OF run assms(4)]
  have "st_data (sw_store w) i = script_data body"
    using c(3) assms(3) by simp
  with c run show ?thesis
    by auto
qed

lemma fill_partial_complete:
  assumes k: "obedient k" and m: "bounded maximum" and empty: "st_data s i = []"
    and acc: "acceptable body contentLength digest maximum"
  shows "\<exists>v. fill_partial k body contentLength destination digest maximum i s
    = (Inr v, set_inode i (script_data body) (script_data body) stagedImageMode s)"
proof -
  let ?d = "script_data body"
  let ?s1 = "set_inode i [] (st_synced s i) stagedImageMode s"
  let ?s2 = "set_inode i ?d ?d stagedImageMode s"
  have ch: "file_Chmod k i stagedImageMode s = (None, ?s1)"
    using k file_Chmod_ok [of k i stagedImageMode s] empty by (simp add: file_Chmod_def obedient_def)
  obtain r w where copy: "copy_loop (stage_Write k) (limited_buffer (maximum + 1))
      (io_LimitReader (plain_reader body) (maximum + 1)) (fresh_writer ?s1 i) 0 = (int (length ?d), None, r, w)"
    and w: "only_data i ?s1 (sw_store w)" "st_data (sw_store w) i = ?d" "sw_hashed w = ?d"
    using stage_copy_complete [of k body "maximum + 1" ?s1 i] k acc by (auto simp: obedient_def acceptable_def)
  have "sw_store w = set_inode i ?d (st_synced s i) stagedImageMode s"
    using w(1,2) by (simp add: only_data_set_inode)
  then have sy: "file_Sync k i (sw_store w) = (None, ?s2)"
    using k by (simp add: file_Sync_def obedient_def set_inode_def)
  obtain v f where "verifyDescriptor (opened_file k i ?s2) destination digest = (Inr v, f)"
    using verifyDescriptor_content [OF opened_file_content [OF k, of i ?s2], of destination] acc
    by (auto simp: acceptable_def)
  then show ?thesis
    using ch copy [unfolded fresh_writer_def] bounded_wrap [OF m] sy acc w(3)
    by (auto simp: fill_partial_def Let_def acceptable_def)
qed

text \<open>The j-th name that \<^verbatim>\<open>CreateTemp\<close> tries for a destination.\<close>

definition partial_name :: "os_kernel \<Rightarrow> gostring \<Rightarrow> nat \<Rightarrow> gostring" where
  "partial_name k destination j =
     joinPath (filepath_Dir destination) (''.'' @ filepath_Base destination @ ''.partial-'')
       @ int_digits (int (a_random k j))"

lemma partial_name_length: "length (filepath_Dir destination) < length (partial_name k destination j)"
  by (simp add: partial_name_def joinPath_def)

lemma create_loop_fresh:
  assumes "\<forall>name. a_create k name = None" "j < left"
    and "\<not> os_exists s (prefix @ int_digits (int (a_random k (n + j))) @ suffix)"
  shows "\<exists>name. create_loop k prefix suffix n left s = (Inr (name, st_next s), with_file name s)
    \<and> \<not> os_exists s name"
  using assms(2,3)
proof (induction left arbitrary: n j)
  case (Suc left)
  let ?name = "prefix @ int_digits (int (a_random k n)) @ suffix"
  show ?case
  proof (cases "os_exists s ?name")
    case True
    with Suc.prems obtain i where "j = Suc i"
      by (cases j) auto
    with Suc.IH [of i "Suc n"] Suc.prems True show ?thesis
      by (simp add: Let_def)
  next
    case False
    with assms(1) show ?thesis
      by (simp add: Let_def with_file_def set_inode_def)
  qed
qed simp

lemma os_CreateTemp_fresh:
  assumes "obedient k" "slash \<notin> set (filepath_Base destination)" "j < 10000"
    and "\<not> os_exists s (partial_name k destination j)"
  shows "\<exists>name. os_CreateTemp k (filepath_Dir destination) (''.'' @ filepath_Base destination @ ''.partial-*'') s
      = (Inr (name, st_next s), with_file name s) \<and> \<not> os_exists s name"
  using create_loop_fresh [of k j 10000 s _ 0 "[]"] assms
  by (simp add: os_CreateTemp_def prefixAndSuffix_partial obedient_def partial_name_def del: append.simps)

lemma syncDirectory_fails:
  "fst (syncDirectory k path s) = None \<longleftrightarrow> a_opendir k = None \<and> a_syncdir k = None \<and> a_closedir k = None"
  by (auto simp: syncDirectory_def dir_Sync_def Let_def split: option.splits)

text \<open>
  What staging needs of the store: the destination is a clean absolute path, below no file and not a
  directory itself, and one of the names tried for the partial file is free.
\<close>

definition stageable :: "os_kernel \<Rightarrow> gostring \<Rightarrow> store \<Rightarrow> bool" where
  "stageable k destination s \<longleftrightarrow>
     (\<exists>cs c. destination = abs_path (cs @ [c]) \<and> list_all ordinary (cs @ [c]))
     \<and> list_all (\<lambda>p. st_names s p = None) (path_prefixes (filepath_Dir destination))
     \<and> st_dirs s destination = None
     \<and> list_ex (\<lambda>j. \<not> os_exists s (partial_name k destination j)) [0..<10000]"

lemma stageable_created:
  assumes "obedient k" "stageable k destination s"
  obtains D name where
    "os_MkdirAll k (filepath_Dir destination) destinationDirectoryMode s = (None, s\<lparr>st_dirs := D\<rparr>)"
    "os_CreateTemp k (filepath_Dir destination) (''.'' @ filepath_Base destination @ ''.partial-*'')
       (s\<lparr>st_dirs := D\<rparr>) = (Inr (name, st_next s), with_file name (s\<lparr>st_dirs := D\<rparr>))"
    "st_names s name = None" "name \<noteq> destination" "D destination = None"
proof -
  let ?dir = "filepath_Dir destination"
  obtain cs c where dest: "destination = abs_path (cs @ [c])" and ord: "\<forall>x \<in> set (cs @ [c]). ordinary x"
    using assms(2) by (auto simp: stageable_def list_all_iff)
  have base: "filepath_Base destination = c" "?dir = abs_path cs"
    using ord unfolding dest by (auto intro!: Base_abs_path Dir_abs_path)
  have longer: "length ?dir < length destination"
    unfolding base(2) unfolding dest using ord abs_path_snoc [of c cs]
    by (auto simp: abs_path_def ordinary_def)
  obtain D where D: "os_MkdirAll k ?dir destinationDirectoryMode s = (None, s\<lparr>st_dirs := D\<rparr>)"
      "\<forall>p. D p = st_dirs s p \<or> p \<in> set (path_prefixes ?dir)"
    using mkdir_each_complete [OF assms(1), of "rev (path_prefixes ?dir)" s destinationDirectoryMode] assms(2)
    by (auto simp: os_MkdirAll_def stageable_def list_all_iff)
  obtain j where j: "j < 10000" "\<not> os_exists s (partial_name k destination j)"
    using assms(2) by (auto simp: stageable_def list_ex_iff)
  have "partial_name k destination j \<notin> set (path_prefixes ?dir)"
    using path_prefixes_length partial_name_length by (meson leD)
  with j(2) D(2) have "\<not> os_exists (s\<lparr>st_dirs := D\<rparr>) (partial_name k destination j)"
    by (metis os_exists_def store.select_convs(1,2) store.update_convs(1) store.surjective)
  moreover have "slash \<notin> set (filepath_Base destination)"
    using ord base(1) by (simp add: ordinary_def)
  ultimately obtain name where n: "os_CreateTemp k ?dir (''.'' @ filepath_Base destination @ ''.partial-*'')
       (s\<lparr>st_dirs := D\<rparr>) = (Inr (name, st_next s), with_file name (s\<lparr>st_dirs := D\<rparr>))"
    using os_CreateTemp_fresh [OF assms(1) _ j(1)] by fastforce
  have "destination \<notin> set (path_prefixes ?dir)" "st_dirs s destination = None"
    using path_prefixes_length longer assms(2) unfolding stageable_def by (meson leD)+
  with D(2) have "D destination = None"
    by metis
  with that D(1) n os_CreateTemp_partial [OF n] show thesis
    by simp
qed

lemma publishResponse_complete:
  assumes k: "obedient k" and m: "bounded maximum" and s: "stageable k destination s"
    and acc: "acceptable body contentLength digest maximum"
  shows "\<exists>r s'. publishResponse k body contentLength destination digest maximum s = (r, s')
    \<and> (isl r \<longleftrightarrow> \<not> (a_opendir k = None \<and> a_syncdir k = None \<and> a_closedir k = None))
    \<and> st_names s' = (st_names s)(destination \<mapsto> st_next s)
    \<and> st_data s' = (st_data s)(st_next s := script_data body)"
proof -
  obtain D name where mk: "os_MkdirAll k (filepath_Dir destination) destinationDirectoryMode s
      = (None, s\<lparr>st_dirs := D\<rparr>)"
    and ct: "os_CreateTemp k (filepath_Dir destination) (''.'' @ filepath_Base destination @ ''.partial-*'')
       (s\<lparr>st_dirs := D\<rparr>) = (Inr (name, st_next s), with_file name (s\<lparr>st_dirs := D\<rparr>))"
    and name: "st_names s name = None" "name \<noteq> destination" and free: "D destination = None"
    using stageable_created [OF k s] by blast
  let ?name = name and ?i = "st_next s" and ?d = "script_data body"
  let ?s1 = "with_file name (s\<lparr>st_dirs := D\<rparr>)"
  obtain v where fill: "fill_partial k body contentLength destination digest maximum ?i ?s1
      = (Inr v, set_inode ?i ?d ?d stagedImageMode ?s1)"
    using fill_partial_complete [OF k m _ acc] by (fastforce simp: with_file_def)
  have rename: "os_Rename k ?name destination (set_inode ?i ?d ?d stagedImageMode ?s1)
      = (None, published ?i ?d ?name destination ?s1)"
    using k free by (simp add: os_Rename_def obedient_def published_def with_file_def)
  obtain e s3 where sd: "syncDirectory k (filepath_Dir destination) (published ?i ?d ?name destination ?s1)
      = (e, s3)"
    by fastforce
  have se: "e = None \<longleftrightarrow> a_opendir k = None \<and> a_syncdir k = None \<and> a_closedir k = None"
    using syncDirectory_fails [of k "filepath_Dir destination" "published ?i ?d ?name destination ?s1"]
    unfolding sd by simp
  let ?s4 = "publish_cleanup k (e = None) ?name s3"
  have "publishResponse k body contentLength destination digest maximum s
      = (case e of None \<Rightarrow> Inr v | Some err \<Rightarrow> Inl err, ?s4)"
    using mk ct fill rename sd
    by (cases e) (auto simp: publishResponse_def publish_partial_def Let_def)
  moreover have "st_names ?s4 = (st_names s)(destination \<mapsto> ?i) \<and> st_data ?s4 = (st_data s)(?i := ?d)"
  proof -
    have "st_names s3 = (st_names s)(destination \<mapsto> ?i) \<and> st_data s3 = (st_data s)(?i := ?d)"
      using syncDirectory_store(1) [OF sd] published_with_file [OF name, of ?d D] by (auto simp: dir_synced_def)
    then show ?thesis
      using name by (simp add: publish_cleanup_def os_Remove_def file_Close_def)
  qed
  ultimately show ?thesis
    unfolding se [symmetric] by (cases e) simp_all
qed

text \<open>
  The same with any answers to the calls on the directory after the rename: the destination has been
  replaced when they are made.
\<close>

lemma Stage_replaces:
  assumes "obedient k" "in_int64 maximum" "store_ok s" "stageable k destination s"
    and "validateStageInputs (Some c) (Some cl) digest maximum = Inr (digest, cl)"
    and "net_NewRequest net url = None" "net_Do net cl url = Inr response"
    and "validateResponse response maximum = None"
    and "acceptable (r_Body response) (r_ContentLength response) digest maximum"
  shows "\<exists>r s'. Stage k net (Some c) (Some cl) url destination digest maximum s = (r, s')
    \<and> content s' = (content s)(destination \<mapsto> script_data (r_Body response))
    \<and> (isl r \<longleftrightarrow> \<not> (a_opendir k = None \<and> a_syncdir k = None \<and> a_closedir k = None))"
proof -
  let ?s = "s\<lparr>st_bodies := Suc (st_bodies s)\<rparr>"
  have m: "bounded maximum"
    using validateStageInputs_Inr(3) [OF assms(5,2)] .
  have "stageable k destination ?s"
    using assms(4) by (simp add: stageable_def os_exists_def)
  from publishResponse_complete [OF assms(1) m this assms(9)] obtain r s' where
    p: "publishResponse k (r_Body response) (r_ContentLength response) destination digest maximum ?s = (r, s')"
    and r: "isl r \<longleftrightarrow> \<not> (a_opendir k = None \<and> a_syncdir k = None \<and> a_closedir k = None)"
    and s': "st_names s' = (st_names s)(destination \<mapsto> st_next s)"
      "st_data s' = (st_data s)(st_next s := script_data (r_Body response))"
    by auto
  have "content s' = (content s)(destination \<mapsto> script_data (r_Body response))"
    using s' store_ok_less [OF assms(3)]
    by (auto simp: content_def fun_eq_iff map_option_case split: option.split)
  moreover have "Stage k net (Some c) (Some cl) url destination digest maximum s
      = (r, s'\<lparr>st_bodies := st_bodies s' - 1\<rparr>)"
    using assms(5-8) p by (simp add: Stage_def download_def)
  ultimately show ?thesis
    using r by simp
qed

text \<open>
  C21. A good download is published. On a kernel whose calls succeed, with a live context, a valid digest and
  limit, a destination that is a clean absolute path below no file and not a directory, one of the
  10000 names tried for the partial file free, and a 2xx response whose body ends properly, is
  within the limit, has the announced length and hashes to the digest, \<^verbatim>\<open>Stage\<close> makes the directories
  that are missing, returns a value, and the destination, and no other name, has the body as its content.
\<close>

theorem Stage_complete:
  assumes "obedient k" "a_opendir k = None" "a_syncdir k = None" "a_closedir k = None"
    and "in_int64 maximum" "store_ok s" "stageable k destination s"
    and "validateStageInputs (Some c) (Some cl) digest maximum = Inr (digest, cl)"
    and "net_NewRequest net url = None" "net_Do net cl url = Inr response"
    and "validateResponse response maximum = None"
    and "acceptable (r_Body response) (r_ContentLength response) digest maximum"
  shows "\<exists>v s'. Stage k net (Some c) (Some cl) url destination digest maximum s = (Inr v, s')
    \<and> content s' = (content s)(destination \<mapsto> script_data (r_Body response))"
  using Stage_replaces [OF assms(1,5-12)] assms(2-4) by (metis isl_def sum.exhaust_sel)



section \<open>A concrete download\<close>

text \<open>
  A kernel whose calls succeed (\<open>dir_err\<close> is the answer to synchronising the directory), a store with
  the directory \<^verbatim>\<open>/d\<close>, in which \<^verbatim>\<open>/d/i\<close> has the content \<^verbatim>\<open>old\<close>, and a server that sends \<^verbatim>\<open>new image\<close>.
\<close>

definition quiet_kernel :: "goerr option \<Rightarrow> os_kernel" where
  "quiet_kernel dir_err =
     \<lparr>a_mkdir = (\<lambda>_. None), a_random = (\<lambda>n. n + 7), a_create = (\<lambda>_. None), a_chmod = None,
      a_write = (\<lambda>n p. (int (length p), None)), a_fsync = None,
      a_pass = (\<lambda>n d. [Data (take 2 d), Data (drop 2 d)]), a_seek = (\<lambda>_. None), a_stat = (\<lambda>_. None),
      a_close = None, a_rename = None, a_remove = None, a_opendir = None, a_syncdir = dir_err,
      a_closedir = None\<rparr>"

definition example_store :: store where
  "example_store =
     \<lparr>st_dirs = [''/d'' \<mapsto> 493], st_names = [''/d/i'' \<mapsto> 0], st_data = (\<lambda>_. ''old''), st_mode = (\<lambda>_. 384),
      st_next = 1, st_synced = (\<lambda>_. ''old''), st_synced_names = [''/d/i'' \<mapsto> 0],
      st_synced_dirs = (\<lambda>d. d = ''/d''), st_open = 0, st_open_dirs = 0, st_bodies = 0\<rparr>"

definition example_response :: http_response where
  "example_response =
     \<lparr>r_StatusCode = 200, r_ContentLength = 9, r_Body = [Data ''new '', Data ''image'']\<rparr>"

definition example_network :: network where
  "example_network = \<lparr>net_NewRequest = (\<lambda>_. None), net_Do = (\<lambda>_ _. Inr example_response)\<rparr>"

definition example_client :: http_client where
  "example_client = \<lparr>c_Timeout = 1\<rparr>"

definition example_digest :: gostring where
  "example_digest = hex_EncodeToString (sha256 ''new image'')"

abbreviation example_stage :: "goerr option \<Rightarrow> verified res \<times> store" where
  "example_stage dir_err \<equiv>
     Stage (quiet_kernel dir_err) example_network (Some background) (Some example_client) ''http://h/i''
       ''/d/i'' example_digest 100 example_store"

lemma quiet_kernel_sel [simp]:
  "a_opendir (quiet_kernel e) = None" "a_syncdir (quiet_kernel e) = e" "a_closedir (quiet_kernel e) = None"
  "a_remove (quiet_kernel e) = None"
  by (simp_all add: quiet_kernel_def)

lemma example_store_sel [simp]:
  "st_dirs example_store = [''/d'' \<mapsto> 493]" "st_open example_store = 0"
  by (simp_all add: example_store_def)

lemma background_live [simp]: "ctx_left background = None"
  by (simp add: background_def)

lemma obedient_quiet [simp]: "obedient (quiet_kernel e)"
  by (simp add: obedient_def quiet_kernel_def)

lemma example_store_ok [simp]: "store_ok example_store"
  by (simp add: store_ok_def example_store_def)

lemma example_inputs:
  "validateStageInputs (Some background) (Some cl) example_digest 100 = Inr (example_digest, cl)"
proof -
  have "image_validateDigest example_digest = Inr example_digest"
    using hex_Encode_digest [of "sha256 ''new image''"]
    by (simp add: image_validateDigest_Inr example_digest_def)
  then show ?thesis
    by (simp add: validateStageInputs_def background_def ctx_Err_def max_int64_def)
qed

lemma example_acceptable:
  "acceptable (r_Body example_response) (r_ContentLength example_response) example_digest 100"
  by (simp add: acceptable_def example_response_def example_digest_def)

lemma example_paths:
  "filepath_Dir ''/d/i'' = ''/d''" "filepath_Base ''/d/i'' = ''i''" "path_prefixes ''/d'' = [''/d'']"
  by (code_simp, code_simp, code_simp)

lemma example_stageable: "stageable (quiet_kernel e) ''/d/i'' example_store"
proof -
  have "''/d/i'' = abs_path ([''d''] @ [''i''])" "list_all ordinary ([''d''] @ [''i''])"
    by (simp_all add: abs_path_def ordinary_def)
  moreover have "joinPath ''/d'' ''.i.partial-'' = ''/d/.i.partial-''"
    by code_simp
  then have "list_ex (\<lambda>j. \<not> os_exists example_store (partial_name (quiet_kernel e) ''/d/i'' j)) [0..<10000]"
    unfolding list_ex_iff
    by (intro bexI [of _ 0]) (simp_all add: os_exists_def partial_name_def example_paths example_store_def)
  moreover have "list_all (\<lambda>p. st_names example_store p = None) [''/d'']" "st_dirs example_store ''/d/i'' = None"
    by (simp_all add: example_store_def)
  ultimately show ?thesis
    unfolding stageable_def example_paths by blast
qed

lemma example_network_sel [simp]:
  "net_NewRequest example_network url = None" "net_Do example_network cl url = Inr example_response"
  "validateResponse example_response 100 = None" "script_data (r_Body example_response) = ''new image''"
  by (simp_all add: example_network_def validateResponse_def example_response_def)

theorem Stage_complete_witness:
  "\<exists>v s'. example_stage None = (Inr v, s') \<and> content s' = (content example_store)(''/d/i'' \<mapsto> ''new image'')"
  using Stage_complete [of "quiet_kernel None" 100 example_store "''/d/i''" background example_client
      example_digest example_network "''http://h/i''" example_response]
  by (simp add: example_stageable example_inputs example_acceptable in_int64_def)

lemma example_staged_by:
  "\<exists>v s'. Stage (quiet_kernel None) example_network (Some background) (Some cl) ''http://h/i'' ''/d/i''
      example_digest 100 example_store = (Inr v, s')"
  using Stage_replaces [of "quiet_kernel None" 100 example_store "''/d/i''" background cl
      example_digest example_network "''http://h/i''" example_response]
  by (simp add: example_stageable example_inputs example_acceptable in_int64_def) (metis isl_def sum.exhaust_sel)

lemmas example_staged = example_staged_by [of example_client]

theorem Stage_atomic_witness:
  "\<exists>r s'. example_stage None = (r, s') \<and> \<not> isl r
    \<and> publication False ''/d/i'' example_digest 100 (content example_store) (content s') \<and> st_open s' = 1"
proof -
  obtain v s' where run: "example_stage None = (Inr v, s')"
    using example_staged by blast
  from Stage_atomic [OF run] have
    "publication False ''/d/i'' example_digest 100 (content example_store) (content s') \<and> st_open s' = 1"
    by (simp add: in_int64_def)
  with run show ?thesis
    by auto
qed

theorem stagings_integrity_witness:
  "\<exists>s'. stagings [(''/d/i'', example_digest)] example_store s' \<and> store_ok s'
    \<and> content s' ''/d/i'' \<noteq> None"
proof -
  obtain v s' where run: "example_stage None = (Inr v, s')"
    using example_staged by blast
  have s: "stagings [(''/d/i'', example_digest)] example_store s'"
    using stagings_one [OF stagings_none run] by (simp add: in_int64_def)
  have "content example_store ''/d/i'' = Some ''old''"
    by (simp add: content_def example_store_def)
  from stagings_integrity [OF s example_store_ok this] s show ?thesis
    by blast
qed

end
