(* ===== verification/Go_Url.thy ===== *)
theory Go_Url
  imports Go_Text Go_Path Go_Error
begin

text \<open>
  \<^verbatim>\<open>url.ParseRequestURI\<close> of package net/url as far as the program uses its result: whether parsing
  succeeds, the scheme, whether there is userinfo, and the host. A bracketed host is an IP literal,
  decided by package net/netip; that decision is the argument \<open>ip_literal\<close>.
\<close>

section \<open>Character classes\<close>

definition is_alpha :: "char \<Rightarrow> bool" where
  "is_alpha c \<longleftrightarrow> CHR ''A'' \<le> c \<and> c \<le> CHR ''Z'' \<or> CHR ''a'' \<le> c \<and> c \<le> CHR ''z''"

definition is_digit :: "char \<Rightarrow> bool" where
  "is_digit c \<longleftrightarrow> CHR ''0'' \<le> c \<and> c \<le> CHR ''9''"

definition is_control :: "char \<Rightarrow> bool" where
  "is_control c \<longleftrightarrow> c < CHR '' '' \<or> c = CHR 0x7F"

text \<open>The bytes that may stand unescaped in a host.\<close>

definition host_char :: "char \<Rightarrow> bool" where
  "host_char c \<longleftrightarrow>
     is_alpha c \<or> is_digit c \<or> c \<ge> CHR 0x80
     \<or> c \<in> set [CHR ''!'', CHR ''$'', CHR ''&'', CHR 0x27, CHR ''('', CHR '')'', CHR ''*'', CHR ''+'',
                CHR '','', CHR '';'', CHR ''='', CHR '':'', CHR ''['', CHR '']'', CHR ''<'', CHR ''>'',
                CHR 0x22, CHR ''-'', CHR ''_'', CHR ''.'', CHR ''~'']"

definition userinfo_char :: "char \<Rightarrow> bool" where
  "userinfo_char c \<longleftrightarrow>
     is_alpha c \<or> is_digit c
     \<or> c \<in> set [CHR ''-'', CHR ''.'', CHR ''_'', CHR '':'', CHR ''~'', CHR ''!'', CHR ''$'', CHR ''&'',
                CHR 0x27, CHR ''('', CHR '')'', CHR ''*'', CHR ''+'', CHR '','', CHR '';'', CHR ''='',
                CHR ''%'', CHR ''@'']"

section \<open>Escapes\<close>

text \<open>
  Whether unescaping succeeds: two hexadecimal digits after every percent sign. In a host, moreover,
  only bytes from 0x80 on and the percent sign itself may be escaped, and other bytes must be allowed.
\<close>

fun unescape_ok :: "bool \<Rightarrow> gostring \<Rightarrow> bool" where
  "unescape_ok in_host [] = True"
| "unescape_ok in_host (c # cs) =
     (if c = CHR ''%''
      then (case cs of
              a # b # rest \<Rightarrow>
                (case (hex_value a, hex_value b) of
                   (Some x, Some y) \<Rightarrow>
                     (if in_host \<and> x < 8 \<and> \<not> (a = CHR ''2'' \<and> b = CHR ''5'') then False
                      else unescape_ok in_host rest)
                 | _ \<Rightarrow> False)
            | _ \<Rightarrow> False)
      else if in_host \<and> \<not> host_char c then False
      else unescape_ok in_host cs)"

section \<open>Parsing\<close>

text \<open>\<^verbatim>\<open>getScheme\<close>, with the bytes read so far: an error, or the scheme (empty if none) and the rest.\<close>

fun getScheme_from :: "gostring \<Rightarrow> gostring \<Rightarrow> (gostring \<times> gostring) res" where
  "getScheme_from raw [] = Inr ([], raw)"
| "getScheme_from raw (c # cs) =
     (let i = length raw - length (c # cs)
      in if is_alpha c then getScheme_from raw cs
         else if is_digit c \<or> c = CHR ''+'' \<or> c = CHR ''-'' \<or> c = CHR ''.''
         then (if i = 0 then Inr ([], raw) else getScheme_from raw cs)
         else if c = CHR '':''
         then (if i = 0 then Inl (Opaque ''missing protocol scheme'') else Inr (take i raw, cs))
         else Inr ([], raw))"

definition getScheme :: "gostring \<Rightarrow> (gostring \<times> gostring) res" where
  "getScheme raw = getScheme_from raw raw"

definition validOptionalPort :: "gostring \<Rightarrow> bool" where
  "validOptionalPort port = (case port of [] \<Rightarrow> True | c # cs \<Rightarrow> c = CHR '':'' \<and> list_all is_digit cs)"

text \<open>The host of an authority: a bracketed IP literal with an optional port, or a name with one.\<close>

definition parseHost :: "(gostring \<Rightarrow> goerr option) \<Rightarrow> gostring \<Rightarrow> gostring res" where
  "parseHost ip_literal host =
     (if CHR ''['' \<in> set host
      then (case ip_literal host of Some err \<Rightarrow> Inl err | None \<Rightarrow> Inr host)
      else if \<not> validOptionalPort (dropWhile (\<lambda>c. c \<noteq> CHR '':'') host)
      then Inl (Opaque ''invalid port after host'')
      else if \<not> unescape_ok True host then Inl (Opaque ''invalid URL escape'')
      else Inr host)"

text \<open>The part before the last \<^verbatim>\<open>@\<close> is userinfo.\<close>

definition parseAuthority :: "(gostring \<Rightarrow> goerr option) \<Rightarrow> gostring \<Rightarrow> (gostring option \<times> gostring) res" where
  "parseAuthority ip_literal authority =
     (if CHR ''@'' \<notin> set authority
      then (case parseHost ip_literal authority of Inl err \<Rightarrow> Inl err | Inr host \<Rightarrow> Inr (None, host))
      else let host = rev (takeWhile (\<lambda>c. c \<noteq> CHR ''@'') (rev authority));
               userinfo = rev (tl (dropWhile (\<lambda>c. c \<noteq> CHR ''@'') (rev authority)))
           in case parseHost ip_literal host of
                Inl err \<Rightarrow> Inl err
              | Inr h \<Rightarrow>
                  (if \<not> list_all userinfo_char userinfo then Inl (Opaque ''net/url: invalid userinfo'')
                   else if \<not> unescape_ok False userinfo then Inl (Opaque ''invalid URL escape'')
                   else Inr (Some userinfo, h)))"

text \<open>The fields of the result that the program reads; the userinfo and the host are kept escaped.\<close>

record parsed_url =
  u_Scheme :: gostring
  u_User :: "gostring option"
  u_Host :: gostring

definition without_query :: "gostring \<Rightarrow> gostring" where
  "without_query rest = takeWhile (\<lambda>c. c \<noteq> CHR ''?'') rest"

definition url_ParseRequestURI :: "(gostring \<Rightarrow> goerr option) \<Rightarrow> gostring \<Rightarrow> parsed_url res" where
  "url_ParseRequestURI ip_literal raw =
     (if list_ex is_control raw then Inl (Opaque ''net/url: invalid control character in URL'')
      else if raw = [] then Inl (Opaque ''empty url'')
      else if raw = ''*'' then Inr \<lparr>u_Scheme = [], u_User = None, u_Host = []\<rparr>
      else case getScheme raw of
        Inl err \<Rightarrow> Inl err
      | Inr (prefix, after) \<Rightarrow>
          (let scheme = strings_ToLower prefix; rest = without_query after
           in if \<not> strings_HasPrefix rest ''/''
              then (if scheme \<noteq> [] then Inr \<lparr>u_Scheme = scheme, u_User = None, u_Host = []\<rparr>
                    else Inl (Opaque ''invalid URI for request''))
              else if scheme \<noteq> [] \<and> strings_HasPrefix rest ''//''
              then (let authority = takeWhile (\<lambda>c. c \<noteq> slash) (drop 2 rest);
                        path = dropWhile (\<lambda>c. c \<noteq> slash) (drop 2 rest)
                    in case parseAuthority ip_literal authority of
                         Inl err \<Rightarrow> Inl err
                       | Inr (user, host) \<Rightarrow>
                           (if \<not> unescape_ok False path then Inl (Opaque ''invalid URL escape'')
                            else Inr \<lparr>u_Scheme = scheme, u_User = user, u_Host = host\<rparr>))
              else if \<not> unescape_ok False rest then Inl (Opaque ''invalid URL escape'')
              else Inr \<lparr>u_Scheme = scheme, u_User = None, u_Host = []\<rparr>))"

section \<open>What an accepted URL looks like\<close>

text \<open>A scheme that is found is followed by a colon, and nothing in it is a control character.\<close>

lemma getScheme_from_Inr:
  assumes "getScheme_from raw cs = Inr (p, after)" "raw = done_part @ cs" "p \<noteq> []"
  shows "raw = p @ CHR '':'' # after"
  using assms
proof (induction cs arbitrary: done_part)
  case (Cons c cs)
  show ?case
  proof (cases "is_alpha c \<or> (is_digit c \<or> c = CHR ''+'' \<or> c = CHR ''-'' \<or> c = CHR ''.'') \<and> done_part \<noteq> []")
    case True
    then have "getScheme_from raw cs = Inr (p, after)"
      using Cons.prems by (auto simp: Let_def split: if_splits)
    then show ?thesis
      using Cons.IH [of "done_part @ [c]"] Cons.prems by simp
  next
    case False
    then show ?thesis
      using Cons.prems by (auto simp: Let_def split: if_splits)
  qed
qed auto

text \<open>An accepted URL, in parts.\<close>

lemma parseAuthority_no_user:
  "parseAuthority ip authority = Inr (None, host) \<Longrightarrow> CHR ''@'' \<notin> set authority \<and> host = authority"
  by (auto simp: parseAuthority_def parseHost_def Let_def split: if_splits sum.splits option.splits)

lemma ParseRequestURI_host:
  assumes "url_ParseRequestURI ip raw = Inr u" "u_Host u \<noteq> []" "u_User u = None"
  shows "\<exists>scheme rest. raw = scheme @ ''://'' @ u_Host u @ rest \<and> strings_ToLower scheme = u_Scheme u
    \<and> scheme \<noteq> [] \<and> CHR ''@'' \<notin> set (u_Host u) \<and> slash \<notin> set (u_Host u) \<and> CHR ''?'' \<notin> set (u_Host u)
    \<and> (rest = [] \<or> hd rest = slash \<or> hd rest = CHR ''?'') \<and> \<not> list_ex is_control raw"
proof -
  obtain p after where g: "getScheme raw = Inr (p, after)"
    using assms(1,2) by (auto simp: url_ParseRequestURI_def split: if_splits sum.splits)
  let ?rest = "without_query after"
  let ?authority = "takeWhile (\<lambda>c. c \<noteq> slash) (drop 2 ?rest)"
  have ctl: "\<not> list_ex is_control raw" "raw \<noteq> []" "raw \<noteq> ''*''"
    using assms(1,2) by (auto simp: url_ParseRequestURI_def split: if_splits)
  have parts: "strings_ToLower p \<noteq> []" "strings_HasPrefix ?rest ''//''"
      "parseAuthority ip ?authority = Inr (u_User u, u_Host u)" "u_Scheme u = strings_ToLower p"
    using assms(1,2) g ctl
    by (auto simp: url_ParseRequestURI_def Let_def split: if_splits sum.splits prod.splits)
  then have p: "p \<noteq> []"
    by (auto simp: strings_ToLower_def)
  have raw: "raw = p @ CHR '':'' # after"
    using getScheme_from_Inr [of raw raw p after "[]"] g p by (simp add: getScheme_def)
  obtain r where r: "?rest = ''//'' @ r"
    using parts(2) HasPrefix_iff by blast
  then have host: "u_Host u = takeWhile (\<lambda>c. c \<noteq> slash) r" "CHR ''@'' \<notin> set (u_Host u)"
    using parseAuthority_no_user [OF parts(3) [unfolded assms(3)]] by simp_all
  let ?tail = "dropWhile (\<lambda>c. c \<noteq> slash) r @ dropWhile (\<lambda>c. c \<noteq> CHR ''?'') after"
  have "after = ''//'' @ r @ dropWhile (\<lambda>c. c \<noteq> CHR ''?'') after"
    using r takeWhile_dropWhile_id [of "\<lambda>c. c \<noteq> CHR ''?''" after] by (simp add: without_query_def)
  moreover have "r = u_Host u @ dropWhile (\<lambda>c. c \<noteq> slash) r"
    unfolding host(1) by simp
  ultimately have "raw = p @ ''://'' @ u_Host u @ ?tail"
    unfolding raw by (metis append.assoc append_Cons append_Nil)
  moreover have "CHR ''?'' \<notin> set ?rest"
    using set_takeWhileD by (fastforce simp: without_query_def)
  then have "CHR ''?'' \<notin> set (u_Host u)"
    unfolding host(1) using r set_takeWhileD by fastforce
  moreover have "slash \<notin> set (u_Host u)"
    unfolding host(1) using set_takeWhileD by fastforce
  moreover have "?tail = [] \<or> hd ?tail = slash \<or> hd ?tail = CHR ''?''"
    using hd_dropWhile [of "\<lambda>c. c \<noteq> slash" r] hd_dropWhile [of "\<lambda>c. c \<noteq> CHR ''?''" after]
    by (auto simp: hd_append)
  ultimately show ?thesis
    using p parts(4) host(2) ctl(1) by (intro exI [of _ p] exI [of _ ?tail] conjI) simp_all
qed

end
