(* ===== verification/Engine.thy ===== *)
theory Engine
  imports System_Run Stage Go_Url
begin

text \<open>
  diskforge.go and types.go: the public API. The engine validates a request, converts it to the internal
  types, calls the boundary or the stager and converts what comes back; errors pass through
  \<open>publicError\<close>. The world of the boundary and the store of the stager are passed explicitly.
\<close>

section \<open>types.go\<close>

record api_target =
  at_CanonicalPath :: gostring
  at_Serial :: gostring
  at_WWN :: gostring
  at_SizeBytes :: int
  at_KName :: gostring
  at_IsPartition :: bool
  at_Descendants :: "gostring list"

record api_image =
  ai_Path :: gostring
  ai_SHA256 :: gostring
  ai_Format :: gostring
  ai_CompressedBytes :: int
  ai_UncompressedBytes :: int

record api_inspection =
  an_Mode :: mode
  an_Target :: api_target
  an_Image :: api_image
  an_ConfirmationToken :: gostring

record inspect_request =
  ir_Mode :: mode
  ir_TargetPath :: gostring
  ir_ImagePath :: gostring
  ir_SHA256 :: gostring
  ir_ExpectedBytes :: int

record stage_request =
  sr_URL :: gostring
  sr_Destination :: gostring
  sr_SHA256 :: gostring
  sr_MaximumBytes :: int

text \<open>\<open>si_close\<close> is the method value \<^verbatim>\<open>verified.Close\<close>, kept as the value it is bound to.\<close>

record staged_image =
  si_Path :: gostring
  si_SHA256 :: gostring
  si_Format :: gostring
  si_CompressedBytes :: int
  si_close :: "verified option"

record write_request = inspect_request +
  wq_Confirmation :: gostring
  wq_Reboot :: bool
  wq_DryRun :: bool

record api_progress =
  ap_WrittenBytes :: int
  ap_ExpectedBytes :: int

record write_result =
  wr_WrittenBytes :: int
  wr_DryRun :: bool
  wr_Inspection :: api_inspection

text \<open>The zero value of \<^verbatim>\<open>Inspection\<close>.\<close>

definition zero_inspection :: api_inspection where
  "zero_inspection =
     \<lparr>an_Mode = '''',
      an_Target = \<lparr>at_CanonicalPath = '''', at_Serial = '''', at_WWN = '''', at_SizeBytes = 0,
                   at_KName = '''', at_IsPartition = False, at_Descendants = []\<rparr>,
      an_Image = \<lparr>ai_Path = '''', ai_SHA256 = '''', ai_Format = '''', ai_CompressedBytes = 0,
                  ai_UncompressedBytes = 0\<rparr>,
      an_ConfirmationToken = ''''\<rparr>"

section \<open>Construction\<close>

text \<open>\<open>e_progress\<close> says whether a progress callback is installed.\<close>

record ('w, 't) engine =
  e_client :: http_client
  e_system :: "('w, 't) boundary"
  e_progress :: bool

type_synonym ('w, 't) engine_option = "('w, 't) engine \<Rightarrow> ('w, 't) engine res"

text \<open>Six hours, in nanoseconds.\<close>

definition defaultHTTPTimeout :: int where
  "defaultHTTPTimeout = 6 * 3600 * 1000000000"

definition WithHTTPClient :: "http_client option \<Rightarrow> ('w, 't) engine_option" where
  "WithHTTPClient client engine =
     (case client of
        None \<Rightarrow> Inl (Errorf ''%w: HTTP client is nil'' [] (Sentinel ErrInvalidRequest))
      | Some c \<Rightarrow>
          (if c_Timeout c \<le> 0
           then Inl (Errorf ''%w: HTTP client timeout must be positive'' [] (Sentinel ErrInvalidRequest))
           else Inr (engine\<lparr>e_client := c\<rparr>)))"

definition WithProgress :: "bool \<Rightarrow> ('w, 't) engine_option" where
  "WithProgress callback engine = Inr (engine\<lparr>e_progress := callback\<rparr>)"

definition withBoundary :: "('w, 't) boundary option \<Rightarrow> ('w, 't) engine_option" where
  "withBoundary boundary engine =
     (case boundary of
        None \<Rightarrow> Inl (Errorf ''%w: Linux boundary is nil'' [] (Sentinel ErrInvalidRequest))
      | Some b \<Rightarrow> Inr (engine\<lparr>e_system := b\<rparr>))"

text \<open>The loop of \<^verbatim>\<open>New\<close> over the options; \<open>None\<close> is a nil option.\<close>

fun apply_options ::
  "nat \<Rightarrow> ('w, 't) engine_option option list \<Rightarrow> ('w, 't) engine \<Rightarrow> ('w, 't) engine res" where
  "apply_options index [] engine = Inr engine"
| "apply_options index (option # options) engine =
     (case option of
        None \<Rightarrow> Inl (Errorf ''%w: option %d is nil'' [FInt (int index)] (Sentinel ErrInvalidRequest))
      | Some apply_to \<Rightarrow>
          (case apply_to engine of
             Inl err \<Rightarrow> Inl (Errorf ''apply option %d: %w'' [FInt (int index)] err)
           | Inr engine' \<Rightarrow> apply_options (Suc index) options engine'))"

definition New :: "(world, device) engine_option option list \<Rightarrow> (world, device) engine res" where
  "New options =
     apply_options 0 options
       \<lparr>e_client = \<lparr>c_Timeout = defaultHTTPTimeout\<rparr>, e_system = DefaultSystem, e_progress = False\<rparr>"

section \<open>Validation\<close>

definition validateContext :: "goctx option \<Rightarrow> goctx res" where
  "validateContext ctx =
     (case ctx of
        None \<Rightarrow> Inl (Errorf ''%w: context is nil'' [] (Sentinel ErrInvalidRequest))
      | Some c \<Rightarrow> (case ctx_Err c of (Some err, c') \<Rightarrow> Inl err | (None, c') \<Rightarrow> Inr c'))"

definition validateMode :: "mode \<Rightarrow> goerr option" where
  "validateMode mode =
     (if mode \<noteq> ModeRescue \<and> mode \<noteq> ModeLive
      then Some (PublicGate GateInvalidMode ''unsupported write mode %q'' [FQuote mode] None)
      else None)"

definition validateTargetPath :: "gostring \<Rightarrow> goerr option" where
  "validateTargetPath path =
     (let cleaned = filepath_Clean path
      in if cleaned \<noteq> path \<or> \<not> filepath_IsAbs path \<or> filepath_Dir path \<noteq> ''/dev'' \<or> filepath_Base path = ''.''
         then Some (PublicGate GateInvalidTarget ''target must be a canonical /dev/<name> path'' [] None)
         else None)"

definition validateImagePath :: "gostring \<Rightarrow> goerr option" where
  "validateImagePath path =
     (if path = '''' \<or> \<not> filepath_IsAbs path \<or> filepath_Clean path \<noteq> path
      then Some (Errorf ''%w: image path must be canonical and absolute'' [] (Sentinel ErrInvalidRequest))
      else None)"

definition validateDigest :: "gostring \<Rightarrow> goerr option" where
  "validateDigest value =
     (if (case hex_DecodeString value of
            None \<Rightarrow> True
          | Some decoded \<Rightarrow>
              length decoded \<noteq> 32 \<or> length value \<noteq> 64 \<or> value \<noteq> strings_ToLower value)
      then Some (PublicGate GateInvalidDigest
                   ''SHA-256 digest must contain exactly 64 lowercase hexadecimal characters'' [] None)
      else None)"

definition validateInspectRequest :: "'a inspect_request_scheme \<Rightarrow> goerr option" where
  "validateInspectRequest request =
     (case validateMode (ir_Mode request) of
        Some err \<Rightarrow> Some err
      | None \<Rightarrow>
     (case validateTargetPath (ir_TargetPath request) of
        Some err \<Rightarrow> Some err
      | None \<Rightarrow>
     (case validateImagePath (ir_ImagePath request) of
        Some err \<Rightarrow> Some err
      | None \<Rightarrow>
     (case validateDigest (ir_SHA256 request) of
        Some err \<Rightarrow> Some err
      | None \<Rightarrow>
          (if ir_ExpectedBytes request \<le> 0
           then Some (PublicGate GateInvalidImageSize ''expected image size must be positive'' [] None)
           else None)))))"

definition validateStageRequest :: "(gostring \<Rightarrow> goerr option) \<Rightarrow> stage_request \<Rightarrow> goerr option" where
  "validateStageRequest ip_literal request =
     (if (case url_ParseRequestURI ip_literal (sr_URL request) of
            Inl err \<Rightarrow> True
          | Inr parsed \<Rightarrow>
              u_Host parsed = '''' \<or> u_User parsed \<noteq> None
              \<or> (u_Scheme parsed \<noteq> ''http'' \<and> u_Scheme parsed \<noteq> ''https''))
      then Some (Errorf ''%w: stage URL must be an absolute HTTP(S) URL without userinfo'' []
                   (Sentinel ErrInvalidRequest))
      else case validateImagePath (sr_Destination request) of
        Some err \<Rightarrow> Some err
      | None \<Rightarrow>
          (case validateDigest (sr_SHA256 request) of
             Some err \<Rightarrow> Some err
           | None \<Rightarrow>
               (if sr_MaximumBytes request \<le> 0 \<or> sr_MaximumBytes request = max_int64
                then Some (Errorf ''%w: maximum stage size must be positive and bounded'' []
                             (Sentinel ErrInvalidRequest))
                else None)))"

definition validateWriteRequest :: "write_request \<Rightarrow> goerr option" where
  "validateWriteRequest request =
     (case validateInspectRequest request of
        Some err \<Rightarrow> Some err
      | None \<Rightarrow>
          (if \<not> wq_DryRun request \<and> wq_Confirmation request = ''''
           then Some (PublicGate GateConfirmation ''confirmation token is required'' [] None)
           else if ir_Mode request = ModeRescue \<and> wq_Reboot request
           then Some (Errorf ''%w: reboot is valid only in live mode'' [] (Sentinel ErrInvalidRequest))
           else None))"

declare validateMode_def [validation_defs] validateTargetPath_def [validation_defs]
  validateImagePath_def [validation_defs] validateDigest_def [validation_defs]
  validateInspectRequest_def [validation_defs] validateWriteRequest_def [validation_defs]

section \<open>Conversions\<close>

definition linuxRequest :: "'a inspect_request_scheme \<Rightarrow> request" where
  "linuxRequest request =
     \<lparr>q_Mode = ir_Mode request, q_TargetPath = ir_TargetPath request, q_ImagePath = ir_ImagePath request,
      q_SHA256 = ir_SHA256 request, q_ExpectedBytes = ir_ExpectedBytes request, q_Confirmation = '''',
      q_Reboot = False\<rparr>"

definition linuxWriteRequest :: "write_request \<Rightarrow> request" where
  "linuxWriteRequest request =
     (linuxRequest request)\<lparr>q_Confirmation := wq_Confirmation request, q_Reboot := wq_Reboot request\<rparr>"

definition toPolicyTarget :: "api_target \<Rightarrow> target_identity" where
  "toPolicyTarget target =
     \<lparr>t_CanonicalPath = at_CanonicalPath target, t_Serial = at_Serial target, t_WWN = at_WWN target,
      t_SizeBytes = at_SizeBytes target, t_KName = at_KName target,
      t_IsPartition = at_IsPartition target, t_Descendants = at_Descendants target\<rparr>"

definition toPolicyImage :: "api_image \<Rightarrow> image_identity" where
  "toPolicyImage source =
     \<lparr>i_Path = ai_Path source, i_SHA256 = ai_SHA256 source, i_Format = ai_Format source,
      i_CompressedBytes = ai_CompressedBytes source, i_UncompressedBytes = ai_UncompressedBytes source\<rparr>"

definition fromPolicyTarget :: "target_identity \<Rightarrow> api_target" where
  "fromPolicyTarget target =
     \<lparr>at_CanonicalPath = t_CanonicalPath target, at_Serial = t_Serial target, at_WWN = t_WWN target,
      at_SizeBytes = t_SizeBytes target, at_KName = t_KName target,
      at_IsPartition = t_IsPartition target, at_Descendants = t_Descendants target\<rparr>"

definition fromPolicyImage :: "image_identity \<Rightarrow> api_image" where
  "fromPolicyImage source =
     \<lparr>ai_Path = i_Path source, ai_SHA256 = i_SHA256 source, ai_Format = i_Format source,
      ai_CompressedBytes = i_CompressedBytes source, ai_UncompressedBytes = i_UncompressedBytes source\<rparr>"

definition fromPolicyInspection :: "inspection \<Rightarrow> api_inspection" where
  "fromPolicyInspection n =
     \<lparr>an_Mode = n_Mode n, an_Target = fromPolicyTarget (n_Target n), an_Image = fromPolicyImage (n_Image n),
      an_ConfirmationToken = n_ConfirmationToken n\<rparr>"

text \<open>The message of a wrapped gate is the wrapped error's text: the format \<^verbatim>\<open>%v\<close> of that error.\<close>

definition publicError :: "goerr \<Rightarrow> goerr" where
  "publicError err =
     (case errors_as_policy_gate err of
        Some (code, format, args) \<Rightarrow> PublicGate code format args (Some err)
      | None \<Rightarrow>
          (if errors_is err ErrInvalidDigest \<or> errors_is err ErrDigestMismatch
           then PublicGate GateInvalidDigest ''%v'' [FErr err] (Some err)
           else if errors_is err ErrSizeMismatch
           then PublicGate GateInvalidImageSize ''%v'' [FErr err] (Some err)
           else err))"

section \<open>Operations\<close>

definition Engine_ConfirmationToken :: "api_target \<Rightarrow> api_image \<Rightarrow> gostring res" where
  "Engine_ConfirmationToken target source =
     (case ConfirmationToken (toPolicyTarget target) (toPolicyImage source) of
        Inl err \<Rightarrow> Inl (publicError err)
      | Inr token \<Rightarrow> Inr token)"

definition StagedImage_Close ::
  "staged_image option \<Rightarrow> store \<Rightarrow> goerr option \<times> staged_image option \<times> store" where
  "StagedImage_Close simage s =
     (case simage of
        None \<Rightarrow> (None, None, s)
      | Some i \<Rightarrow>
          (case si_close i of
             None \<Rightarrow> (None, Some i, s)
           | Some v \<Rightarrow>
               (case Verified_Close (Some v) of
                  (err, v') \<Rightarrow>
                    (err, Some (i\<lparr>si_close := v'\<rparr>), if v_file v = None then s else file_Close s))))"

definition Engine_Inspect ::
  "('w, 't) engine \<Rightarrow> goctx option \<Rightarrow> inspect_request \<Rightarrow> 'w \<Rightarrow> api_inspection res \<times> 'w" where
  "Engine_Inspect engine ctx request w =
     (case validateContext ctx of
        Inl err \<Rightarrow> (Inl err, w)
      | Inr c \<Rightarrow>
          (case validateInspectRequest request of
             Some err \<Rightarrow> (Inl err, w)
           | None \<Rightarrow>
               (case b_Inspect (e_system engine) (Some c) (linuxRequest request) w of
                  (Inl err, w1) \<Rightarrow> (Inl (publicError err), w1)
                | (Inr inspection, w1) \<Rightarrow> (Inr (fromPolicyInspection inspection), w1))))"

definition Engine_Stage ::
  "(gostring \<Rightarrow> goerr option) \<Rightarrow> os_kernel \<Rightarrow> network \<Rightarrow> ('w, 't) engine \<Rightarrow> goctx option \<Rightarrow> stage_request
   \<Rightarrow> store \<Rightarrow> staged_image res \<times> store" where
  "Engine_Stage ip_literal k net engine ctx request s =
     (case validateContext ctx of
        Inl err \<Rightarrow> (Inl err, s)
      | Inr c \<Rightarrow>
          (case validateStageRequest ip_literal request of
             Some err \<Rightarrow> (Inl err, s)
           | None \<Rightarrow>
               (case Stage k net (Some c) (Some (e_client engine)) (sr_URL request) (sr_Destination request)
                       (sr_SHA256 request) (sr_MaximumBytes request) s of
                  (Inl err, s1) \<Rightarrow> (Inl (publicError err), s1)
                | (Inr verified, s1) \<Rightarrow>
                    (Inr \<lparr>si_Path = v_Path verified, si_SHA256 = v_SHA256 verified,
                          si_Format = v_Format verified,
                          si_CompressedBytes = v_CompressedBytes verified, si_close = Some verified\<rparr>,
                     s1))))"

text \<open>The callback passed down forwards both fields of every update to the installed callback.\<close>

definition progressCallback :: "progress list \<Rightarrow> api_progress list" where
  "progressCallback calls =
     map (\<lambda>p. \<lparr>ap_WrittenBytes = p_WrittenBytes p, ap_ExpectedBytes = p_ExpectedBytes p\<rparr>) calls"

definition Engine_Write ::
  "('w, 't) engine \<Rightarrow> goctx option \<Rightarrow> write_request \<Rightarrow> 'w
   \<Rightarrow> write_result res \<times> api_progress list \<times> 'w" where
  "Engine_Write engine ctx request w =
     (case validateContext ctx of
        Inl err \<Rightarrow> (Inl err, [], w)
      | Inr c \<Rightarrow>
          (case validateWriteRequest request of
             Some err \<Rightarrow> (Inl err, [], w)
           | None \<Rightarrow>
               (let internalRequest = linuxWriteRequest request
                in if wq_DryRun request
                   then (case Prepare (Some c) internalRequest (e_system engine) w of
                           (Inl err, w1) \<Rightarrow> (Inl (publicError err), [], w1)
                         | (Inr (inspection, verified), w1) \<Rightarrow>
                             (case b_CloseVerified (e_system engine) verified w1 of
                                (Some err, w2) \<Rightarrow>
                                  (Inl (Errorf ''close verified dry-run source: %w'' [] err), [], w2)
                              | (None, w2) \<Rightarrow>
                                  (Inr \<lparr>wr_WrittenBytes = 0, wr_DryRun = True,
                                        wr_Inspection = fromPolicyInspection inspection\<rparr>, [], w2)))
                   else (case Execute (Some c) internalRequest (e_system engine) (e_progress engine) w of
                           ((written, Some err), calls, w1) \<Rightarrow>
                             (Inl (publicError err), progressCallback calls, w1)
                         | ((written, None), calls, w1) \<Rightarrow>
                             (Inr \<lparr>wr_WrittenBytes = written, wr_DryRun = False,
                                   wr_Inspection = zero_inspection\<rparr>, progressCallback calls, w1)))))"


section \<open>What validation accepts\<close>

lemma validateDigest_None: "validateDigest s = None \<longleftrightarrow> digest_ok s"
proof -
  have "(case hex_DecodeString s of
        None \<Rightarrow> True
      | Some decoded \<Rightarrow> length decoded \<noteq> 32 \<or> length s \<noteq> 64 \<or> s \<noteq> strings_ToLower s)
     \<longleftrightarrow> \<not> digest_ok s"
    unfolding digest_ok_def digest_condition_iff [symmetric] by (auto split: option.split)
  then show ?thesis
    by (simp add: validateDigest_def)
qed

lemma validateImagePath_None:
  "validateImagePath p = None \<longleftrightarrow> (\<exists>cs. p = abs_path cs \<and> (\<forall>c \<in> set cs. ordinary c))"
  unfolding canonical_abs_iff [symmetric]
  by (auto simp: validateImagePath_def filepath_IsAbs_def)

text \<open>A target path is accepted exactly when it is \<^verbatim>\<open>/dev/\<close> followed by one ordinary component.\<close>

lemma target_path_accepted:
  "validateTargetPath path = None \<longleftrightarrow> (\<exists>name. path = ''/dev/'' @ name \<and> ordinary name)"
proof
  assume acc: "validateTargetPath path = None"
  then have "filepath_IsAbs path \<and> filepath_Clean path = path"
    by (auto simp: validateTargetPath_def Let_def split: if_splits)
  then obtain cs where cs: "path = abs_path cs" "\<forall>c \<in> set cs. ordinary c"
    unfolding canonical_abs_iff by blast
  have dir: "filepath_Dir path = abs_path [''dev'']"
    using acc by (auto simp: validateTargetPath_def Let_def abs_path_def split: if_splits)
  show "\<exists>name. path = ''/dev/'' @ name \<and> ordinary name"
  proof (cases cs rule: rev_cases)
    case Nil
    then show ?thesis
      using dir cs(1) by (simp add: Dir_root) (simp add: abs_path_def)
  next
    case (snoc as name)
    have "filepath_Dir path = abs_path as"
      unfolding cs(1) snoc using cs(2) snoc by (intro Dir_abs_path) auto
    then have "as = [''dev'']"
      using dir abs_path_inject [of as "[''dev'']"] cs(2) snoc by (auto simp: ordinary_def)
    then show ?thesis
      using cs snoc by (auto simp: abs_path_def)
  qed
next
  assume "\<exists>name. path = ''/dev/'' @ name \<and> ordinary name"
  then obtain name where name: "path = abs_path ([''dev''] @ [name])" "ordinary name"
    by (auto simp: abs_path_def)
  have dev: "\<forall>c \<in> set [''dev'', name]. ordinary c"
    using name(2) by (simp add: ordinary_def)
  then have "filepath_IsAbs path \<and> filepath_Clean path = path"
    unfolding canonical_abs_iff using name(1) by (intro exI [of _ "[''dev'', name]"]) simp
  moreover have "filepath_Dir path = abs_path [''dev'']"
    unfolding name(1) using dev by (intro Dir_abs_path) auto
  moreover have "filepath_Base path = name"
    unfolding name(1) using name(2) by (rule Base_abs_path)
  ultimately show "validateTargetPath path = None"
    using name(2) by (simp add: validateTargetPath_def Let_def abs_path_def ordinary_def)
qed

lemma inspect_request_accepted:
  "validateInspectRequest request = None \<longleftrightarrow>
     (ir_Mode request = ModeRescue \<or> ir_Mode request = ModeLive)
     \<and> (\<exists>name. ir_TargetPath request = ''/dev/'' @ name \<and> ordinary name)
     \<and> (\<exists>cs. ir_ImagePath request = abs_path cs \<and> (\<forall>c \<in> set cs. ordinary c))
     \<and> digest_ok (ir_SHA256 request) \<and> 0 < ir_ExpectedBytes request"
  unfolding target_path_accepted [symmetric] validateImagePath_None [symmetric] validateDigest_None [symmetric]
  by (auto simp: validateInspectRequest_def validateMode_def split: option.splits if_splits)

lemma write_request_accepted:
  "validateWriteRequest request = None \<longleftrightarrow>
     (ir_Mode request = ModeRescue \<and> \<not> wq_Reboot request \<or> ir_Mode request = ModeLive)
     \<and> (\<exists>name. ir_TargetPath request = ''/dev/'' @ name \<and> ordinary name)
     \<and> (\<exists>cs. ir_ImagePath request = abs_path cs \<and> (\<forall>c \<in> set cs. ordinary c))
     \<and> digest_ok (ir_SHA256 request) \<and> 0 < ir_ExpectedBytes request
     \<and> (wq_DryRun request \<or> wq_Confirmation request \<noteq> '''')"
proof -
  have "validateWriteRequest request = None \<longleftrightarrow> validateInspectRequest request = None
      \<and> (wq_DryRun request \<or> wq_Confirmation request \<noteq> '''')
      \<and> \<not> (ir_Mode request = ModeRescue \<and> wq_Reboot request)"
    by (auto simp: validateWriteRequest_def split: option.split)
  then show ?thesis
    unfolding inspect_request_accepted using modes_distinct by auto
qed

text \<open>
  A download is attempted only over HTTP or HTTPS from a named host, without credentials in the URL,
  into a canonical absolute path, with a well-formed digest and a positive bound below the largest
  64-bit value: the accepted URL is a scheme that reads \<^verbatim>\<open>http\<close> or \<^verbatim>\<open>https\<close> in any case, \<^verbatim>\<open>://\<close>, and a
  non-empty authority without \<^verbatim>\<open>@\<close>, up to the first slash or question mark, and has no control character.
\<close>

lemma stage_request_accepted:
  assumes "validateStageRequest ip request = None"
  shows "(\<exists>scheme authority rest. sr_URL request = scheme @ ''://'' @ authority @ rest
      \<and> strings_ToLower scheme \<in> {''http'', ''https''} \<and> authority \<noteq> [] \<and> CHR ''@'' \<notin> set authority
      \<and> slash \<notin> set authority \<and> CHR ''?'' \<notin> set authority
      \<and> (rest = [] \<or> hd rest = slash \<or> hd rest = CHR ''?'') \<and> \<not> list_ex is_control (sr_URL request))
    \<and> (\<exists>cs. sr_Destination request = abs_path cs \<and> (\<forall>c \<in> set cs. ordinary c))
    \<and> digest_ok (sr_SHA256 request)
    \<and> 0 < sr_MaximumBytes request \<and> sr_MaximumBytes request \<noteq> max_int64"
proof -
  obtain u where u: "url_ParseRequestURI ip (sr_URL request) = Inr u" "u_Host u \<noteq> []" "u_User u = None"
      "u_Scheme u = ''http'' \<or> u_Scheme u = ''https''"
    using assms by (auto simp: validateStageRequest_def split: if_splits sum.splits)
  have "validateImagePath (sr_Destination request) = None" "validateDigest (sr_SHA256 request) = None"
      "0 < sr_MaximumBytes request" "sr_MaximumBytes request \<noteq> max_int64"
    using assms by (auto simp: validateStageRequest_def split: if_splits option.splits)
  moreover obtain scheme rest where
      "sr_URL request = scheme @ ''://'' @ u_Host u @ rest" "strings_ToLower scheme = u_Scheme u"
      "CHR ''@'' \<notin> set (u_Host u)" "slash \<notin> set (u_Host u)" "CHR ''?'' \<notin> set (u_Host u)"
      "rest = [] \<or> hd rest = slash \<or> hd rest = CHR ''?''" "\<not> list_ex is_control (sr_URL request)"
    using ParseRequestURI_host [OF u(1-3)] by (elim exE conjE)
  ultimately show ?thesis
    unfolding validateImagePath_None validateDigest_None using u(2,4)
    by (intro conjI exI [of _ scheme] exI [of _ "u_Host u"] exI [of _ rest]) auto
qed

section \<open>Errors of the API\<close>

text \<open>
  C25. Translating an error loses nothing and invents nothing: a policy refusal keeps its code and its
  message, a digest or size failure of the image package gets the matching gate code, every other error
  is returned as it is; and whatever sentinel or policy gate could be found in the error can still be
  found in the translated one.
\<close>

theorem publicError_faithful:
  "map_option fst (errors_as_public_gate (publicError err)) =
     (case errors_as_policy_gate err of
        Some (code, _) \<Rightarrow> Some code
      | None \<Rightarrow>
          if errors_is err ErrInvalidDigest \<or> errors_is err ErrDigestMismatch then Some GateInvalidDigest
          else if errors_is err ErrSizeMismatch then Some GateInvalidImageSize
          else map_option fst (errors_as_public_gate err))
   \<and> errors_is (publicError err) s = errors_is err s
   \<and> errors_as_policy_gate (publicError err) = errors_as_policy_gate err"
  by (auto simp: publicError_def split: option.split prod.split)

section \<open>Operations that only look\<close>

text \<open>The program has done nothing to the host but look, and no target has been written.\<close>

definition untouched :: "world \<Rightarrow> world \<Rightarrow> bool" where
  "untouched w w' \<longleftrightarrow> w_kernel w' = w_kernel w \<and> w_effects w' = w_effects w \<and> w_targets w' = w_targets w"

lemma untouched_simps [simp]: "untouched w w" "untouched w (tick v) = untouched w v"
  by (simp_all add: untouched_def)

lemma untouched_trans: "untouched u v \<Longrightarrow> untouched v w \<Longrightarrow> untouched u w"
  by (simp add: untouched_def)

lemma untouched_Inspect: "System_Inspect observer ctx q w = (r, w') \<Longrightarrow> untouched w w'"
  by (auto simp: System_Inspect_def observeLive_def observe_eq Let_def
      split: sum.splits prod.splits if_splits)

lemma untouched_VerifyImage: "VerifyImage p d w = (r, w') \<Longrightarrow> untouched w w'"
  by (auto simp: VerifyImage_def split: sum.splits prod.splits)

lemma untouched_close: "close_verified v w = (r, w') \<Longrightarrow> untouched w w'"
  by (auto simp: close_verified_def untouched_def split: prod.splits)

lemma untouched_Prepare:
  assumes "Prepare ctx q (System observer) w = (r, w')"
  shows "untouched w w'"
proof -
  obtain i w1 where i: "System_Inspect observer ctx q w = (i, w1)"
    by fastforce
  obtain v w2 where v: "VerifyImage (q_ImagePath q) (q_SHA256 q) w1 = (v, w2)"
    by fastforce
  obtain x w3 where c: "close_verified (projr v) w2 = (x, w3)"
    by fastforce
  have "w' \<in> {w1, w2, w3}"
    using assms i v c by (cases i; cases v) (auto simp: Prepare_def split: if_splits)
  with untouched_Inspect [OF i] untouched_VerifyImage [OF v] untouched_close [OF c] show ?thesis
    using untouched_trans by blast
qed

lemma Engine_Write_dry_run:
  assumes "Engine_Write engine ctx request w = (result, calls, w')"
    and "e_system engine = System observer" "wq_DryRun request"
  shows "untouched w w' \<and> calls = []
    \<and> (\<forall>r. result = Inr r \<longrightarrow> wr_DryRun r \<and> wr_WrittenBytes r = 0
        \<and> (\<exists>c n. fst (System_Inspect observer c (linuxWriteRequest request) w) = Inr n
             \<and> wr_Inspection r = fromPolicyInspection n))"
proof (cases "(\<exists>c. validateContext ctx = Inr c) \<and> validateWriteRequest request = None")
  case False
  then show ?thesis
    using assms(1)
    by (cases "validateContext ctx"; cases "validateWriteRequest request") (auto simp: Engine_Write_def)
next
  case True
  then obtain c where c: "validateContext ctx = Inr c" "validateWriteRequest request = None"
    by blast
  let ?q = "linuxWriteRequest request"
  obtain p w1 where p: "Prepare (Some c) ?q (System observer) w = (p, w1)"
    by fastforce
  note u = untouched_Prepare [OF p]
  show ?thesis
  proof (cases p)
    case (Inl e)
    then show ?thesis
      using assms c p u by (auto simp: Engine_Write_def)
  next
    case (Inr nv)
    then obtain n v where nv: "p = Inr (n, v)"
      by (cases nv) auto
    obtain x w2 where x: "close_verified v w1 = (x, w2)"
      by fastforce
    have "fst (System_Inspect observer (Some c) ?q w) = Inr n"
      using p nv by (auto simp: Prepare_def split: sum.splits prod.splits if_splits)
    then show ?thesis
      using assms c p nv x untouched_trans [OF u untouched_close [OF x]]
      by (cases x) (auto simp: Engine_Write_def intro!: exI [of _ "Some c"] exI [of _ n])
  qed
qed

lemma Engine_Inspect_looks:
  assumes "Engine_Inspect engine ctx request w = (result, w')" "e_system engine = System observer"
  shows "untouched w w'"
  using assms
  by (auto simp: Engine_Inspect_def split: sum.splits option.splits prod.splits dest: untouched_Inspect)

section \<open>A token can be recomputed\<close>

lemma conversions [simp]:
  "toPolicyTarget (fromPolicyTarget t) = t" "fromPolicyTarget (toPolicyTarget a) = a"
  "toPolicyImage (fromPolicyImage i) = i" "fromPolicyImage (toPolicyImage b) = b"
  by (simp_all add: toPolicyTarget_def fromPolicyTarget_def toPolicyImage_def fromPolicyImage_def)

text \<open>
  C24. The public identities carry everything the confirmation binds: recomputing the token from the
  target and the image of a returned inspection, through the public types, gives the token of that
  inspection, which is bound to the requested path, image, digest and size.
\<close>

theorem inspection_token_roundtrip:
  assumes "Engine_Inspect engine ctx request w = (Inr n, w')" "e_system engine = System observer"
  shows "Engine_ConfirmationToken (an_Target n) (an_Image n) = Inr (an_ConfirmationToken n)
    \<and> an_Mode n = ir_Mode request \<and> ai_Path (an_Image n) = ir_ImagePath request
    \<and> ai_SHA256 (an_Image n) = ir_SHA256 request \<and> ai_UncompressedBytes (an_Image n) = ir_ExpectedBytes request"
proof -
  obtain c p where c: "System_Inspect observer (Some c) (linuxRequest request) w = (Inr p, w')"
    and n: "n = fromPolicyInspection p"
    using assms by (auto simp: Engine_Inspect_def split: sum.splits option.splits prod.splits)
  from c show ?thesis
  proof (cases rule: System_Inspect_Inr)
    case (1 t mounted swaps fs backing info host)
    note acc = Inspect_accepted [OF 1(12)]
    have "ConfirmationToken (n_Target p) (n_Image p) = Inr (n_ConfirmationToken p)"
      unfolding ConfirmationToken_Inr using acc by simp
    then show ?thesis
      using acc
      by (simp add: n fromPolicyInspection_def Engine_ConfirmationToken_def)
         (simp add: fromPolicyImage_def linuxRequest_def)
  qed
qed


section \<open>What a write delivers\<close>

text \<open>
  What a successful write through the public API has delivered, on the system: the request had a
  valid mode and a canonical \<^verbatim>\<open>/dev/\<close> path; its confirmation was the token of the target that was inspected
  for that path and of the requested image; the one target that was opened received, in order, exactly
  the expanded stream of the held source, of exactly the expected size, then was synchronised,
  data-synchronised, flushed and closed; the source's complete content, re-read immediately before,
  had the requested SHA-256; and the source was closed.
\<close>

lemma Engine_Write_delivers:
  assumes "Engine_Write engine ctx request w = (Inr r, calls, w')" "e_system engine = System observer"
    and "\<not> wq_DryRun request"
  shows "(ir_Mode request = ModeRescue \<and> \<not> wq_Reboot request \<or> ir_Mode request = ModeLive)
    \<and> (\<exists>name. ir_TargetPath request = ''/dev/'' @ name \<and> ordinary name)
    \<and> (ir_Mode request = ModeLive \<longrightarrow> wq_Reboot request)
    \<and> wr_WrittenBytes r = ir_ExpectedBytes request \<and> 0 < ir_ExpectedBytes request
    \<and> (\<exists>c n w1 f fd moment d' expanded ps.
        validateContext ctx = Inr c
        \<and> System_Inspect observer (Some c) (linuxWriteRequest request) w = (Inr n, w1)
        \<and> wq_Confirmation request = token_text (n_Target n) (n_Image n)
        \<and> t_CanonicalPath (n_Target n) = ir_TargetPath request
        \<and> k_open (w_kernel w) moment (ir_TargetPath request) (ir_Mode request = ModeRescue) = Inr fd
        \<and> w_targets w' = w_targets w @ [d']
        \<and> d_log d' = d_log (fd_device fd) @ map DevWrite ps @ [DevSync, DevFdatasync, DevFlush, DevClose]
        \<and> concat ps = script_data expanded \<and> int (length (concat ps)) = ir_ExpectedBytes request
        \<and> k_image (w_kernel w) (w_tick w1) (ir_ImagePath request) = Inr f
        \<and> hex_EncodeToString (sha256 (script_data (f_pass f (f_seeks f)))) = ir_SHA256 request
        \<and> hex_EncodeToString (sha256 (script_data (f_pass f (f_seeks f + 3)))) = ir_SHA256 request
        \<and> script_end (f_pass f (f_seeks f + 3)) = EOF
        \<and> expanded_stream (zstd_NewReader (w_kernel w)) (held_image f (ir_ImagePath request) (ir_SHA256 request))
            (f_pass f (f_seeks f + 4)) expanded
        \<and> w_sources w' = w_sources w @ [Some ((held_image f (ir_ImagePath request) (ir_SHA256 request))\<lparr>v_file := None\<rparr>)])"
proof -
  obtain c where c: "validateContext ctx = Inr c" and val: "validateWriteRequest request = None"
    using assms(1) by (auto simp: Engine_Write_def split: sum.splits option.splits)
  let ?q = "linuxWriteRequest request"
  have q: "q_Mode ?q = ir_Mode request" "q_TargetPath ?q = ir_TargetPath request"
      "q_SHA256 ?q = ir_SHA256 request" "q_ExpectedBytes ?q = ir_ExpectedBytes request"
      "q_ImagePath ?q = ir_ImagePath request" "q_Reboot ?q = wq_Reboot request" "q_Confirmation ?q = wq_Confirmation request"
    by (simp_all add: linuxWriteRequest_def linuxRequest_def)
  obtain written x calls' where run: "Execute (Some c) ?q (System observer) (e_progress engine) w
      = ((written, x), calls', w')"
    using assms c val by (auto simp: Engine_Write_def Let_def split: prod.splits option.splits)
  have ok: "x = None" "wr_WrittenBytes r = written"
    using assms c val run by (auto simp: Engine_Write_def Let_def split: option.splits)
  note D = Execute_delivers [OF run [unfolded ok(1)], unfolded q]
  have m: "written = ir_ExpectedBytes request"
    using D by (elim exE conjE)
  show ?thesis
    using write_request_accepted [THEN iffD1, OF val] ok(2) m D c
    by (intro conjI exI [of _ c]) (auto; fail | (elim exE conjE, intro exI conjI; assumption))+
qed



section \<open>A concrete request\<close>

definition example_engine :: "(world, device) engine" where
  "example_engine =
     \<lparr>e_client = \<lparr>c_Timeout = defaultHTTPTimeout\<rparr>, e_system = System example_observer, e_progress = False\<rparr>"

definition run_write :: "bool \<Rightarrow> write_request" where
  "run_write dry =
     \<lparr>ir_Mode = ModeRescue, ir_TargetPath = ''/dev/vdb'', ir_ImagePath = ''/run/image.raw'',
      ir_SHA256 = hex_EncodeToString (sha256 example_bytes), ir_ExpectedBytes = 4096,
      wq_Confirmation = token_text example_target run_image, wq_Reboot = False, wq_DryRun = dry\<rparr>"

lemma run_write_sel [simp]:
  "e_system example_engine = System example_observer" "e_progress example_engine = False"
  "linuxWriteRequest (run_write dry) = run_request" "wq_DryRun (run_write dry) = dry"
  by (simp_all add: example_engine_def run_write_def linuxWriteRequest_def linuxRequest_def run_request_def)

lemma run_write_valid [simp]:
  "validateWriteRequest (run_write dry) = None" "validateContext (Some background) = Inr background"
proof -
  have "ordinary ''vdb''" "\<forall>c \<in> set [''run'', ''image.raw'']. ordinary c"
    by (simp_all add: ordinary_def)
  moreover have "''/run/image.raw'' = abs_path [''run'', ''image.raw'']"
    by (simp add: abs_path_def)
  ultimately have "\<exists>name. ''/dev/vdb'' = ''/dev/'' @ name \<and> ordinary name"
      "\<exists>cs. ''/run/image.raw'' = abs_path cs \<and> (\<forall>c \<in> set cs. ordinary c)"
    by (intro exI [of _ "''vdb''"], simp, blast)
  then show "validateWriteRequest (run_write dry) = None"
    unfolding write_request_accepted using hex_Encode_digest [of "sha256 example_bytes"]
    by (simp add: run_write_def digest_ok_def token_text_def)
  show "validateContext (Some background) = Inr background"
    by (simp add: validateContext_def background_def ctx_Err_def)
qed


lemma run_dry:
  assumes "e_system engine = System example_observer"
  shows "\<exists>r w'. Engine_Write engine (Some background) (run_write True) example_world = (Inr r, [], w')"
proof -
  obtain v f where prep: "Prepare (Some background) run_request (System example_observer) example_world
      = (Inr (run_inspection ModeRescue, Some v), tick inspected_world)"
    and f: "v_file v = Some f" "f_close f = None"
    using run_Prepare by blast
  then obtain w2 where "close_verified (Some v) (tick inspected_world) = (None, w2)"
    by (simp add: close_verified_def Verified_Close_def)
  with prep assms show ?thesis
    by (simp add: Engine_Write_def)
qed



lemma System_Inspect_confirmation:
  "System_Inspect observer ctx (q\<lparr>q_Confirmation := x, q_Reboot := y\<rparr>) w = System_Inspect observer ctx q w"
proof -
  have same: "q_Mode (q\<lparr>q_Confirmation := x, q_Reboot := y\<rparr>) = q_Mode q"
    "q_TargetPath (q\<lparr>q_Confirmation := x, q_Reboot := y\<rparr>) = q_TargetPath q"
    "q_ImagePath (q\<lparr>q_Confirmation := x, q_Reboot := y\<rparr>) = q_ImagePath q"
    "q_SHA256 (q\<lparr>q_Confirmation := x, q_Reboot := y\<rparr>) = q_SHA256 q"
    "q_ExpectedBytes (q\<lparr>q_Confirmation := x, q_Reboot := y\<rparr>) = q_ExpectedBytes q"
    by simp_all
  show ?thesis
    unfolding System_Inspect_def same ..
qed

definition run_inspect :: inspect_request where
  "run_inspect =
     \<lparr>ir_Mode = ModeRescue, ir_TargetPath = ''/dev/vdb'', ir_ImagePath = ''/run/image.raw'',
      ir_SHA256 = hex_EncodeToString (sha256 example_bytes), ir_ExpectedBytes = 4096\<rparr>"

lemma run_Engine_Inspect:
  "Engine_Inspect example_engine (Some background) run_inspect example_world
     = (Inr (fromPolicyInspection (run_inspection ModeRescue)), inspected_world)"
proof -
  have "validateInspectRequest run_inspect = None"
    using run_write_valid(1) [of True] unfolding inspect_request_accepted write_request_accepted
    by (simp add: run_inspect_def run_write_def)
  moreover have "linuxRequest run_inspect = run_request\<lparr>q_Confirmation := '''', q_Reboot := False\<rparr>"
    by (simp add: linuxRequest_def run_inspect_def run_request_def)
  ultimately show ?thesis
    using run_Inspect [of "Some background"] by (simp add: Engine_Inspect_def System_Inspect_confirmation)
qed

theorem inspection_token_roundtrip_witness:
  "Engine_ConfirmationToken (fromPolicyTarget example_target) (fromPolicyImage run_image)
     = Inr (token_text example_target run_image)"
  using inspection_token_roundtrip [OF run_Engine_Inspect]
  by (simp add: fromPolicyInspection_def run_inspection_def)

end
