(* ===== verification/Go_Flag.thy ===== *)
theory Go_Flag
  imports Go_Text Go_Error
begin

text \<open>
  Package flag as the command uses it (\<^verbatim>\<open>ContinueOnError\<close>, usage text discarded): string, \<^verbatim>\<open>int64\<close> and
  boolean flags, \<^verbatim>\<open>-name\<close> and \<^verbatim>\<open>--name\<close> with the value after \<^verbatim>\<open>=\<close> or in the next argument; and the
  conversions of strconv behind them, \<^verbatim>\<open>ParseInt\<close> with base 0 and \<^verbatim>\<open>ParseBool\<close>.
\<close>

section \<open>strconv\<close>

definition err_syntax :: goerr where
  "err_syntax = Opaque ''parse error''"

definition err_range :: goerr where
  "err_range = Opaque ''value out of range''"

definition alnum_value :: "char \<Rightarrow> int option" where
  "alnum_value c =
     (if CHR ''0'' \<le> c \<and> c \<le> CHR ''9'' then Some (of_char c - 48)
      else if CHR ''a'' \<le> c \<and> c \<le> CHR ''z'' then Some (of_char c - 87)
      else if CHR ''A'' \<le> c \<and> c \<le> CHR ''Z'' then Some (of_char c - 55)
      else None)"

text \<open>The loop of \<^verbatim>\<open>ParseUint\<close>; underscores are skipped because the base was 0.\<close>

fun uint_loop :: "int \<Rightarrow> int \<Rightarrow> gostring \<Rightarrow> int res" where
  "uint_loop base n [] = Inr n"
| "uint_loop base n (c # cs) =
     (if c = CHR ''_'' then uint_loop base n cs
      else case alnum_value c of
             None \<Rightarrow> Inl err_syntax
           | Some d \<Rightarrow>
               (if base \<le> d then Inl err_syntax
                else if n * base + d > 18446744073709551615 then Inl err_range
                else uint_loop base (n * base + d) cs))"

text \<open>The base prefix: the base and the digits after it.\<close>

definition base_prefix :: "gostring \<Rightarrow> int \<times> gostring" where
  "base_prefix s =
     (if s \<noteq> [] \<and> hd s = CHR ''0''
      then (if length s \<ge> 3 \<and> ascii_lower (s ! 1) = CHR ''b'' then (2, drop 2 s)
            else if length s \<ge> 3 \<and> ascii_lower (s ! 1) = CHR ''o'' then (8, drop 2 s)
            else if length s \<ge> 3 \<and> ascii_lower (s ! 1) = CHR ''x'' then (16, drop 2 s)
            else (8, drop 1 s))
      else (10, s))"

text \<open>
  \<^verbatim>\<open>underscoreOK\<close> on a number without a sign: an underscore stands between digits, where a base prefix
  counts as a digit. The state is what came last: a digit, an underscore, or something else.
\<close>

datatype seen = SeenStart | SeenDigit | SeenUnderscore | SeenOther

fun underscore_loop :: "bool \<Rightarrow> seen \<Rightarrow> gostring \<Rightarrow> bool" where
  "underscore_loop hex saw [] = (saw \<noteq> SeenUnderscore)"
| "underscore_loop hex saw (c # cs) =
     (if CHR ''0'' \<le> c \<and> c \<le> CHR ''9'' \<or> hex \<and> CHR ''a'' \<le> ascii_lower c \<and> ascii_lower c \<le> CHR ''f''
      then underscore_loop hex SeenDigit cs
      else if c = CHR ''_'' then (if saw \<noteq> SeenDigit then False else underscore_loop hex SeenUnderscore cs)
      else if saw = SeenUnderscore then False
      else underscore_loop hex SeenOther cs)"

definition underscoreOK :: "gostring \<Rightarrow> bool" where
  "underscoreOK s =
     (if length s \<ge> 2 \<and> hd s = CHR ''0'' \<and> ascii_lower (s ! 1) \<in> set [CHR ''b'', CHR ''o'', CHR ''x'']
      then underscore_loop (ascii_lower (s ! 1) = CHR ''x'') SeenDigit (drop 2 s)
      else underscore_loop False SeenStart s)"

definition strconv_ParseUint0 :: "gostring \<Rightarrow> int res" where
  "strconv_ParseUint0 s =
     (if s = [] then Inl err_syntax
      else case base_prefix s of
             (base, digits) \<Rightarrow>
               (case uint_loop base 0 digits of
                  Inl err \<Rightarrow> Inl err
                | Inr n \<Rightarrow>
                    (if CHR ''_'' \<in> set digits \<and> \<not> underscoreOK s then Inl err_syntax else Inr n)))"

definition strconv_ParseInt0 :: "gostring \<Rightarrow> int res" where
  "strconv_ParseInt0 s =
     (if s = [] then Inl err_syntax
      else let neg = (hd s = CHR ''-'');
               digits = (if hd s = CHR ''+'' \<or> hd s = CHR ''-'' then tl s else s)
           in case strconv_ParseUint0 digits of
                Inl err \<Rightarrow> Inl err
              | Inr un \<Rightarrow>
                  (if \<not> neg \<and> un \<ge> 9223372036854775808 then Inl err_range
                   else if neg \<and> un > 9223372036854775808 then Inl err_range
                   else Inr (if neg then - un else un)))"

definition strconv_ParseBool :: "gostring \<Rightarrow> bool res" where
  "strconv_ParseBool s =
     (if s \<in> set [''1'', ''t'', ''T'', ''true'', ''TRUE'', ''True''] then Inr True
      else if s \<in> set [''0'', ''f'', ''F'', ''false'', ''FALSE'', ''False''] then Inr False
      else Inl err_syntax)"

section \<open>flag\<close>

datatype flag_value =
    VString gostring
  | VInt64 int
  | VBool bool

text \<open>The defined flags with their current values.\<close>

type_synonym flag_set = "gostring \<rightharpoonup> flag_value"

fun value_Set :: "flag_value \<Rightarrow> gostring \<Rightarrow> flag_value res" where
  "value_Set (VString _) s = Inr (VString s)"
| "value_Set (VInt64 _) s = (case strconv_ParseInt0 s of Inl err \<Rightarrow> Inl err | Inr n \<Rightarrow> Inr (VInt64 n))"
| "value_Set (VBool _) s = (case strconv_ParseBool s of Inl err \<Rightarrow> Inl err | Inr b \<Rightarrow> Inr (VBool b))"

fun is_bool_flag :: "flag_value \<Rightarrow> bool" where
  "is_bool_flag (VBool _) = True"
| "is_bool_flag _ = False"

abbreviation dash :: char where
  "dash \<equiv> CHR ''-''"

definition split_flag :: "gostring \<Rightarrow> gostring \<times> gostring option" where
  "split_flag name =
     (let rest = tl name
      in (hd name # takeWhile (\<lambda>c. c \<noteq> CHR ''='') rest,
          case dropWhile (\<lambda>c. c \<noteq> CHR ''='') rest of [] \<Rightarrow> None | _ # value \<Rightarrow> Some value))"

text \<open>
  \<^verbatim>\<open>FlagSet.Parse\<close>: the flags after parsing and the remaining arguments, or the error. The command uses
  only the text of such an error, so it is a message: a format and its arguments.
\<close>

type_synonym message = "gostring \<times> farg list"

fun flag_Parse :: "flag_set \<Rightarrow> gostring list \<Rightarrow> message + flag_set \<times> gostring list" where
  "flag_Parse fs [] = Inr (fs, [])"
| "flag_Parse fs (s # args) =
     (if length s < 2 \<or> hd s \<noteq> dash then Inr (fs, s # args)
      else if s = ''--'' then Inr (fs, args)
      else
        let name0 = drop (if s ! 1 = dash then 2 else 1) s
        in if hd name0 = dash \<or> hd name0 = CHR ''=''
           then Inl (''bad flag syntax: %s'', [FStr s])
           else
             let name = fst (split_flag name0); value = snd (split_flag name0)
             in case fs name of
                  None \<Rightarrow>
                    Inl (if name = ''help'' \<or> name = ''h'' then (''flag: help requested'', [])
                         else (''flag provided but not defined: -%s'', [FStr name]))
                | Some old \<Rightarrow>
                    (if is_bool_flag old
                     then (case value_Set old (case value of None \<Rightarrow> ''true'' | Some v \<Rightarrow> v) of
                             Inl err \<Rightarrow>
                               Inl (''invalid boolean value %q for -%s: %v'',
                                    [FQuote (case value of None \<Rightarrow> ''true'' | Some v \<Rightarrow> v), FStr name, FErr err])
                           | Inr new \<Rightarrow> flag_Parse (fs(name \<mapsto> new)) args)
                     else case value of
                            Some v \<Rightarrow>
                              (case value_Set old v of
                                 Inl err \<Rightarrow>
                                   Inl (''invalid value %q for flag -%s: %v'', [FQuote v, FStr name, FErr err])
                               | Inr new \<Rightarrow> flag_Parse (fs(name \<mapsto> new)) args)
                          | None \<Rightarrow>
                              (case args of
                                 [] \<Rightarrow> Inl (''flag needs an argument: -%s'', [FStr name])
                               | v # rest \<Rightarrow>
                                   (case value_Set old v of
                                      Inl err \<Rightarrow>
                                        Inl (''invalid value %q for flag -%s: %v'',
                                             [FQuote v, FStr name, FErr err])
                                    | Inr new \<Rightarrow> flag_Parse (fs(name \<mapsto> new)) rest))))"

declare flag_Parse.simps(2) [simp del]

section \<open>Numbers that are printed are parsed\<close>

lemma alnum_digit:
  assumes "digit_value c = Some d"
  shows "alnum_value c = Some d \<and> c \<noteq> CHR ''_'' \<and> 0 \<le> d \<and> d < 10"
proof -
  have "\<forall>c. case digit_value c of
      None \<Rightarrow> True | Some d \<Rightarrow> alnum_value c = Some d \<and> c \<noteq> CHR ''_'' \<and> 0 \<le> d \<and> d < 10"
    by code_simp
  from spec [OF this, of c] show ?thesis
    using assms by simp
qed

lemma digits_value_mono: "0 \<le> acc \<Longrightarrow> digits_value acc s = Some n \<Longrightarrow> acc \<le> n"
proof (induction s arbitrary: acc)
  case (Cons c cs)
  then obtain d where d: "digit_value c = Some d" "digits_value (10 * acc + d) cs = Some n"
    by (auto split: option.splits)
  have "10 * acc + d \<le> n"
    using Cons.IH [OF _ d(2)] Cons.prems(1) alnum_digit [OF d(1)] by simp
  then show ?case
    using Cons.prems(1) alnum_digit [OF d(1)] by simp
qed simp

lemma uint_loop_digits:
  "0 \<le> acc \<Longrightarrow> digits_value acc s = Some n \<Longrightarrow> n \<le> 18446744073709551615 \<Longrightarrow> uint_loop 10 acc s = Inr n"
proof (induction s arbitrary: acc)
  case (Cons c cs)
  then obtain d where d: "digit_value c = Some d" "digits_value (10 * acc + d) cs = Some n"
    by (auto split: option.splits)
  note a = alnum_digit [OF d(1)]
  have "10 * acc + d \<le> n"
    using digits_value_mono [OF _ d(2)] Cons.prems(1) a by simp
  then show ?case
    using Cons.IH [OF _ d(2)] Cons.prems a by (simp add: mult.commute)
qed simp

lemma pos_digits_head: "0 < n \<Longrightarrow> hd (pos_digits n) \<noteq> CHR ''0''"
proof (induction n rule: pos_digits.induct)
  case (1 n)
  show ?case
  proof (cases "n < 10")
    case True
    with "1.prems" have "digit_value (char_of (48 + n)) = Some n"
      by (intro digit_char(2)) simp_all
    then have "char_of (48 + n) \<noteq> CHR ''0''"
      using "1.prems" by (auto simp: digit_value_def)
    with True show ?thesis
      by (simp add: pos_digits.simps [of n])
  next
    case False
    then show ?thesis
      using 1 pos_digits_nonempty [of "n div 10"] by (simp add: pos_digits.simps [of n])
  qed
qed

lemma digit_sign: "decimal_digit c \<Longrightarrow> c \<noteq> CHR ''+'' \<and> c \<noteq> CHR ''-'' \<and> c \<noteq> CHR ''_''"
  by (auto simp: decimal_digit_def)

lemma ParseUint0_digits:
  assumes "0 \<le> n" "n \<le> 18446744073709551615"
  shows "strconv_ParseUint0 (pos_digits n) = Inr n"
proof (cases "n = 0")
  case True
  then have "pos_digits n = ''0''"
    by (simp add: pos_digits.simps [of 0]) code_simp
  then show ?thesis
    using True by (simp add: strconv_ParseUint0_def base_prefix_def)
next
  case False
  then have "base_prefix (pos_digits n) = (10, pos_digits n)"
    using assms(1) pos_digits_head [of n] by (simp add: base_prefix_def)
  moreover have "CHR ''_'' \<notin> set (pos_digits n)"
    using pos_digits_decimal [OF assms(1)] digit_sign by blast
  ultimately show ?thesis
    using uint_loop_digits [OF _ pos_digits_value [OF assms(1)] assms(2)] pos_digits_nonempty [of n]
    by (simp add: strconv_ParseUint0_def)
qed

lemma ParseInt0_int_digits:
  assumes "in_int64 n"
  shows "strconv_ParseInt0 (int_digits n) = Inr n"
proof (cases "n < 0")
  case True
  then show ?thesis
    using ParseUint0_digits [of "- n"] assms
    by (simp add: strconv_ParseInt0_def int_digits_def in_int64_def)
next
  case False
  have "decimal_digit (hd (pos_digits n))"
    using pos_digits_decimal [of n "hd (pos_digits n)"] pos_digits_nonempty [of n] False by simp
  then have "hd (pos_digits n) \<noteq> CHR ''+''" "hd (pos_digits n) \<noteq> CHR ''-''"
    using digit_sign by blast+
  then show ?thesis
    using False ParseUint0_digits [of n] assms pos_digits_nonempty [of n]
    by (simp add: strconv_ParseInt0_def int_digits_def in_int64_def)
qed

section \<open>Steps of the flag parser\<close>

text \<open>A name that can be written on the command line.\<close>

definition flag_name :: "gostring \<Rightarrow> bool" where
  "flag_name name \<longleftrightarrow> name \<noteq> [] \<and> hd name \<noteq> dash \<and> CHR ''='' \<notin> set name"

lemma split_flag_name: "flag_name name \<Longrightarrow> split_flag name = (name, None)"
  by (cases name) (auto simp: flag_name_def split_flag_def)

lemma split_flag_value: "flag_name name \<Longrightarrow> split_flag (name @ CHR ''='' # v) = (name, Some v)"
  by (cases name) (auto simp: flag_name_def split_flag_def)

lemma flag_Parse_next:
  assumes "flag_name name" "fs name = Some old" "\<not> is_bool_flag old" "value_Set old v = Inr new"
  shows "flag_Parse fs ((''--'' @ name) # v # rest) = flag_Parse (fs(name \<mapsto> new)) rest"
proof -
  obtain c cs where "name = c # cs" "c \<noteq> dash" "c \<noteq> CHR ''=''"
    using assms(1) by (cases name) (auto simp: flag_name_def)
  then show ?thesis
    using assms split_flag_name [OF assms(1)] by (simp add: flag_Parse.simps(2) Let_def)
qed

lemma flag_Parse_equals:
  assumes "flag_name name" "fs name = Some old" "value_Set old v = Inr new"
  shows "flag_Parse fs ((''--'' @ name @ CHR ''='' # v) # rest) = flag_Parse (fs(name \<mapsto> new)) rest"
proof -
  obtain c cs where "name = c # cs" "c \<noteq> dash" "c \<noteq> CHR ''=''"
    using assms(1) by (cases name) (auto simp: flag_name_def)
  then show ?thesis
    using assms split_flag_value [OF assms(1), of v] by (simp add: flag_Parse.simps(2) Let_def)
qed

end
