(* ===== verification/Cli.thy ===== *)
theory Cli
  imports Engine Go_Flag
begin

text \<open>
  cmd/diskforge/main.go and internal/version: the command. Its arguments go through package flag, the
  request to an engine, and what comes back to stdout, stderr and the exit code. A stream receives
  documents: the values handed to the JSON encoder, or the one line of plain text; their rendering by
  encoding/json is not modelled. \<open>out\<close> is the answer of the operating system to the one write to stdout;
  errors of writes to stderr are ignored by the program. The host \<open>'h\<close> is what an engine acts on.
\<close>

section \<open>internal/version\<close>

record version_info =
  vi_Version :: gostring
  vi_Commit :: gostring
  vi_BuildDate :: gostring
  vi_GoVersion :: gostring
  vi_OS :: gostring
  vi_Arch :: gostring

text \<open>The linker variables (\<^verbatim>\<open>dev\<close>, \<^verbatim>\<open>none\<close> and \<^verbatim>\<open>unknown\<close> unless a release sets them) and the platform.\<close>

record build =
  bd_version :: gostring
  bd_commit :: gostring
  bd_buildDate :: gostring
  bd_runtime_Version :: gostring
  bd_GOOS :: gostring
  bd_GOARCH :: gostring

definition Current :: "build \<Rightarrow> version_info" where
  "Current b =
     \<lparr>vi_Version = bd_version b, vi_Commit = bd_commit b, vi_BuildDate = bd_buildDate b,
      vi_GoVersion = bd_runtime_Version b, vi_OS = bd_GOOS b, vi_Arch = bd_GOARCH b\<rparr>"

section \<open>Documents and outcomes\<close>

definition exitSuccess :: int where
  "exitSuccess = 0"

definition exitOperational :: int where
  "exitOperational = 1"

definition exitUsage :: int where
  "exitUsage = 2"

definition exitGate :: int where
  "exitGate = 3"

definition exitCanceled :: int where
  "exitCanceled = 4"

lemmas exit_defs = exitSuccess_def exitOperational_def exitUsage_def exitGate_def exitCanceled_def

declare exit_defs [report_defs]

record errorDetail =
  ed_Kind :: gostring
  ed_Code :: gate_code
  ed_Message :: message

datatype document =
    DocInspection api_inspection
  | DocStaged staged_image
  | DocWrite write_result
  | DocVersion version_info
  | DocText gostring
  | DocProgress api_progress
  | DocError errorDetail

record 'h outcome =
  x_exit :: int
  x_stdout :: "document list"
  x_stderr :: "document list"
  x_host :: 'h

text \<open>\<^verbatim>\<open>err.Error()\<close>.\<close>

definition error_text :: "goerr \<Rightarrow> message" where
  "error_text err = (''%v'', [FErr err])"

section \<open>Reporting\<close>

definition usageError :: "message \<Rightarrow> 'h \<Rightarrow> 'h outcome" where
  "usageError message h =
     \<lparr>x_exit = exitUsage, x_stdout = [],
      x_stderr = [DocError \<lparr>ed_Kind = ''usage'', ed_Code = GateEmpty, ed_Message = message\<rparr>], x_host = h\<rparr>"

definition operationError :: "goerr \<Rightarrow> 'h \<Rightarrow> 'h outcome" where
  "operationError err h =
     \<lparr>x_exit = exitOperational, x_stdout = [],
      x_stderr = [DocError \<lparr>ed_Kind = ''operational'', ed_Code = GateEmpty, ed_Message = error_text err\<rparr>],
      x_host = h\<rparr>"

definition apiError :: "goerr \<Rightarrow> 'h \<Rightarrow> 'h outcome" where
  "apiError err h =
     (case errors_as_public_gate err of
        Some (code, format, args) \<Rightarrow>
          \<lparr>x_exit = exitGate, x_stdout = [],
           x_stderr = [DocError \<lparr>ed_Kind = ''gate'', ed_Code = code,
                                 ed_Message = error_text (PublicGate code format args None)\<rparr>],
           x_host = h\<rparr>
      | None \<Rightarrow>
          (if errors_is err ContextCanceled \<or> errors_is err ContextDeadlineExceeded
           then \<lparr>x_exit = exitCanceled, x_stdout = [],
                 x_stderr = [DocError \<lparr>ed_Kind = ''canceled'', ed_Code = GateEmpty,
                                       ed_Message = error_text err\<rparr>],
                 x_host = h\<rparr>
           else operationError err h))"

definition encodeResult :: "goerr option \<Rightarrow> document \<Rightarrow> 'h \<Rightarrow> 'h outcome" where
  "encodeResult out value h =
     (case out of
        Some err \<Rightarrow> operationError (Errorf ''encode result: %w'' [] err) h
      | None \<Rightarrow> \<lparr>x_exit = exitSuccess, x_stdout = [value], x_stderr = [], x_host = h\<rparr>)"

declare usageError_def [report_defs] operationError_def [report_defs] apiError_def [report_defs]
  encodeResult_def [report_defs]

section \<open>Flags\<close>

text \<open>The named flags with their defaults.\<close>

definition newCommonFlagSet :: flag_set where
  "newCommonFlagSet =
     [''mode'' \<mapsto> VString '''', ''target'' \<mapsto> VString '''', ''image'' \<mapsto> VString '''',
      ''sha256'' \<mapsto> VString '''', ''expected-bytes'' \<mapsto> VInt64 0]"

definition stage_flags :: flag_set where
  "stage_flags =
     [''url'' \<mapsto> VString '''', ''destination'' \<mapsto> VString '''', ''sha256'' \<mapsto> VString '''',
      ''maximum-bytes'' \<mapsto> VInt64 0]"

definition write_flags :: flag_set where
  "write_flags =
     newCommonFlagSet(''confirmation'' \<mapsto> VString '''', ''reboot'' \<mapsto> VBool False, ''dry-run'' \<mapsto> VBool False)"

definition version_flags :: flag_set where
  "version_flags = [''json'' \<mapsto> VBool False]"

definition flag_string :: "flag_set \<Rightarrow> gostring \<Rightarrow> gostring" where
  "flag_string fs name = (case fs name of Some (VString s) \<Rightarrow> s | _ \<Rightarrow> '''')"

definition flag_int :: "flag_set \<Rightarrow> gostring \<Rightarrow> int" where
  "flag_int fs name = (case fs name of Some (VInt64 n) \<Rightarrow> n | _ \<Rightarrow> 0)"

definition flag_bool :: "flag_set \<Rightarrow> gostring \<Rightarrow> bool" where
  "flag_bool fs name = (case fs name of Some (VBool b) \<Rightarrow> b | _ \<Rightarrow> False)"

definition inspectRequest :: "flag_set \<Rightarrow> inspect_request" where
  "inspectRequest fs =
     \<lparr>ir_Mode = flag_string fs ''mode'', ir_TargetPath = flag_string fs ''target'',
      ir_ImagePath = flag_string fs ''image'', ir_SHA256 = flag_string fs ''sha256'',
      ir_ExpectedBytes = flag_int fs ''expected-bytes''\<rparr>"

definition stageRequest :: "flag_set \<Rightarrow> stage_request" where
  "stageRequest fs =
     \<lparr>sr_URL = flag_string fs ''url'', sr_Destination = flag_string fs ''destination'',
      sr_SHA256 = flag_string fs ''sha256'', sr_MaximumBytes = flag_int fs ''maximum-bytes''\<rparr>"

text \<open>\<^verbatim>\<open>commonFlags.writeRequest\<close>, with the zero values of the fields it does not set.\<close>

definition commonFlags_writeRequest :: "flag_set \<Rightarrow> write_request" where
  "commonFlags_writeRequest fs =
     \<lparr>ir_Mode = flag_string fs ''mode'', ir_TargetPath = flag_string fs ''target'',
      ir_ImagePath = flag_string fs ''image'', ir_SHA256 = flag_string fs ''sha256'',
      ir_ExpectedBytes = flag_int fs ''expected-bytes'', wq_Confirmation = '''', wq_Reboot = False,
      wq_DryRun = False\<rparr>"

definition writeRequest :: "flag_set \<Rightarrow> write_request" where
  "writeRequest fs =
     (commonFlags_writeRequest fs)
       \<lparr>wq_Confirmation := flag_string fs ''confirmation'', wq_Reboot := flag_bool fs ''reboot'',
        wq_DryRun := flag_bool fs ''dry-run''\<rparr>"

section \<open>Commands\<close>

text \<open>The interface \<^verbatim>\<open>engineAPI\<close>, with the \<^verbatim>\<open>Close\<close> method of a staged image; a factory gets whether
  a progress callback is given.\<close>

record 'h engineAPI =
  api_Inspect :: "goctx option \<Rightarrow> inspect_request \<Rightarrow> 'h \<Rightarrow> api_inspection res \<times> 'h"
  api_Stage :: "goctx option \<Rightarrow> stage_request \<Rightarrow> 'h \<Rightarrow> staged_image res \<times> 'h"
  api_Write :: "goctx option \<Rightarrow> write_request \<Rightarrow> 'h \<Rightarrow> write_result res \<times> api_progress list \<times> 'h"
  api_Close :: "staged_image \<Rightarrow> 'h \<Rightarrow> goerr option \<times> 'h"

type_synonym 'h engineFactory = "bool \<Rightarrow> 'h engineAPI res"

text \<open>Parsing the arguments of a command: the flags, or the message of a usage error.\<close>

definition parse_command :: "gostring \<Rightarrow> flag_set \<Rightarrow> gostring list \<Rightarrow> message + flag_set" where
  "parse_command name flags args =
     (case flag_Parse flags args of
        Inl err \<Rightarrow> Inl err
      | Inr (fs, rest) \<Rightarrow>
          (if rest \<noteq> [] then Inl (name @ '' does not accept positional arguments'', []) else Inr fs))"

definition runInspect ::
  "goctx option \<Rightarrow> gostring list \<Rightarrow> goerr option \<Rightarrow> 'h engineFactory \<Rightarrow> 'h \<Rightarrow> 'h outcome" where
  "runInspect ctx args out newEngine h =
     (case parse_command ''inspect'' newCommonFlagSet args of
        Inl message \<Rightarrow> usageError message h
      | Inr fs \<Rightarrow>
          (case newEngine False of
             Inl err \<Rightarrow> operationError err h
           | Inr engine \<Rightarrow>
               (case api_Inspect engine ctx (inspectRequest fs) h of
                  (Inl err, h1) \<Rightarrow> apiError err h1
                | (Inr result, h1) \<Rightarrow> encodeResult out (DocInspection result) h1)))"

definition runStage ::
  "goctx option \<Rightarrow> gostring list \<Rightarrow> goerr option \<Rightarrow> 'h engineFactory \<Rightarrow> 'h \<Rightarrow> 'h outcome" where
  "runStage ctx args out newEngine h =
     (case parse_command ''stage'' stage_flags args of
        Inl message \<Rightarrow> usageError message h
      | Inr fs \<Rightarrow>
          (case newEngine False of
             Inl err \<Rightarrow> operationError err h
           | Inr engine \<Rightarrow>
               (case api_Stage engine ctx (stageRequest fs) h of
                  (Inl err, h1) \<Rightarrow> apiError err h1
                | (Inr simage, h1) \<Rightarrow>
                    (case api_Close engine simage h1 of
                       (Some err, h2) \<Rightarrow> operationError (Errorf ''close staged image: %w'' [] err) h2
                     | (None, h2) \<Rightarrow> encodeResult out (DocStaged simage) h2))))"

text \<open>The callback writes each update to stderr as it comes, before what the command reports at the end.\<close>

definition after_progress :: "api_progress list \<Rightarrow> 'h outcome \<Rightarrow> 'h outcome" where
  "after_progress calls x = x\<lparr>x_stderr := map DocProgress calls @ x_stderr x\<rparr>"

declare after_progress_def [report_defs]

definition runWrite ::
  "goctx option \<Rightarrow> gostring list \<Rightarrow> goerr option \<Rightarrow> 'h engineFactory \<Rightarrow> 'h \<Rightarrow> 'h outcome" where
  "runWrite ctx args out newEngine h =
     (case parse_command ''write'' write_flags args of
        Inl message \<Rightarrow> usageError message h
      | Inr fs \<Rightarrow>
          (case newEngine True of
             Inl err \<Rightarrow> operationError err h
           | Inr engine \<Rightarrow>
               (case api_Write engine ctx (writeRequest fs) h of
                  (Inl err, calls, h1) \<Rightarrow> after_progress calls (apiError err h1)
                | (Inr result, calls, h1) \<Rightarrow>
                    after_progress calls (encodeResult out (DocWrite result) h1))))"

definition runVersion :: "build \<Rightarrow> gostring list \<Rightarrow> goerr option \<Rightarrow> 'h \<Rightarrow> 'h outcome" where
  "runVersion build args out h =
     (case parse_command ''version'' version_flags args of
        Inl message \<Rightarrow> usageError message h
      | Inr fs \<Rightarrow>
          (let info = Current build
           in if flag_bool fs ''json'' then encodeResult out (DocVersion info) h
              else case out of
                     Some err \<Rightarrow> operationError (Errorf ''write version: %w'' [] err) h
                   | None \<Rightarrow>
                       \<lparr>x_exit = exitSuccess,
                        x_stdout = [DocText (''diskforge '' @ vi_Version info @ '' ('' @ vi_Commit info @ '')''
                                             @ [CHR 0x0A])],
                        x_stderr = [], x_host = h\<rparr>))"

definition run ::
  "build \<Rightarrow> goctx option \<Rightarrow> gostring list \<Rightarrow> goerr option \<Rightarrow> 'h engineFactory \<Rightarrow> 'h \<Rightarrow> 'h outcome" where
  "run build ctx args out newEngine h =
     (case args of
        [] \<Rightarrow> usageError (''a command is required: inspect, stage, write, or version'', []) h
      | command # rest \<Rightarrow>
          (if command = ''inspect'' then runInspect ctx rest out newEngine h
           else if command = ''stage'' then runStage ctx rest out newEngine h
           else if command = ''write'' then runWrite ctx rest out newEngine h
           else if command = ''version'' then runVersion build rest out h
           else usageError (''unknown command %q'', [FQuote command]) h))"

section \<open>Production\<close>

text \<open>What the program acts on: the world of the boundary and the store of the stager.\<close>

record host =
  hw :: world
  hs :: store

definition engine_methods ::
  "(gostring \<Rightarrow> goerr option) \<Rightarrow> os_kernel \<Rightarrow> network \<Rightarrow> (world, device) engine \<Rightarrow> host engineAPI" where
  "engine_methods ip_literal k net engine =
     \<lparr>api_Inspect = (\<lambda>ctx request h.
        case Engine_Inspect engine ctx request (hw h) of (r, w) \<Rightarrow> (r, h\<lparr>hw := w\<rparr>)),
      api_Stage = (\<lambda>ctx request h.
        case Engine_Stage ip_literal k net engine ctx request (hs h) of (r, s) \<Rightarrow> (r, h\<lparr>hs := s\<rparr>)),
      api_Write = (\<lambda>ctx request h.
        case Engine_Write engine ctx request (hw h) of (r, calls, w) \<Rightarrow> (r, calls, h\<lparr>hw := w\<rparr>)),
      api_Close = (\<lambda>simage h.
        case StagedImage_Close (Some simage) (hs h) of (err, _, s) \<Rightarrow> (err, h\<lparr>hs := s\<rparr>))\<rparr>"

definition productionFactory ::
  "(gostring \<Rightarrow> goerr option) \<Rightarrow> os_kernel \<Rightarrow> network \<Rightarrow> host engineFactory" where
  "productionFactory ip_literal k net progress =
     (case New [Some (WithProgress progress)] of
        Inl err \<Rightarrow> Inl err
      | Inr engine \<Rightarrow> Inr (engine_methods ip_literal k net engine))"

text \<open>\<^verbatim>\<open>main\<close>: the arguments after the program name, with a background context.\<close>

definition main ::
  "build \<Rightarrow> (gostring \<Rightarrow> goerr option) \<Rightarrow> os_kernel \<Rightarrow> network \<Rightarrow> gostring list \<Rightarrow> goerr option \<Rightarrow> host
   \<Rightarrow> host outcome" where
  "main build ip_literal k net args out h =
     run build (Some background) args out (productionFactory ip_literal k net) h"


section \<open>Streams and exit codes\<close>

text \<open>An outcome that follows the protocol of the command: success and one document on stdout, or one
  error object at the end of stderr whose kind goes with the exit code.\<close>

definition error_kind :: "int \<Rightarrow> gostring" where
  "error_kind code =
     (if code = exitUsage then ''usage''
      else if code = exitGate then ''gate''
      else if code = exitCanceled then ''canceled''
      else ''operational'')"

definition protocol :: "'h outcome \<Rightarrow> bool" where
  "protocol x \<longleftrightarrow>
     (x_exit x = exitSuccess \<and> (\<exists>d. x_stdout x = [d]) \<and> (\<exists>calls. x_stderr x = map DocProgress calls))
     \<or> (x_exit x \<in> {exitOperational, exitUsage, exitGate, exitCanceled} \<and> x_stdout x = []
        \<and> (\<exists>calls e. x_stderr x = map DocProgress calls @ [DocError e] \<and> ed_Kind e = error_kind (x_exit x)))"

lemma progress_none: "\<exists>calls. [] = map DocProgress calls" "\<exists>calls. [DocError e] = map DocProgress calls @ [DocError e]"
  by (rule exI [of _ "[]"], simp)+

lemma protocol_reports [simp]:
  "protocol (usageError m h)" "protocol (operationError err h)" "protocol (apiError err h)"
  "protocol (encodeResult out d h)"
  using progress_none
  by (auto simp: protocol_def error_kind_def report_defs split: option.split)

lemma protocol_after_progress [simp]: "protocol x \<Longrightarrow> protocol (after_progress calls x)"
proof -
  have "\<exists>cs'. map DocProgress calls @ map DocProgress cs = map DocProgress cs'" for cs
    by (rule exI [of _ "calls @ cs"]) simp
  then show "protocol x \<Longrightarrow> protocol (after_progress calls x)"
    unfolding protocol_def after_progress_def by fastforce
qed

lemma reports_exit:
  "x_exit (usageError m h) = exitUsage" "x_exit (operationError err h) \<noteq> exitUsage"
  "x_exit (apiError err h) \<noteq> exitUsage" "x_exit (encodeResult out d h) \<noteq> exitUsage"
  "x_exit (after_progress calls x) = x_exit x" "x_host (usageError m h) = h"
  by (auto simp: report_defs split: option.split)

definition contract :: "'h \<Rightarrow> 'h outcome \<Rightarrow> bool" where
  "contract h x \<longleftrightarrow> protocol x \<and> (x_exit x = exitUsage \<longrightarrow> x_host x = h)"

lemma contract_reports [simp]:
  "contract h (usageError m h)" "contract h (operationError err h')" "contract h (apiError err h')"
  "contract h (encodeResult out d h')" "contract h x \<Longrightarrow> contract h (after_progress calls x)"
  by (auto simp: contract_def reports_exit) (simp add: after_progress_def)

lemma contract_commands [simp]:
  "contract h (runInspect ctx args out newEngine h)" "contract h (runStage ctx args out newEngine h)"
  "contract h (runWrite ctx args out newEngine h)"
  by (simp_all add: runInspect_def runStage_def runWrite_def split: sum.split prod.split option.split)

lemma contract_version [simp]: "contract h (runVersion build args out h)"
proof -
  have "contract h \<lparr>x_exit = exitSuccess, x_stdout = [d], x_stderr = [], x_host = h\<rparr>" for d
    using progress_none(1) by (simp add: contract_def protocol_def)
  then show ?thesis
    by (simp add: runVersion_def Let_def split: sum.split option.split)
qed

text \<open>
  C22. The command keeps its contract with automation, whatever the engine does: success writes exactly one
  document to stdout and nothing but progress to stderr; a failure writes nothing to stdout and ends
  stderr with exactly one error object, whose kind is the one the exit code stands for; and a usage
  error is reported before anything was done to the host.
\<close>

theorem run_contract:
  "protocol (run build ctx args out newEngine h)
   \<and> (x_exit (run build ctx args out newEngine h) = exitUsage
      \<longrightarrow> x_host (run build ctx args out newEngine h) = h)"
  unfolding contract_def [symmetric] by (simp add: run_def split: list.split)

text \<open>The build that no release stamped.\<close>

definition dev_build :: build where
  "dev_build =
     \<lparr>bd_version = ''dev'', bd_commit = ''none'', bd_buildDate = ''unknown'',
      bd_runtime_Version = ''go1.26.5'', bd_GOOS = ''linux'', bd_GOARCH = ''amd64''\<rparr>"

theorem run_contract_witness:
  "x_host (run dev_build None [''write'', ''--mode''] None (\<lambda>_. Inl (Opaque ''no engine'')) (5 :: nat)) = 5"
proof -
  have "isl (parse_command ''write'' write_flags [''--mode''])"
    by code_simp
  then have "x_exit (run dev_build None [''write'', ''--mode''] None (\<lambda>_. Inl (Opaque ''no engine'')) (5 :: nat))
      = exitUsage"
    by (cases "parse_command ''write'' write_flags [''--mode'']")
       (simp_all add: run_def runWrite_def reports_exit)
  then show ?thesis
    by (rule conjunct2 [OF run_contract, THEN mp])
qed

section \<open>Requests on the command line\<close>

definition bool_text :: "bool \<Rightarrow> gostring" where
  "bool_text b = (if b then ''true'' else ''false'')"

text \<open>The arguments that say a write request.\<close>

definition write_args :: "write_request \<Rightarrow> gostring list" where
  "write_args r =
     [''--mode'', ir_Mode r, ''--target'', ir_TargetPath r, ''--image'', ir_ImagePath r,
      ''--sha256'', ir_SHA256 r, ''--expected-bytes'', int_digits (ir_ExpectedBytes r),
      ''--confirmation'', wq_Confirmation r, ''--reboot='' @ bool_text (wq_Reboot r),
      ''--dry-run='' @ bool_text (wq_DryRun r)]"

lemma flag_Parse_step:
  assumes "flag_name name" "\<exists>old. fs name = Some (VString old)"
  shows "flag_Parse fs ((''--'' @ name) # v # rest) = flag_Parse (fs(name \<mapsto> VString v)) rest"
proof -
  obtain old where "fs name = Some (VString old)"
    using assms(2) by blast
  then show ?thesis
    using flag_Parse_next [of name fs "VString old" v "VString v" rest] assms(1) by simp
qed

lemma flag_Parse_int:
  assumes "flag_name name" "\<exists>old. fs name = Some (VInt64 old)" "in_int64 n"
  shows "flag_Parse fs ((''--'' @ name) # int_digits n # rest) = flag_Parse (fs(name \<mapsto> VInt64 n)) rest"
proof -
  obtain old where "fs name = Some (VInt64 old)"
    using assms(2) by blast
  then show ?thesis
    using flag_Parse_next [of name fs "VInt64 old" "int_digits n" "VInt64 n" rest] assms(1)
    by (simp add: ParseInt0_int_digits [OF assms(3)])
qed

lemma flag_Parse_bool:
  assumes "flag_name name" "map_option is_bool_flag (fs name) = Some True"
  shows "flag_Parse fs ((''--'' @ name @ ''='' @ bool_text b) # rest) = flag_Parse (fs(name \<mapsto> VBool b)) rest"
proof -
  obtain old where old: "fs name = Some (VBool old)"
    using assms(2) by (auto elim: is_bool_flag.elims)
  have "value_Set (VBool old) (bool_text b) = Inr (VBool b)"
    by (cases b) (simp_all add: bool_text_def strconv_ParseBool_def)
  then show ?thesis
    using flag_Parse_equals [of name fs "VBool old" "bool_text b" "VBool b" rest] assms(1) old by simp
qed

lemma parse_write_args:
  assumes "in_int64 (ir_ExpectedBytes r)"
  shows "\<exists>fs. parse_command ''write'' write_flags (write_args r) = Inr fs \<and> writeRequest fs = r"
proof -
  have names: "flag_name ''mode''" "flag_name ''target''" "flag_name ''image''" "flag_name ''sha256''"
    "flag_name ''expected-bytes''" "flag_name ''confirmation''" "flag_name ''reboot''" "flag_name ''dry-run''"
    by (simp_all add: flag_name_def)
  let ?fs = "write_flags(''mode'' \<mapsto> VString (ir_Mode r), ''target'' \<mapsto> VString (ir_TargetPath r),
      ''image'' \<mapsto> VString (ir_ImagePath r), ''sha256'' \<mapsto> VString (ir_SHA256 r),
      ''expected-bytes'' \<mapsto> VInt64 (ir_ExpectedBytes r), ''confirmation'' \<mapsto> VString (wq_Confirmation r),
      ''reboot'' \<mapsto> VBool (wq_Reboot r), ''dry-run'' \<mapsto> VBool (wq_DryRun r))"
  have "flag_Parse write_flags (write_args r) = Inr (?fs, [])"
    unfolding write_args_def write_flags_def newCommonFlagSet_def
    by (simp add: flag_Parse_step [OF names(1), simplified] flag_Parse_step [OF names(2), simplified]
        flag_Parse_step [OF names(3), simplified] flag_Parse_step [OF names(4), simplified]
        flag_Parse_int [OF names(5) _ assms, simplified] flag_Parse_step [OF names(6), simplified]
        flag_Parse_bool [OF names(7), unfolded append_Cons append_Nil]
        flag_Parse_bool [OF names(8), unfolded append_Cons append_Nil])
  then have "parse_command ''write'' write_flags (write_args r) = Inr ?fs"
    by (simp add: parse_command_def)
  moreover have "writeRequest ?fs = r"
    by (simp add: writeRequest_def commonFlags_writeRequest_def flag_string_def flag_int_def flag_bool_def)
  ultimately show ?thesis
    by blast
qed


text \<open>
  C23. A write request survives the command line: whatever texts its fields are, dashes, equals signs and
  empty strings included, and for every 64-bit size, the command \<^verbatim>\<open>write\<close> with the request's arguments hands
  the engine exactly that request, once.
\<close>

theorem write_args_roundtrip:
  assumes "in_int64 (ir_ExpectedBytes r)" "newEngine True = Inr engine"
  shows "run build ctx (''write'' # write_args r) out newEngine h =
    (case api_Write engine ctx r h of
       (Inl err, calls, h1) \<Rightarrow> after_progress calls (apiError err h1)
     | (Inr result, calls, h1) \<Rightarrow> after_progress calls (encodeResult out (DocWrite result) h1))"
proof -
  obtain fs where "parse_command ''write'' write_flags (write_args r) = Inr fs" "writeRequest fs = r"
    using parse_write_args [OF assms(1)] by blast
  with assms(2) show ?thesis
    by (simp add: run_def runWrite_def)
qed

section \<open>The program as a whole\<close>

text \<open>
  The interface of the engine that the command relies on for the commands that only look: \<open>looked\<close>
  relates hosts between which nothing was done.
\<close>

locale looking_engine =
  fixes api :: "'h engineAPI" and looked :: "'h \<Rightarrow> 'h \<Rightarrow> bool"
  assumes looked_same: "looked h h"
    and inspect_looks: "api_Inspect api ctx ireq h = (r, h') \<Longrightarrow> looked h h'"
    and dry_run_looks: "api_Write api ctx wreq h = (x, calls, h') \<Longrightarrow> wq_DryRun wreq \<Longrightarrow> looked h h'"
begin

lemma report_hosts:
  "x_host (usageError m h) = h" "x_host (operationError err h) = h" "x_host (apiError err h) = h"
  "x_host (encodeResult out d h) = h" "x_host (after_progress cs x) = x_host x"
  by (simp_all add: report_defs split: option.split)

lemma runInspect_looks:
  "newEngine False = Inr api \<Longrightarrow> looked h (x_host (runInspect ctx args out newEngine h))"
  by (auto simp: runInspect_def report_hosts looked_same inspect_looks split: sum.split prod.split)

lemma runWrite_looks:
  assumes "newEngine True = Inr api" "parse_command ''write'' write_flags args = Inr fs" "flag_bool fs ''dry-run''"
  shows "looked h (x_host (runWrite ctx args out newEngine h))"
proof -
  have "wq_DryRun (writeRequest fs)"
    using assms(3) by (simp add: writeRequest_def)
  with dry_run_looks [of ctx "writeRequest fs" h] assms(1,2) show ?thesis
    by (auto simp: runWrite_def report_hosts split: sum.split prod.split)
qed

end

definition default_engine :: "bool \<Rightarrow> (world, device) engine" where
  "default_engine progress =
     \<lparr>e_client = \<lparr>c_Timeout = defaultHTTPTimeout\<rparr>, e_system = DefaultSystem, e_progress = progress\<rparr>"

lemma productionFactory_engine:
  "productionFactory ip k net progress = Inr (engine_methods ip k net (default_engine progress))"
  by (simp add: productionFactory_def New_def WithProgress_def default_engine_def)

definition only_looked :: "host \<Rightarrow> host \<Rightarrow> bool" where
  "only_looked h h' \<longleftrightarrow> untouched (hw h) (hw h') \<and> hs h' = hs h"

interpretation production: looking_engine "engine_methods ip k net (default_engine progress)" only_looked
  for ip k net progress
proof
  show "only_looked h h" for h
    by (simp add: only_looked_def)
next
  fix ctx ireq h r h'
  assume "api_Inspect (engine_methods ip k net (default_engine progress)) ctx ireq h = (r, h')"
  then obtain w where "Engine_Inspect (default_engine progress) ctx ireq (hw h) = (r, w)" "h' = h\<lparr>hw := w\<rparr>"
    by (auto simp: engine_methods_def split: prod.splits)
  then show "only_looked h h'"
    using Engine_Inspect_looks [of "default_engine progress"]
    by (auto simp: only_looked_def default_engine_def DefaultSystem_def)
next
  fix ctx wreq h x calls h'
  assume "api_Write (engine_methods ip k net (default_engine progress)) ctx wreq h = (x, calls, h')"
    and dry: "wq_DryRun wreq"
  then obtain w where "Engine_Write (default_engine progress) ctx wreq (hw h) = (x, calls, w)" "h' = h\<lparr>hw := w\<rparr>"
    by (auto simp: engine_methods_def split: prod.splits)
  then show "only_looked h h'"
    using Engine_Write_dry_run [of "default_engine progress"] dry
    by (auto simp: only_looked_def default_engine_def DefaultSystem_def)
qed

text \<open>
  C13. Looking is safe. Run as the program, \<^verbatim>\<open>inspect\<close> with any arguments, and \<^verbatim>\<open>write\<close> with any arguments that
  set the dry-run flag, whatever the kernel answers and however they end, issue no effect on the host,
  open and write no target, and touch no file.
\<close>

theorem main_only_looks:
  assumes "args = ''inspect'' # rest
    \<or> args = ''write'' # rest \<and> parse_command ''write'' write_flags rest = Inr fs \<and> flag_bool fs ''dry-run''"
  shows "w_effects (hw (x_host (main build ip k net args out h))) = w_effects (hw h)
    \<and> w_targets (hw (x_host (main build ip k net args out h))) = w_targets (hw h)
    \<and> hs (x_host (main build ip k net args out h)) = hs h"
proof -
  have "only_looked h (x_host (main build ip k net args out h))"
    using assms production.runInspect_looks [OF productionFactory_engine]
      production.runWrite_looks [OF productionFactory_engine, of rest fs]
    by (elim disjE conjE) (simp_all add: main_def run_def)
  then show ?thesis
    by (simp add: only_looked_def untouched_def)
qed

text \<open>
  C37. A request that validation refuses does nothing. For each of the three commands, when the flags are
  parsed and the request they make fails the engine's validation, the program ends with an exit code
  other than 0, no document on stdout and exactly one error object on stderr; that object has the
  code of the gate if the refusal is a gate's; and the host, its disks and its files are as before.
\<close>

theorem refused_request_harmless:
  assumes "args = ''inspect'' # rest \<and> parse_command ''inspect'' newCommonFlagSet rest = Inr fs
        \<and> validateInspectRequest (inspectRequest fs) = Some err
      \<or> args = ''stage'' # rest \<and> parse_command ''stage'' stage_flags rest = Inr fs
        \<and> validateStageRequest ip (stageRequest fs) = Some err
      \<or> args = ''write'' # rest \<and> parse_command ''write'' write_flags rest = Inr fs
        \<and> validateWriteRequest (writeRequest fs) = Some err"
  shows "x_host (main build ip k net args out h) = h \<and> x_stdout (main build ip k net args out h) = []
    \<and> x_exit (main build ip k net args out h) \<noteq> exitSuccess
    \<and> (\<exists>e. x_stderr (main build ip k net args out h) = [DocError e]
        \<and> (\<forall>code f as. errors_as_public_gate err = Some (code, f, as)
            \<longrightarrow> ed_Code e = code \<and> x_exit (main build ip k net args out h) = exitGate))"
proof -
  have bg: "validateContext (Some background) = Inr background"
    by simp
  have "main build ip k net args out h = apiError err h"
    using assms bg
    by (elim disjE conjE)
       (simp_all add: main_def run_def runInspect_def runStage_def runWrite_def productionFactory_engine
          engine_methods_def Engine_Inspect_def Engine_Stage_def Engine_Write_def after_progress_def)
  then show ?thesis
    by (auto simp: apiError_def operationError_def exit_defs split: option.split)
qed

text \<open>
  A malformed request that no gate covers, such as an image path that is not absolute or a reboot in
  rescue mode, leaves the host alone and ends with exit code 1 and an error of kind \<^verbatim>\<open>operational\<close>,
  not with the exit code 2 of a usage error.
\<close>

lemma invalid_request_exit:
  assumes "validateWriteRequest r = Some err" "errors_is err ErrInvalidRequest"
    and "in_int64 (ir_ExpectedBytes r)"
  shows "main build ip k net (''write'' # write_args r) out h = operationError err h
    \<and> x_exit (main build ip k net (''write'' # write_args r) out h) = exitOperational"
proof -
  have bg: "validateContext (Some background) = Inr background"
    by simp
  have "errors_as_public_gate err = None \<and> \<not> errors_is err ContextCanceled
      \<and> \<not> errors_is err ContextDeadlineExceeded"
    using assms(1,2)
    by (auto simp: validation_defs Let_def split: option.splits if_splits)
  then have api: "apiError err h = operationError err h"
    by (simp add: apiError_def)
  obtain fs where fs: "parse_command ''write'' write_flags (write_args r) = Inr fs" "writeRequest fs = r"
    using parse_write_args [OF assms(3)] by blast
  have "main build ip k net (''write'' # write_args r) out h = after_progress [] (apiError err h)"
    using fs assms(1) bg
    by (simp add: main_def run_def runWrite_def productionFactory_engine engine_methods_def Engine_Write_def)
  then show ?thesis
    by (simp add: api after_progress_def operationError_def)
qed


section \<open>Concrete command lines\<close>

text \<open>An engine that only notes the requests it gets.\<close>

definition noting_engine :: "write_request list engineAPI" where
  "noting_engine =
     \<lparr>api_Inspect = (\<lambda>ctx r h. (Inl (Opaque ''no''), h)), api_Stage = (\<lambda>ctx r h. (Inl (Opaque ''no''), h)),
      api_Write = (\<lambda>ctx r h. (Inl (Opaque ''no''), [], h @ [r])), api_Close = (\<lambda>s h. (None, h))\<rparr>"

definition odd_request :: write_request where
  "odd_request =
     \<lparr>ir_Mode = ''--dry-run'', ir_TargetPath = ''=-'', ir_ImagePath = '''', ir_SHA256 = ''--'',
      ir_ExpectedBytes = - 7, wq_Confirmation = ''a=b'', wq_Reboot = True, wq_DryRun = False\<rparr>"

theorem write_args_roundtrip_witness:
  "x_host (run dev_build None (''write'' # write_args odd_request) None (\<lambda>_. Inr noting_engine) [])
     = [odd_request]"
proof -
  have "in_int64 (ir_ExpectedBytes odd_request)"
    by (simp add: odd_request_def in_int64_def)
  from write_args_roundtrip [OF this, of "\<lambda>_. Inr noting_engine" noting_engine] show ?thesis
    by (simp add: noting_engine_def apiError_def operationError_def after_progress_def)
qed

definition example_machine :: host where
  "example_machine = \<lparr>hw = example_world, hs = example_store\<rparr>"

lemma example_observer_default: "DefaultSystem = System example_observer"
  by (simp add: DefaultSystem_def example_observer_def)

theorem main_only_looks_witness:
  "x_exit (main dev_build (\<lambda>_. None) (quiet_kernel None) example_network
       (''write'' # write_args (run_write True)) None example_machine) = 0
   \<and> w_targets (hw (x_host (main dev_build (\<lambda>_. None) (quiet_kernel None) example_network
       (''write'' # write_args (run_write True)) None example_machine))) = []"
proof -
  let ?x = "main dev_build (\<lambda>_. None) (quiet_kernel None) example_network
       (''write'' # write_args (run_write True)) None example_machine"
  obtain fs where fs: "parse_command ''write'' write_flags (write_args (run_write True)) = Inr fs"
      "writeRequest fs = run_write True"
    using parse_write_args [of "run_write True"] by (auto simp: run_write_def in_int64_def)
  have dry: "flag_bool fs ''dry-run''"
    using arg_cong [OF fs(2), of wq_DryRun] by (simp add: writeRequest_def)
  obtain r w' where "Engine_Write (default_engine True) (Some background) (run_write True) example_world
      = (Inr r, [], w')"
    using run_dry [of "default_engine True"] by (auto simp: default_engine_def example_observer_default)
  then have "x_exit ?x = 0"
    using fs
    by (simp add: main_def run_def runWrite_def productionFactory_engine engine_methods_def example_machine_def
        encodeResult_def after_progress_def exit_defs)
  moreover have "w_targets (hw (x_host ?x)) = []"
    using main_only_looks [of "''write'' # write_args (run_write True)" "write_args (run_write True)" fs] fs dry
    by (simp add: example_machine_def example_world_def)
  ultimately show ?thesis
    by blast
qed

theorem refused_request_harmless_witness:
  "x_host (main dev_build (\<lambda>_. None) (quiet_kernel None) example_network
     (''write'' # write_args ((run_write False)\<lparr>ir_ImagePath := ''image.raw''\<rparr>)) None example_machine)
   = example_machine"
proof -
  let ?r = "(run_write False)\<lparr>ir_ImagePath := ''image.raw''\<rparr>"
  have "validateTargetPath ''/dev/vdb'' = None" "validateImagePath ''image.raw'' \<noteq> None"
    by code_simp+
  then obtain e where e: "validateWriteRequest ?r = Some e"
    by (auto simp: validateWriteRequest_def validateInspectRequest_def validateMode_def run_write_def)
  obtain fs where fs: "parse_command ''write'' write_flags (write_args ?r) = Inr fs" "writeRequest fs = ?r"
    using parse_write_args [of ?r] by (auto simp: run_write_def in_int64_def)
  show ?thesis
    using refused_request_harmless [of "''write'' # write_args ?r" "write_args ?r" fs e] fs e by simp
qed

section \<open>What success means for each command\<close>

definition stage_args :: "stage_request \<Rightarrow> gostring list" where
  "stage_args r =
     [''--url'', sr_URL r, ''--destination'', sr_Destination r, ''--sha256'', sr_SHA256 r,
      ''--maximum-bytes'', int_digits (sr_MaximumBytes r)]"

lemma parse_stage_args:
  assumes "in_int64 (sr_MaximumBytes r)"
  shows "\<exists>fs. parse_command ''stage'' stage_flags (stage_args r) = Inr fs \<and> stageRequest fs = r"
proof -
  have names: "flag_name ''url''" "flag_name ''destination''" "flag_name ''sha256''" "flag_name ''maximum-bytes''"
    by (simp_all add: flag_name_def)
  let ?fs = "stage_flags(''url'' \<mapsto> VString (sr_URL r), ''destination'' \<mapsto> VString (sr_Destination r),
      ''sha256'' \<mapsto> VString (sr_SHA256 r), ''maximum-bytes'' \<mapsto> VInt64 (sr_MaximumBytes r))"
  have "flag_Parse stage_flags (stage_args r) = Inr (?fs, [])"
    unfolding stage_args_def stage_flags_def
    by (simp add: flag_Parse_step [OF names(1), simplified] flag_Parse_step [OF names(2), simplified]
        flag_Parse_step [OF names(3), simplified] flag_Parse_int [OF names(4) _ assms, simplified])
  then have "parse_command ''stage'' stage_flags (stage_args r) = Inr ?fs"
    by (simp add: parse_command_def)
  moreover have "stageRequest ?fs = r"
    by (simp add: stageRequest_def flag_string_def flag_int_def)
  ultimately show ?thesis
    by blast
qed

lemma reports_success:
  "x_exit (usageError m h) \<noteq> exitSuccess" "x_exit (operationError err h) \<noteq> exitSuccess"
  "x_exit (apiError err h) \<noteq> exitSuccess"
  "x_exit (encodeResult out d h) = exitSuccess \<longleftrightarrow> out = None"
  "x_stdout (encodeResult None d h) = [d]" "x_host (encodeResult out d h) = h"
  by (auto simp: report_defs split: option.split)

text \<open>Running a write request: the engine's outcome, reported.\<close>

lemma main_write_eq:
  assumes "in_int64 (ir_ExpectedBytes r)"
    and "Engine_Write (default_engine True) (Some background) r (hw h) = (x, calls, w)"
  shows "main build ip k net (''write'' # write_args r) out h = after_progress calls
      (case x of Inl err \<Rightarrow> apiError err (h\<lparr>hw := w\<rparr>)
       | Inr result \<Rightarrow> encodeResult out (DocWrite result) (h\<lparr>hw := w\<rparr>))"
proof -
  obtain fs where "parse_command ''write'' write_flags (write_args r) = Inr fs" "writeRequest fs = r"
    using parse_write_args [OF assms(1)] by blast
  with assms(2) show ?thesis
    by (simp add: main_def run_def runWrite_def productionFactory_engine engine_methods_def split: sum.split)
qed

lemma main_write_success:
  assumes "x_exit (main build ip k net (''write'' # write_args r) out h) = exitSuccess"
    and "in_int64 (ir_ExpectedBytes r)"
  obtains result calls w where
    "Engine_Write (default_engine True) (Some background) r (hw h) = (Inr result, calls, w)"
    "x_stdout (main build ip k net (''write'' # write_args r) out h) = [DocWrite result]"
    "x_host (main build ip k net (''write'' # write_args r) out h) = h\<lparr>hw := w\<rparr>"
proof -
  obtain x calls w where e: "Engine_Write (default_engine True) (Some background) r (hw h) = (x, calls, w)"
    by (metis prod_cases3)
  note m = main_write_eq [OF assms(2) e, of build ip k net out]
  with assms(1) obtain result where "x = Inr result" "out = None"
    by (cases x) (auto simp: reports_exit reports_success)
  with m e that show thesis
    by (simp add: after_progress_def reports_success)
qed

lemma main_stage_success:
  assumes "x_exit (main build ip k net (''stage'' # stage_args r) out h) = exitSuccess"
    and "in_int64 (sr_MaximumBytes r)"
  obtains simage s1 s2 x where
    "Engine_Stage ip k net (default_engine False) (Some background) r (hs h) = (Inr simage, s1)"
    "StagedImage_Close (Some simage) s1 = (None, x, s2)"
    "x_stdout (main build ip k net (''stage'' # stage_args r) out h) = [DocStaged simage]"
    "x_host (main build ip k net (''stage'' # stage_args r) out h) = h\<lparr>hs := s2\<rparr>"
proof -
  obtain fs where fs: "parse_command ''stage'' stage_flags (stage_args r) = Inr fs" "stageRequest fs = r"
    using parse_stage_args [OF assms(2)] by blast
  obtain e s1 where e: "Engine_Stage ip k net (default_engine False) (Some background) r (hs h) = (e, s1)"
    by fastforce
  show thesis
  proof (cases e)
    case (Inl err)
    with fs e assms(1) show ?thesis
      by (simp add: main_def run_def runStage_def productionFactory_engine engine_methods_def reports_success)
  next
    case (Inr simage)
    obtain err x s2 where c: "StagedImage_Close (Some simage) s1 = (err, x, s2)"
      by (metis prod_cases3)
    have m: "main build ip k net (''stage'' # stage_args r) out h =
        (case err of Some e \<Rightarrow> operationError (Errorf ''close staged image: %w'' [] e) (h\<lparr>hs := s2\<rparr>)
         | None \<Rightarrow> encodeResult out (DocStaged simage) (h\<lparr>hs := s2\<rparr>))"
      using fs e Inr c
      by (simp add: main_def run_def runStage_def productionFactory_engine engine_methods_def split: option.split)
    with assms(1) have "err = None" "out = None"
      by (auto simp: reports_success split: option.splits)
    with m e Inr c that show thesis
      by (simp add: reports_success)
  qed
qed

end
