(* ===== verification/Spec2Isabelle.thy ===== *)
theory Spec2Isabelle
  imports Naming Cli
begin

text \<open>
  A verification development for diskforge, the program that verifies a disk image, stages it by
  HTTPS, and writes it over a whole disk of a Linux machine, either from a rescue system or over the
  disk the machine runs from (live mode).

  \<^bold>\<open>The program.\<close> The command (cmd/diskforge/main.go, internal/version) parses its arguments and
  calls the public API (diskforge.go, types.go, errors.go). The API validates a request, converts it
  and calls one of two parts. Staging (internal/image/stage.go) downloads an image into a partial file
  and publishes it under its final name. Writing (internal/linux/execute.go) runs the destructive
  sequence inspect, verify, confirm, prepare, open, write, synchronise, reboot, over a boundary whose
  production instance is internal/linux/system.go. That instance observes the machine through /proc
  and /sys (internal/linux/observer.go), hands what it saw to the policy (internal/policy) which
  refuses by gates and computes the confirmation token, and verifies and streams the image by
  internal/image/verified.go and write.go. internal/naming checks labels and builds artifact names.

  \<^bold>\<open>The theories\<close>, in order of dependency. The first group is what the source uses of Go, the second
  the program.

  \<^item> Prelude: Go values (strings as byte lists, 64-bit integers as \<^verbatim>\<open>int\<close> with \<open>wrap64\<close>), shared list facts,
    and the collections \<open>validation_defs\<close> and \<open>report_defs\<close>.
  \<^item> Go_Error: error values, wrapping, \<^verbatim>\<open>errors.Is\<close>, \<^verbatim>\<open>errors.As\<close>; the sentinels, the gate codes and the gate
    errors of errors.go and internal/policy/model.go.
  \<^item> Go_Path, Go_Text, Go_Url, Go_Flag: path/filepath, strings, strconv, bufio, encoding/hex, net/url
    and flag, as far as they are called.
  \<^item> Go_IO: readers as scripts of reads, the loop of \<^verbatim>\<open>io.Copy\<close>, \<^verbatim>\<open>io.ReadFull\<close>, \<^verbatim>\<open>io.LimitReader\<close>, contexts. The locales
    \<open>byte_sink\<close> and \<open>total_sink\<close> state what a writer promises; the facts on copying are proved in them.
  \<^item> Go_Os: the file calls of staging on a store that separates the visible from the durable state.
  \<^item> Sha256: SHA-256 itself, so that every digest and token can be computed.
  \<^item> Naming: naming.go. Policy: model.go, confirmation.go, inspect.go.
  \<^item> Verified: verified.go. Image_Write: write.go. Stage: stage.go.
  \<^item> Sysfs and Procfs: observer.go. Execute: execute.go over any boundary, with the locale
    \<open>guarded_boundary\<close>. System: system.go. System_Run: what its steps achieve, its interpretation of
    \<open>guarded_boundary\<close>, and the sequence on it.
  \<^item> Engine: diskforge.go and types.go. Cli: main.go and version.go, with the locale \<open>looking_engine\<close>
    interpreted by the production engine.
  \<^item> this theory: the two destructive commands from the command line to the disk.

  Names of operations are those of the source; a helper such as \<open>execute_target\<close> or \<open>fill_partial\<close> is a part of
  one Go function, split where a deferred call starts to be in force. Struct fields carry a short
  prefix (\<open>t_\<close> target, \<open>i_\<close> image, \<open>h_\<close> host, \<open>n_\<close> inspection, \<open>q_\<close> internal request, \<open>v_\<close> verified).

  \<^bold>\<open>State and effects.\<close>
  The boundary of execute.go is a record of functions passing a world \<open>'w\<close> and a target \<open>'t\<close>. For system.go the
  world holds the kernel, described by its answers, a clock, and the effects so far in order; every
  answer is a function of the moment of the call, so that mounts, swaps, identities and outcomes may
  change between any two calls. One method of the observer sees one snapshot of /proc and /sys; the
  next may see another. An open file answers every seek, stat and pass separately, so an image may
  change between verification and writing. A device answers every write by an arbitrary function of the
  bytes given, and logs what it accepted and every synchronisation. The store of staging keeps names,
  directories and contents twice, as seen and as on the disk: a file is durable when its bytes, its
  entry and the entries of all directories above it are synchronised, and a directory that staging had to
  make is not. The kernel may answer each call with an error.
  Progress callbacks and documents on stdout and stderr are lists in the order they are made.

  \<^bold>\<open>What is shown.\<close>
  \<^item> From end to end: exit code 0 of write and of stage is evidence of what was delivered
    (\<open>main_write_delivers\<close>, \<open>main_stage_publishes\<close>), and on a machine without faults write does end
    with it (\<open>main_write_completes\<close>); inspect and dry runs change nothing (\<open>main_only_looks\<close>), nor does a
    request that validation refuses (\<open>refused_request_harmless\<close>); exit codes, documents and error objects go together (\<open>run_contract\<close>); the
    arguments of a write are parsed back to the request (\<open>write_args_roundtrip\<close>).
  \<^item> The destructive sequence: over any boundary its calls are an initial part of the plan and everything
    acquired is closed once (\<open>Execute_order\<close>); the target is opened only with the token of what
    was inspected (\<open>opened_only_if_confirmed\<close>); an opened descriptor is the confirmed device
    (\<open>OpenTarget_validated\<close>); what remounting and switching off swap prove.
  \<^item> The policy: acceptance is characterised (\<open>Inspect_accepts_iff\<close>), refusals are justified, the token
    binds six fields and no others (\<open>token_binds_identity\<close>, \<open>token_ignores_other_fields\<close>).
  \<^item> The observer: the walk over related devices ends and computes a closure (\<open>walkRelated_terminates\<close>,
    \<open>related_closure\<close>), mount, swap and memory observations are exact, and an accepted inspection means an
    unused target (\<open>rescue_inspection_unused\<close>) or the live conditions (\<open>live_inspection_gates\<close>).
  \<^item> Images: verification is sound, writing delivers the expanded stream or a bounded prefix
    (\<open>Verify_sound\<close>, \<open>Write_success\<close>, \<open>Write_bounded\<close>), and both succeed on good inputs
    (\<open>Verify_then_Write\<close>). Staging refines the atomic replacement of one name on every outcome, a partial
    file that cannot be removed being the one thing it may leave (\<open>Stage_atomic\<close>), sequences
    of stagings included (\<open>stagings_integrity\<close>), and succeeds on a kernel without faults (\<open>Stage_complete\<close>).
  \<^item> The API: error translation (\<open>publicError_faithful\<close>), validation before any effect
    (\<open>Engine_Write_guarded\<close>), tokens survive the conversions (\<open>inspection_token_roundtrip\<close>).

  \<^bold>\<open>Bounds and fuel.\<close> The recursion of \<^verbatim>\<open>walkRelated\<close> follows directories and has no evident measure; it
  carries fuel. \<open>related\<close> supplies \<open>walk_fuel\<close>, two more than the number of directory entries of the snapshot:
  every deeper call adds a new name, and every name but the first comes from an entry, so the fuel is
  not used up (\<open>walk_fuel_enough\<close>). The copy loops recurse on the weight of the script. The bounds of the
  code itself are kept: 600 polls for read-only mounts, 10000 names tried for a temporary file,
  the line limit of \<^verbatim>\<open>bufio.Scanner\<close>. 64-bit arithmetic wraps where the code computes without a check.

  \<^bold>\<open>Parameters.\<close> Code outside the repository is an argument: the zstd decoder (from the compressed
  reader to the script of expanded bytes, or an error), the calls of golang.org/x/sys/unix with
  \<^verbatim>\<open>Major\<close> and \<^verbatim>\<open>Minor\<close> (answers of the kernel), the HTTP transport (the answer to a request), the variables
  set by the linker for version.go. The acceptance of a bracketed IP literal by net/url and net/netip is
  the argument \<open>ip_literal\<close>.

  \<^bold>\<open>Not modelled.\<close> The rendering of messages and of JSON: an error keeps its format and arguments, a
  stream receives the value given to the encoder, whole or not at all, and writes to stderr, whose errors
  the program ignores, succeed. \<^verbatim>\<open>HostObservation\<close> of types.go, which no code uses.
  File ownership and umask; the position of a descriptor after a copy that nothing reads again;
  time other than the order of calls, so a timeout is an error of the transport or of the context.
  The moment of a cancellation: it is the context's answer at the points where the code asks it.
  Tests, documents and build files.
\<close>

section \<open>The program from the command line to the disk\<close>

text \<open>
  C1. What exit code 0 of \<^verbatim>\<open>diskforge write\<close> means. Run with the arguments of a request that is not a dry
  run, on any kernel, the program ends with exit code 0 only if: the mode is rescue, or
  live with a reboot approved; the target is \<^verbatim>\<open>/dev/\<close> and one ordinary component; the confirmation was the token of the target
  inspected for that path and of the requested image; the file that the kernel opened at the image path
  when the inspection was over had the requested SHA-256, and had it again when its complete content
  was re-read from the held descriptor; the one target that was opened received, in order, exactly the
  expanded stream of the next pass over that same descriptor, of exactly the expected size, then was
  synchronised, data-synchronised, flushed and closed; that source was closed; and the result on stdout
  says that many bytes.
\<close>

theorem main_write_delivers:
  assumes "x_exit (main build ip k net (''write'' # write_args r) out h) = exitSuccess"
    and "\<not> wq_DryRun r" "in_int64 (ir_ExpectedBytes r)"
    and "w = hw h" "w' = hw (x_host (main build ip k net (''write'' # write_args r) out h))"
  shows "(ir_Mode r = ModeRescue \<or> ir_Mode r = ModeLive \<and> wq_Reboot r)
    \<and> (\<exists>name. ir_TargetPath r = ''/dev/'' @ name \<and> ordinary name)
    \<and> (\<exists>result. x_stdout (main build ip k net (''write'' # write_args r) out h) = [DocWrite result]
        \<and> wr_WrittenBytes result = ir_ExpectedBytes r \<and> 0 < ir_ExpectedBytes r)
    \<and> (\<exists>n w1 f fd moment d' expanded ps.
        System_Inspect \<lparr>o_ProcRoot = ''/proc'', o_SysRoot = ''/sys''\<rparr> (Some background) (linuxWriteRequest r) w
          = (Inr n, w1)
        \<and> wq_Confirmation r = token_text (n_Target n) (n_Image n)
        \<and> t_CanonicalPath (n_Target n) = ir_TargetPath r
        \<and> k_open (w_kernel w) moment (ir_TargetPath r) (ir_Mode r = ModeRescue) = Inr fd
        \<and> w_targets w' = w_targets w @ [d']
        \<and> d_log d' = d_log (fd_device fd) @ map DevWrite ps @ [DevSync, DevFdatasync, DevFlush, DevClose]
        \<and> concat ps = script_data expanded \<and> int (length (concat ps)) = ir_ExpectedBytes r
        \<and> k_image (w_kernel w) (w_tick w1) (ir_ImagePath r) = Inr f
        \<and> hex_EncodeToString (sha256 (script_data (f_pass f (f_seeks f)))) = ir_SHA256 r
        \<and> hex_EncodeToString (sha256 (script_data (f_pass f (f_seeks f + 3)))) = ir_SHA256 r
        \<and> script_end (f_pass f (f_seeks f + 3)) = EOF
        \<and> expanded_stream (zstd_NewReader (w_kernel w)) (held_image f (ir_ImagePath r) (ir_SHA256 r))
            (f_pass f (f_seeks f + 4)) expanded
        \<and> w_sources w' = w_sources w @ [Some ((held_image f (ir_ImagePath r) (ir_SHA256 r))\<lparr>v_file := None\<rparr>)])"
proof -
  obtain result calls v where e:
    "Engine_Write (default_engine True) (Some background) r w = (Inr result, calls, v)"
    "x_stdout (main build ip k net (''write'' # write_args r) out h) = [DocWrite result]"
    "x_host (main build ip k net (''write'' # write_args r) out h) = h\<lparr>hw := v\<rparr>"
    using main_write_success [OF assms(1,3)] assms(4) by metis
  have v: "v = w'"
    using e(3) assms(5) by simp
  have sys: "e_system (default_engine True) = System \<lparr>o_ProcRoot = ''/proc'', o_SysRoot = ''/sys''\<rparr>"
    by (simp add: default_engine_def DefaultSystem_def)
  have c: "validateContext (Some background) = Inr c \<Longrightarrow> c = background" for c
    by simp
  note D = Engine_Write_delivers [OF e(1) [unfolded v] sys assms(2)]
  show ?thesis
    using D e(2) c by (intro conjI; elim conjE exE) (assumption | blast)+
qed



lemma file_Close_views [simp]:
  "content (file_Close s) = content s" "durable (file_Close s) = durable s"
  "st_open_dirs (file_Close s) = st_open_dirs s" "st_bodies (file_Close s) = st_bodies s"
  "st_open (file_Close s) = st_open s - 1" "st_names (file_Close s) = st_names s"
  "st_synced_names (file_Close s) = st_synced_names s" "st_synced (file_Close s) = st_synced s"
  by (simp_all add: content_def durable_def dir_durable_def fun_eq_iff file_Close_def)

lemma Engine_Stage_Inr:
  assumes "Engine_Stage ip k net engine ctx r s = (Inr simage, s')"
  obtains c v where "validateStageRequest ip r = None"
    "Stage k net (Some c) (Some (e_client engine)) (sr_URL r) (sr_Destination r) (sr_SHA256 r)
       (sr_MaximumBytes r) s = (Inr v, s')"
    "simage = \<lparr>si_Path = v_Path v, si_SHA256 = v_SHA256 v, si_Format = v_Format v,
       si_CompressedBytes = v_CompressedBytes v, si_close = Some v\<rparr>"
  using assms by (auto simp: Engine_Stage_def split: sum.splits option.splits prod.splits)

text \<open>
  C7. What exit code 0 of \<^verbatim>\<open>diskforge stage\<close> means. Run with the arguments of a request, on any kernel and
  network and from a sound store, the program ends with exit code 0 only if the URL was an HTTP or HTTPS
  URL without credentials, the server answered with a 2xx status and a body that ended properly, fits the
  limit, has the announced length and hashes to the digest, and now exactly the destination has that
  content; its bytes and its entry in its directory are on the disk, so that a crash leaves the new content
  there if the directory itself was durable before (directories made by the run are not synchronised
  in their parents); no descriptor, directory or response body is left open; and nothing was done to the
  disks of the host.
\<close>

theorem main_stage_publishes:
  assumes "x_exit (main build ip k net (''stage'' # stage_args r) out h) = exitSuccess"
    and "in_int64 (sr_MaximumBytes r)" "store_ok (hs h)"
    and "h' = x_host (main build ip k net (''stage'' # stage_args r) out h)"
  shows "hw h' = hw h
    \<and> (\<exists>scheme authority rest. sr_URL r = scheme @ ''://'' @ authority @ rest
        \<and> strings_ToLower scheme \<in> {''http'', ''https''} \<and> CHR ''@'' \<notin> set authority)
    \<and> (\<exists>response. net_Do net \<lparr>c_Timeout = defaultHTTPTimeout\<rparr> (sr_URL r) = Inr response
        \<and> 200 \<le> r_StatusCode response \<and> r_StatusCode response < 300
        \<and> acceptable (r_Body response) (r_ContentLength response) (sr_SHA256 r) (sr_MaximumBytes r)
        \<and> content (hs h') = (content (hs h))(sr_Destination r \<mapsto> script_data (r_Body response))
        \<and> (\<exists>i. st_names (hs h') (sr_Destination r) = Some i \<and> st_synced_names (hs h') (sr_Destination r) = Some i
             \<and> st_synced (hs h') i = script_data (r_Body response))
        \<and> (dir_durable (hs h) (filepath_Dir (sr_Destination r))
             \<longrightarrow> durable (hs h') (sr_Destination r) = Some (script_data (r_Body response))))
    \<and> st_open (hs h') = st_open (hs h) \<and> st_open_dirs (hs h') = st_open_dirs (hs h)
    \<and> st_bodies (hs h') = st_bodies (hs h)"
proof -
  obtain simage s1 s2 x where e:
    "Engine_Stage ip k net (default_engine False) (Some background) r (hs h) = (Inr simage, s1)"
    "StagedImage_Close (Some simage) s1 = (None, x, s2)" "h' = h\<lparr>hs := s2\<rparr>"
    using main_stage_success [OF assms(1,2)] assms(4) by metis
  obtain c v where val: "validateStageRequest ip r = None"
    and st: "Stage k net (Some c) (Some \<lparr>c_Timeout = defaultHTTPTimeout\<rparr>) (sr_URL r) (sr_Destination r)
      (sr_SHA256 r) (sr_MaximumBytes r) (hs h) = (Inr v, s1)"
    and simage: "si_close simage = Some v"
    using e(1) by (cases rule: Engine_Stage_Inr) (auto simp: default_engine_def)
  note S = Stage_success [OF st assms(2,3)] and D = Stage_durable [OF st assms(2,3)]
  have "v_file v \<noteq> None"
    using S by blast
  then have s2: "s2 = file_Close s1"
    using e(2) simage by (auto simp: StagedImage_Close_def Verified_Close_def)
  have url: "\<exists>scheme authority rest. sr_URL r = scheme @ ''://'' @ authority @ rest
      \<and> strings_ToLower scheme \<in> {''http'', ''https''} \<and> CHR ''@'' \<notin> set authority"
    using stage_request_accepted [OF val] by blast
  obtain response i where "net_Do net \<lparr>c_Timeout = defaultHTTPTimeout\<rparr> (sr_URL r) = Inr response"
    "200 \<le> r_StatusCode response" "r_StatusCode response < 300"
    "acceptable (r_Body response) (r_ContentLength response) (sr_SHA256 r) (sr_MaximumBytes r)"
    "content s1 = (content (hs h))(sr_Destination r \<mapsto> script_data (r_Body response))"
    "st_names s1 (sr_Destination r) = Some i" "st_synced_names s1 (sr_Destination r) = Some i"
    "st_synced s1 i = script_data (r_Body response)"
    "dir_durable (hs h) (filepath_Dir (sr_Destination r))
      \<longrightarrow> durable s1 (sr_Destination r) = Some (script_data (r_Body response))"
    using S by (elim exE conjE) (simp only: option.inject)
  with url D show ?thesis
    by (auto simp: e(3) s2)
qed

section \<open>Concrete runs of the program\<close>

lemma example_main_write:
  "x_exit (main dev_build (\<lambda>_. None) (quiet_kernel None) example_network
     (''write'' # write_args (run_write False)) None example_machine) = exitSuccess"
proof -
  have n: "in_int64 (ir_ExpectedBytes (run_write False))"
    by (simp add: run_write_def in_int64_def)
  obtain calls w' where "Execute (Some background) run_request (System example_observer) True example_world
      = ((4096, None), calls, w')"
    using run_Execute by blast
  then obtain r c v where "Engine_Write (default_engine True) (Some background) (run_write False)
      (hw example_machine) = (Inr r, c, v)"
    by (fastforce simp: Engine_Write_def default_engine_def example_observer_default example_machine_def)
  from main_write_eq [OF n this] show ?thesis
    by (simp add: encodeResult_def after_progress_def)
qed

theorem main_write_delivers_witness:
  "\<exists>d'. w_targets (hw (x_host (main dev_build (\<lambda>_. None) (quiet_kernel None) example_network
       (''write'' # write_args (run_write False)) None example_machine))) = [d']
     \<and> length (device_data d') = 4096"
proof -
  have r: "\<not> wq_DryRun (run_write False)" "in_int64 (ir_ExpectedBytes (run_write False))"
    by (simp_all add: run_write_def in_int64_def)
  let ?w' = "hw (x_host (main dev_build (\<lambda>_. None) (quiet_kernel None) example_network
       (''write'' # write_args (run_write False)) None example_machine))"
  have w: "example_world = hw example_machine"
    by (simp add: example_machine_def)
  from main_write_delivers [OF example_main_write r w refl] obtain d' fd ps moment where d':
    "k_open (w_kernel example_world) moment (ir_TargetPath (run_write False))
       (ir_Mode (run_write False) = ModeRescue) = Inr fd"
    "w_targets ?w' = w_targets example_world @ [d']"
    "d_log d' = d_log (fd_device fd) @ map DevWrite ps @ [DevSync, DevFdatasync, DevFlush, DevClose]"
    "int (length (concat ps)) = ir_ExpectedBytes (run_write False)"
    by (elim exE conjE)
  have fd: "fd = example_descriptor"
    using d'(1) by (simp add: example_kernel_def)
  have "length (device_data d') = 4096"
    using d'(4) by (simp add: d'(3) fd example_descriptor_def run_write_def)
  with d'(2) show ?thesis
    by (simp add: example_world_def)
qed


definition example_download :: stage_request where
  "example_download =
     \<lparr>sr_URL = ''http://h/i'', sr_Destination = ''/d/i'', sr_SHA256 = example_digest, sr_MaximumBytes = 100\<rparr>"

lemma example_main_stage:
  "x_exit (main dev_build (\<lambda>_. None) (quiet_kernel None) example_network
     (''stage'' # stage_args example_download) None example_machine) = exitSuccess"
proof -
  obtain fs where fs: "parse_command ''stage'' stage_flags (stage_args example_download) = Inr fs"
      "stageRequest fs = example_download"
    using parse_stage_args [of example_download] by (auto simp: example_download_def in_int64_def)
  have url: "url_ParseRequestURI (\<lambda>_. None) ''http://h/i'' = Inr \<lparr>u_Scheme = ''http'', u_User = None, u_Host = ''h''\<rparr>"
    by code_simp
  have "''/d/i'' = abs_path [''d'', ''i'']" "\<forall>c \<in> set [''d'', ''i'']. ordinary c"
    by (simp_all add: abs_path_def ordinary_def)
  then have path: "validateImagePath ''/d/i'' = None"
    unfolding validateImagePath_None by blast
  have "validateDigest example_digest = None"
    unfolding validateDigest_None using hex_Encode_digest [of "sha256 ''new image''"]
    by (simp add: digest_ok_def example_digest_def)
  then have val: "validateStageRequest (\<lambda>_. None) example_download = None"
    by (simp add: validateStageRequest_def example_download_def url path max_int64_def)
  obtain v s' where v: "Stage (quiet_kernel None) example_network (Some background)
      (Some \<lparr>c_Timeout = defaultHTTPTimeout\<rparr>) ''http://h/i'' ''/d/i'' example_digest 100 example_store
      = (Inr v, s')"
    using example_staged_by by blast
  have "in_int64 100"
    by (simp add: in_int64_def)
  from Stage_descriptor [OF v this] have "\<exists>f. v_file v = Some f \<and> f_close f = None"
    by (simp add: quiet_kernel_def)
  then show ?thesis
    using fs val v
    by (auto simp: main_def run_def runStage_def productionFactory_engine engine_methods_def Engine_Stage_def
        example_machine_def example_download_def default_engine_def StagedImage_Close_def Verified_Close_def
        encodeResult_def)
qed

theorem main_stage_publishes_witness:
  "content (hs (x_host (main dev_build (\<lambda>_. None) (quiet_kernel None) example_network
     (''stage'' # stage_args example_download) None example_machine))) ''/d/i'' = Some ''new image''"
proof -
  have r: "in_int64 (sr_MaximumBytes example_download)" "store_ok (hs example_machine)"
    by (simp_all add: example_download_def in_int64_def example_machine_def)
  from main_stage_publishes [OF example_main_stage r refl] show ?thesis
    by (auto simp: example_download_def example_network_def example_response_def)
qed

end
